(* ===== verification/Go_Prelude.thy ===== *)
theory Go_Prelude
  imports Complex_Main "HOL-Library.Char_ord" "HOL-Library.List_Lexorder"
    "HOL-Library.Sublist" "HOL-Library.Multiset"
begin

text \<open>
  The part of the Go language and of its standard library that every component of the
  autoscaler uses: 64-bit signed integers, error values and their text, byte strings
  (\<^verbatim>\<open>strings\<close>, \<^verbatim>\<open>strconv\<close>) and the facts on lists the components share.

  A Go string is its list of bytes. An \<open>error\<close> is a value of \<open>go_error\<close>: the
  package-level sentinel errors of \<^verbatim>\<open>src/\<close> are constructors of their own, an error of the
  API server carries the status reason it was created with, \<open>Wrapped\<close> is
  \<^verbatim>\<open>fmt.Errorf("prefix: %w", err)\<close> and \<open>ErrorString\<close> an error with a text only.
\<close>

named_theorems go_simps \<open>unfolding of the Go primitives\<close>

section \<open>Machine integers\<close>

definition wrap64 :: "int \<Rightarrow> int" where
  "wrap64 x = (x + 2 ^ 63) mod 2 ^ 64 - 2 ^ 63"

definition int64 :: "int \<Rightarrow> bool" where
  "int64 x \<longleftrightarrow> - (2 ^ 63) \<le> x \<and> x < 2 ^ 63"

lemma wrap64_int64: "int64 (wrap64 x)"
  by (simp add: wrap64_def int64_def)

lemma wrap64_id: "int64 x \<Longrightarrow> wrap64 x = x"
  by (simp add: wrap64_def int64_def)

lemma dvd_wrap64: "2 ^ 30 dvd x \<Longrightarrow> 2 ^ 30 dvd wrap64 x"
proof -
  assume "2 ^ 30 dvd x"
  then have "(2::int) ^ 30 dvd (x + 2 ^ 63) mod 2 ^ 64"
    by (intro dvd_mod dvd_add) auto
  then show ?thesis unfolding wrap64_def by (intro dvd_diff) auto
qed

section \<open>Errors\<close>

datatype sentinel =
    ErrNoMetricsSource | ErrVolumeModeIsNotFilesystem | ErrStorageClassNotFound
  | ErrStorageClassDoesNotSupportExpansion | ErrNoClient | ErrNoPVCFetcher | ErrPVCNotBound
  | ErrNoEventRecorder | ErrNoMetrics | ErrStaleMetrics | ErrCapacityIsZero
  | ErrNoPodsFound | ErrNoPVCsFound | ErrNoSelectorFetcher
  | ErrNoScaleClient | ErrNoRESTMapper | ErrNoPrometheusAddress
  | ErrNoMaxCapacity | ErrZeroPercentage | ErrNoEventChannel | ErrBadPercentageValue
  | ErrBadPattern

datatype go_error =
    Sentinel sentinel
  | ErrorString string
  | ApiError string string
  | Wrapped string go_error
  | Joined "go_error list"

primrec sentinel_text :: "sentinel \<Rightarrow> string" where
  "sentinel_text ErrNoMetricsSource = ''no metrics source provided''"
| "sentinel_text ErrVolumeModeIsNotFilesystem = ''volume mode is not filesystem''"
| "sentinel_text ErrStorageClassNotFound = ''no storage class found''"
| "sentinel_text ErrStorageClassDoesNotSupportExpansion = ''storage class does not support expansion''"
| "sentinel_text ErrNoClient = ''no client provided''"
| "sentinel_text ErrNoPVCFetcher = ''no PersistentVolumeClaim fetcher provided''"
| "sentinel_text ErrPVCNotBound = ''PersistentVolumeClaim is not bound''"
| "sentinel_text ErrNoEventRecorder = ''no event recorder provided''"
| "sentinel_text ErrNoMetrics = ''no metrics found''"
| "sentinel_text ErrStaleMetrics = ''stale metrics data''"
| "sentinel_text ErrCapacityIsZero = ''capacity is zero''"
| "sentinel_text ErrNoPodsFound = ''no matching pods found for PersistentVolumeClaimAutoscaler''"
| "sentinel_text ErrNoPVCsFound = ''matched pods do not reference any PersistentVolumeClaims''"
| "sentinel_text ErrNoSelectorFetcher = ''no selector fetcher provided''"
| "sentinel_text ErrNoScaleClient = ''no scale client provided''"
| "sentinel_text ErrNoRESTMapper = ''no REST mapper provided''"
| "sentinel_text ErrNoPrometheusAddress = ''no address specified''"
| "sentinel_text ErrNoMaxCapacity = ''no max capacity specified''"
| "sentinel_text ErrZeroPercentage = ''zero percentage''"
| "sentinel_text ErrNoEventChannel = ''no event channel provided''"
| "sentinel_text ErrBadPercentageValue = ''bad percentage value''"
| "sentinel_text ErrBadPattern = ''syntax error in pattern''"

text \<open>The text of an error: \<^verbatim>\<open>err.Error()\<close>. \<open>errors.Join\<close> separates by newlines.\<close>

fun join_lines :: "string list \<Rightarrow> string" where
  "join_lines [] = []"
| "join_lines [s] = s"
| "join_lines (s # t # ts) = s @ CHR 0x0A # join_lines (t # ts)"

fun Error :: "go_error \<Rightarrow> string" where
  "Error (Sentinel t) = sentinel_text t"
| "Error (ErrorString s) = s"
| "Error (ApiError r s) = s"
| "Error (Wrapped p e) = p @ '': '' @ Error e"
| "Error (Joined es) = join_lines (map Error es)"

text \<open>\<^verbatim>\<open>errors.Is\<close> for a sentinel: the error or one it wraps is that sentinel.\<close>

fun errors_Is :: "go_error \<Rightarrow> sentinel \<Rightarrow> bool" where
  "errors_Is (Sentinel u) t \<longleftrightarrow> u = t"
| "errors_Is (Wrapped p e) t \<longleftrightarrow> errors_Is e t"
| "errors_Is (Joined es) t \<longleftrightarrow> list_ex (\<lambda>e. errors_Is e t) es"
| "errors_Is (ErrorString s) t \<longleftrightarrow> False"
| "errors_Is (ApiError r s) t \<longleftrightarrow> False"

text \<open>
  The classification of API errors by their status reason (it looks through wrapping). An \<open>ApiError\<close> is an
  error of the API server, whose HTTP code agrees with its reason.
\<close>

fun ReasonForError :: "go_error \<Rightarrow> string" where
  "ReasonForError (ApiError r s) = r"
| "ReasonForError (Wrapped p e) = ReasonForError e"
| "ReasonForError _ = ''''"

definition IsNotFound :: "go_error \<Rightarrow> bool" where
  "IsNotFound e \<longleftrightarrow> ReasonForError e = ''NotFound''"

definition IsConflict :: "go_error \<Rightarrow> bool" where
  "IsConflict e \<longleftrightarrow> ReasonForError e = ''Conflict''"

definition IsTooManyRequests :: "go_error \<Rightarrow> bool" where
  "IsTooManyRequests e \<longleftrightarrow> ReasonForError e = ''TooManyRequests''"

section \<open>Strings\<close>

definition nl :: string where "nl = [CHR 0x0A]"

text \<open>\<^verbatim>\<open>%d\<close>: decimal rendering of an integer.\<close>

fun show_nat :: "nat \<Rightarrow> string" where
  "show_nat n =
     (if n < 10 then [char_of (48 + n)] else show_nat (n div 10) @ [char_of (48 + n mod 10)])"

declare show_nat.simps [simp del]

definition show_int :: "int \<Rightarrow> string" where
  "show_int i = (if i < 0 then CHR ''-'' # show_nat (nat (- i)) else show_nat (nat i))"

text \<open>Reading a decimal numeral back.\<close>

definition digit :: "char \<Rightarrow> nat option" where
  "digit c = (let n = (of_char c :: nat) in if 48 \<le> n \<and> n \<le> 57 then Some (n - 48) else None)"

fun read_digits :: "nat \<Rightarrow> string \<Rightarrow> nat option" where
  "read_digits a [] = Some a"
| "read_digits a (c # s) = (case digit c of Some d \<Rightarrow> read_digits (10 * a + d) s | None \<Rightarrow> None)"

definition read_int :: "string \<Rightarrow> int option" where
  "read_int s =
     (case s of [] \<Rightarrow> None
      | c # t \<Rightarrow> if c = CHR ''-'' then map_option (\<lambda>n. - int n) (read_digits 0 t)
               else map_option int (read_digits 0 s))"

lemma digit_char: "d < 10 \<Longrightarrow> digit (char_of (48 + d)) = Some d"
  by (simp add: digit_def Let_def)

lemma read_digits_append:
  "read_digits a (s @ t) = (case read_digits a s of Some b \<Rightarrow> read_digits b t | None \<Rightarrow> None)"
  by (induction a s rule: read_digits.induct) (auto split: option.split)

lemma read_digits_show_nat: "read_digits 0 (show_nat n) = Some n"
proof (induction n rule: show_nat.induct)
  case (1 n)
  show ?case
  proof (cases "n < 10")
    case True
    then show ?thesis by (simp add: show_nat.simps [of n] digit_char)
  next
    case False
    with 1 show ?thesis by (simp add: show_nat.simps [of n] read_digits_append digit_char)
  qed
qed

lemma show_nat_digit: "\<exists>(d :: nat) s. d < 10 \<and> show_nat n = char_of (48 + d) # s"
proof (induction n rule: show_nat.induct)
  case (1 n)
  show ?case
  proof (cases "n < 10")
    case True
    then show ?thesis by (auto simp: show_nat.simps [of n])
  next
    case False
    with 1 obtain d :: nat and s where "d < 10" "show_nat (n div 10) = char_of (48 + d) # s" by blast
    with False show ?thesis by (auto simp: show_nat.simps [of n])
  qed
qed

lemma char_digit_not_minus: "(d :: nat) < 10 \<Longrightarrow> char_of (48 + d) \<noteq> CHR ''-''"
proof
  assume "d < 10" "char_of (48 + d) = CHR ''-''"
  then have "digit (CHR ''-'') = Some d" using digit_char [of d] by simp
  then show False by (simp add: digit_def)
qed

lemma read_int_show_int: "read_int (show_int i) = Some i"
proof (cases "i < 0")
  case True
  then show ?thesis by (simp add: show_int_def read_int_def read_digits_show_nat)
next
  case False
  obtain d :: nat and s where "d < 10" "show_nat (nat i) = char_of (48 + d) # s" using show_nat_digit by blast
  with False show ?thesis using read_digits_show_nat [of "nat i"] char_digit_not_minus [of d]
    by (simp add: show_int_def read_int_def del: read_digits.simps)
qed

fun HasPrefix :: "string \<Rightarrow> string \<Rightarrow> bool" where
  "HasPrefix s [] \<longleftrightarrow> True"
| "HasPrefix [] (c # cs) \<longleftrightarrow> False"
| "HasPrefix (d # s) (c # cs) \<longleftrightarrow> d = c \<and> HasPrefix s cs"

fun Contains :: "string \<Rightarrow> string \<Rightarrow> bool" where
  "Contains [] t \<longleftrightarrow> t = []"
| "Contains (c # s) t \<longleftrightarrow> HasPrefix (c # s) t \<or> Contains s t"

lemma HasPrefix_iff: "HasPrefix s t \<longleftrightarrow> prefix t s"
  by (induction s t rule: HasPrefix.induct) auto

lemma Contains_iff: "Contains s t \<longleftrightarrow> sublist t s"
  by (induction s t rule: Contains.induct) (auto simp: HasPrefix_iff sublist_Cons_right)

text \<open>
  \<^verbatim>\<open>strings.ToLower\<close>, as far as the ASCII characters of its result go: the upper case
  ASCII letters, and the two other code points whose lower case is an ASCII letter (U+0130,
  bytes C4 B0, and the Kelvin sign U+212A, bytes E2 84 AA). The bytes of the remaining
  non-ASCII code points are kept; no ASCII substring of the result depends on them.
\<close>

definition lower_char :: "char \<Rightarrow> char" where
  "lower_char c = (let n = (of_char c :: nat) in if 65 \<le> n \<and> n \<le> 90 then char_of (n + 32) else c)"

function ToLower :: "string \<Rightarrow> string" where
  "ToLower [] = []"
| "ToLower (c # s) =
     (if c = CHR 0xC4 \<and> HasPrefix s [CHR 0xB0] then CHR ''i'' # ToLower (drop 1 s)
      else if c = CHR 0xE2 \<and> HasPrefix s [CHR 0x84, CHR 0xAA] then CHR ''k'' # ToLower (drop 2 s)
      else lower_char c # ToLower s)"
  by pat_completeness auto
termination
  by (relation "measure length") auto

text \<open>\<^verbatim>\<open>strings.ReplaceAll\<close> of a one-byte string.\<close>

definition ReplaceAll :: "string \<Rightarrow> char \<Rightarrow> string \<Rightarrow> string" where
  "ReplaceAll s c r = concat (map (\<lambda>d. if d = c then r else [d]) s)"

section \<open>Lists\<close>

text \<open>
  \<^verbatim>\<open>slices.SortFunc\<close> is not stable. Where the keys are distinct every sorting function
  returns the same list, the one \<open>sort_key\<close> computes.
\<close>

lemma sorted_by_distinct_key_unique:
  assumes "mset ys = mset xs" "sorted (map k ys)" "distinct (map k xs)"
  shows "ys = sort_key k xs"
proof -
  have d: "distinct (map k ys)"
    using assms(1,3) by (metis mset_eq_imp_distinct_iff mset_map)
  have s: "set ys = set (sort_key k xs)" using assms(1) by (metis mset_eq_setD set_sort)
  have "map k ys = map k (sort_key k xs)"
    using assms d
    by (intro sorted_distinct_set_unique)
      (auto simp: sorted_sort_key distinct_map inj_on_def s dest: mset_eq_setD)
  moreover have "inj_on k (set ys \<union> set (sort_key k xs))" using d s by (simp add: distinct_map)
  ultimately show ?thesis by (metis map_inj_on)
qed

lemma sort_key_map_mset:
  "mset xs = mset ys \<Longrightarrow> sort (map f xs) = sort (map f ys)"
  by (metis mset_map properties_for_sort sorted_sort mset_sort)

end
