(* ===== verification/Go_Float64.thy ===== *)
theory Go_Float64
  imports Go_Prelude "HOL-Library.Log_Nat"
begin

text \<open>
  Go's \<open>float64\<close> arithmetic. A finite double is the rational number it denotes, and every
  arithmetic operation is the exact rational operation followed by rounding to the nearest
  number with a significand of 53 bits, ties to even (\<open>float64\<close>). The quantities of the
  program are 64-bit integers, their quotients and products with small constants: magnitudes
  between \<^verbatim>\<open>2^-63\<close> and \<^verbatim>\<open>2^71\<close>, so neither overflow nor subnormals can occur and no
  infinity or NaN arises. The rounding is executable. The lemmas give what the clients use:
  the rounding is monotone, exact on integers of at most 53 bits, and commutes with scaling by
  powers of two; the locale \<open>rounding\<close> states that contract and derives from it the bounds
  on sizes.
\<close>

text \<open>A double that need not be finite; the sign of a zero is not modelled.\<close>

datatype float64_value = Finite rat | NaN | PosInf | NegInf

section \<open>Rounding to nearest, ties to even\<close>

definition round_half_even :: "rat \<Rightarrow> int" where
  "round_half_even y =
     (let f = \<lfloor>y\<rfloor>; d = y - of_int f
      in if d < 1 / 2 then f else if 1 / 2 < d then f + 1 else if even f then f else f + 1)"

definition ilog2 :: "rat \<Rightarrow> int" where
  "ilog2 x = (case quotient_of x of (p, q) \<Rightarrow>
     let e = bitlen p - bitlen q in if 2 powi e \<le> x then e else e - 1)"

definition float64 :: "rat \<Rightarrow> rat" where
  "float64 x =
     (if x = 0 then 0
      else let u = 2 powi (ilog2 \<bar>x\<bar> - 52) in of_int (round_half_even (x / u)) * u)"

lemma round_half_even_of_int [simp]: "round_half_even (of_int n) = n"
  by (simp add: round_half_even_def)

lemma round_half_even_mono: "x \<le> y \<Longrightarrow> round_half_even x \<le> round_half_even y"
proof -
  assume "x \<le> y"
  then have f: "\<lfloor>x\<rfloor> \<le> \<lfloor>y\<rfloor>" by (rule floor_mono)
  show ?thesis
  proof (cases "\<lfloor>x\<rfloor> = \<lfloor>y\<rfloor>")
    case True
    with \<open>x \<le> y\<close> show ?thesis by (auto simp: round_half_even_def Let_def)
  next
    case False
    with f have "\<lfloor>x\<rfloor> + 1 \<le> \<lfloor>y\<rfloor>" by simp
    then show ?thesis by (auto simp: round_half_even_def Let_def)
  qed
qed

lemma round_half_even_error: "\<bar>of_int (round_half_even y) - y\<bar> \<le> 1 / 2"
proof -
  have "of_int \<lfloor>y\<rfloor> \<le> y" "y < of_int \<lfloor>y\<rfloor> + 1" by linarith+
  then show ?thesis unfolding round_half_even_def Let_def by (simp add: abs_if; linarith)
qed

lemma round_half_even_minus [simp]: "round_half_even (- y) = - round_half_even y"
proof (cases "y \<in> \<int>")
  case True
  then obtain n where "y = of_int n" by (auto elim: Ints_cases)
  then show ?thesis by (simp flip: of_int_minus)
next
  case False
  then have "y \<noteq> of_int \<lfloor>y\<rfloor>" by (metis Ints_of_int)
  then have c: "\<lfloor>- y\<rfloor> = - \<lfloor>y\<rfloor> - 1" by (simp add: floor_minus ceiling_altdef)
  have "even (- \<lfloor>y\<rfloor> - 1) = odd \<lfloor>y\<rfloor>" by simp
  then show ?thesis unfolding round_half_even_def Let_def c
    by (auto simp: algebra_simps)
qed

lemma bitlen_powi_bounds:
  assumes "0 < n"
  shows "(2::rat) powi (bitlen n - 1) \<le> of_int n" "of_int n < (2::rat) powi bitlen n"
proof -
  have b: "0 < bitlen n" using assms by (simp add: bitlen_alt_def)
  have "(2::int) ^ nat (bitlen n - 1) \<le> n" "n < 2 ^ nat (bitlen n)"
    using bitlen_bounds [OF assms] by simp_all
  then have "of_int (2 ^ nat (bitlen n - 1)) \<le> (of_int n :: rat)"
    "of_int n < (of_int (2 ^ nat (bitlen n)) :: rat)"
    by (simp_all only: of_int_le_iff of_int_less_iff)
  with b show "(2::rat) powi (bitlen n - 1) \<le> of_int n" "of_int n < (2::rat) powi bitlen n"
    by (simp_all add: power_int_nonneg_exp)
qed

lemma ilog2_bounds:
  assumes "0 < x"
  shows "2 powi ilog2 x \<le> x" "x < 2 powi (ilog2 x + 1)"
proof -
  obtain p q where pq: "quotient_of x = (p, q)" by fastforce
  have q: "0 < q" using pq by (rule quotient_of_denom_pos)
  have x: "x = of_int p / of_int q" using pq by (rule quotient_of_div)
  with assms q have p: "0 < p" by (simp add: zero_less_divide_iff)
  note pb = bitlen_powi_bounds [OF p] and qb = bitlen_powi_bounds [OF q]
  have "2 powi (bitlen p - bitlen q - 1) = 2 powi (bitlen p - 1) / (2::rat) powi bitlen q"
    by (simp add: power_int_diff [symmetric] algebra_simps)
  also have "\<dots> \<le> x" unfolding x using pb qb p q
    by (intro frac_le) (auto intro: less_imp_le)
  finally have lo: "2 powi (bitlen p - bitlen q - 1) \<le> x" .
  have "x < 2 powi bitlen p / (2::rat) powi (bitlen q - 1)" unfolding x using pb qb q p
    by (intro frac_less) auto
  also have "\<dots> = 2 powi (bitlen p - bitlen q + 1)"
    by (simp add: power_int_diff [symmetric] algebra_simps)
  finally have hi: "x < 2 powi (bitlen p - bitlen q + 1)" .
  from lo hi show "2 powi ilog2 x \<le> x" "x < 2 powi (ilog2 x + 1)"
    by (auto simp: ilog2_def pq Let_def)
qed

lemma powi_less_iff: "(2::rat) powi m < 2 powi n \<longleftrightarrow> m < n"
  by (meson linorder_not_le not_less_iff_gr_or_eq one_less_numeral_iff order_less_imp_le
      power_int_increasing power_int_strict_increasing semiring_norm(76))

lemma ilog2_unique:
  assumes "2 powi e \<le> x" "x < 2 powi (e + 1)"
  shows "ilog2 x = e"
proof -
  have "0 < x" using assms(1) by (rule less_le_trans [rotated]) simp
  note b = ilog2_bounds [OF this]
  have "(2::rat) powi ilog2 x < 2 powi (e + 1)" "(2::rat) powi e < 2 powi (ilog2 x + 1)"
    using b assms by (auto intro: le_less_trans)
  then have "ilog2 x < e + 1" "e < ilog2 x + 1"
    by (simp_all add: powi_less_iff)
  then show ?thesis by simp
qed

lemma ilog2_scale: "0 < x \<Longrightarrow> ilog2 (x * 2 powi k) = ilog2 x + k"
  using ilog2_bounds [of x]
  by (intro ilog2_unique) (auto simp: power_int_add mult.commute mult.left_commute)

lemma ilog2_mono:
  assumes "0 < x" "x \<le> y"
  shows "ilog2 x \<le> ilog2 y"
proof -
  have "(2::rat) powi ilog2 x \<le> x" using assms(1) by (rule ilog2_bounds)
  also note assms(2)
  also have "y < 2 powi (ilog2 y + 1)" using assms by (intro ilog2_bounds) simp
  finally show ?thesis by (simp only: powi_less_iff)
qed

lemma float64_0 [simp]: "float64 0 = 0"
  by (simp add: float64_def)

lemma float64_minus [simp]: "float64 (- x) = - float64 x"
  by (simp add: float64_def Let_def)

text \<open>Scaling by a power of two commutes with rounding.\<close>

lemma float64_scale: "float64 (x * 2 powi k) = float64 x * 2 powi k"
proof (cases "x = 0")
  case False
  then have e: "ilog2 \<bar>x * 2 powi k\<bar> - 52 = (ilog2 \<bar>x\<bar> - 52) + k"
    by (simp add: abs_mult ilog2_scale)
  show ?thesis using False unfolding float64_def e Let_def
    by (simp add: power_int_add)
qed simp

lemma float64_representable:
  assumes "\<bar>m\<bar> \<le> 2 ^ 53"
  shows "float64 (of_int m * 2 powi e) = of_int m * 2 powi e"
proof (cases "m = 0")
  case False
  define x where "x = (of_int m :: rat)"
  define k where "k = ilog2 \<bar>x\<bar>"
  have x0: "0 < \<bar>x\<bar>" using False by (simp add: x_def)
  have kb: "2 powi k \<le> \<bar>x\<bar>" "\<bar>x\<bar> < 2 powi (k + 1)" using ilog2_bounds [OF x0] by (simp_all add: k_def)
  have "\<bar>x\<bar> \<le> 2 powi 53" using assms unfolding x_def
    by (metis of_int_abs of_int_le_iff of_int_numeral of_int_power power_int_numeral)
  with kb(1) have "(2::rat) powi k < 2 powi 54" by (auto intro: le_less_trans)
  then have k53: "k \<le> 53" by (simp only: powi_less_iff)
  have "\<exists>n. x / 2 powi (k - 52) = of_int n"
  proof (cases "k = 53")
    case True
    with kb(1) \<open>\<bar>x\<bar> \<le> 2 powi 53\<close> have "\<bar>x\<bar> = 2 ^ 53" by simp
    then have "x = 2 ^ 53 \<or> x = - (2 ^ 53)" by (auto simp: abs_if split: if_splits)
    then have "x / 2 powi (k - 52) = of_int (2 ^ 52) \<or> x / 2 powi (k - 52) = of_int (- (2 ^ 52))"
      using True by auto
    then show ?thesis by blast
  next
    case False
    with k53 have "0 \<le> 52 - k" by simp
    have "x / 2 powi (k - 52) = x * 2 powi (52 - k)"
      using power_int_minus [of "2::rat" "52 - k"] by (simp add: divide_inverse)
    also have "\<dots> = of_int (m * 2 ^ nat (52 - k))" using \<open>0 \<le> 52 - k\<close>
      by (simp add: x_def power_int_nonneg_exp)
    finally show ?thesis ..
  qed
  then obtain n where n: "x / 2 powi (k - 52) = of_int n" ..
  have "float64 x = of_int (round_half_even (x / 2 powi (k - 52))) * 2 powi (k - 52)"
    using x0 by (simp add: float64_def Let_def k_def)
  also have "\<dots> = x" unfolding n round_half_even_of_int unfolding n [symmetric] by simp
  finally show ?thesis by (simp add: float64_scale x_def)
qed simp

lemma float64_of_int: "\<bar>m\<bar> \<le> 2 ^ 53 \<Longrightarrow> float64 (of_int m) = of_int m"
  using float64_representable [of m 0] by simp

text \<open>The result stays inside the binade of the argument.\<close>

lemma float64_binade:
  assumes "0 < x"
  shows "2 powi ilog2 x \<le> float64 x" "float64 x \<le> 2 powi (ilog2 x + 1)"
proof -
  define u where "u = (2::rat) powi (ilog2 x - 52)"
  have u: "0 < u" by (simp add: u_def)
  have f: "float64 x = of_int (round_half_even (x / u)) * u"
    using assms by (simp add: float64_def Let_def u_def)
  have s: "2 powi ilog2 x = of_int (2 ^ 52) * u" "2 powi (ilog2 x + 1) = of_int (2 ^ 53) * u"
    using power_int_add [of "2::rat" "ilog2 x - 52" 52] power_int_add [of "2::rat" "ilog2 x - 52" 53]
    by (simp_all add: u_def add.commute)
  have "of_int (2 ^ 52) \<le> x / u" "x / u \<le> of_int (2 ^ 53)"
    using ilog2_bounds [OF assms] u by (simp_all add: s pos_le_divide_eq pos_divide_le_eq less_imp_le)
  then have "2 ^ 52 \<le> round_half_even (x / u)" "round_half_even (x / u) \<le> 2 ^ 53"
    using round_half_even_mono round_half_even_of_int by metis+
  then show "2 powi ilog2 x \<le> float64 x" "float64 x \<le> 2 powi (ilog2 x + 1)"
    unfolding f s using u by (simp_all only: mult_le_cancel_right_pos of_int_le_iff)
qed

lemma float64_mono_pos:
  assumes "0 < x" "x \<le> y"
  shows "float64 x \<le> float64 y"
proof (cases "ilog2 x = ilog2 y")
  case True
  with assms show ?thesis
    by (simp add: float64_def Let_def round_half_even_mono divide_right_mono mult_right_mono)
next
  case False
  with ilog2_mono [OF assms] have "ilog2 x + 1 \<le> ilog2 y" by simp
  then have "(2::rat) powi (ilog2 x + 1) \<le> 2 powi ilog2 y" by (rule power_int_increasing) simp
  with float64_binade(2) [of x] float64_binade(1) [of y] assms show ?thesis by linarith
qed

lemma float64_nonneg: "0 \<le> x \<Longrightarrow> 0 \<le> float64 x"
  using float64_binade(1) [of x] order_trans [OF zero_le_power_int [of "2::rat" "ilog2 x"]]
  by (cases "x = 0") auto

lemma float64_mono: "x \<le> y \<Longrightarrow> float64 x \<le> float64 y"
proof -
  assume xy: "x \<le> y"
  consider "0 < x" | "x \<le> 0" "0 \<le> y" | "y < 0" using xy by linarith
  then show ?thesis
  proof cases
    case 1 then show ?thesis using xy by (rule float64_mono_pos)
  next
    case 2
    then have "0 \<le> float64 (- x)" "0 \<le> float64 y" by (auto intro: float64_nonneg simp del: float64_minus)
    then show ?thesis by simp
  next
    case 3
    then have "float64 (- y) \<le> float64 (- x)" using xy by (intro float64_mono_pos) auto
    then show ?thesis by simp
  qed
qed

lemma float64_error: "\<bar>float64 x - x\<bar> \<le> \<bar>x\<bar> / 2 ^ 53"
proof (cases "x = 0")
  case False
  define u where "u = (2::rat) powi (ilog2 \<bar>x\<bar> - 52)"
  have u: "0 < u" by (simp add: u_def)
  have "2 powi ilog2 \<bar>x\<bar> = 2 ^ 52 * u"
    using power_int_add [of "2::rat" "ilog2 \<bar>x\<bar> - 52" 52] by (simp add: u_def)
  with ilog2_bounds(1) [of "\<bar>x\<bar>"] False have ux: "u \<le> \<bar>x\<bar> / 2 ^ 52" by simp
  have "float64 x - x = (of_int (round_half_even (x / u)) - x / u) * u"
    using False u by (simp add: float64_def Let_def u_def left_diff_distrib)
  then have "\<bar>float64 x - x\<bar> = \<bar>of_int (round_half_even (x / u)) - x / u\<bar> * u"
    using u by (simp add: abs_mult)
  also have "\<dots> \<le> 1 / 2 * u" using u round_half_even_error by (intro mult_right_mono) auto
  finally show ?thesis using ux by simp
qed simp

lemma float64_significand: "\<exists>m e. \<bar>m\<bar> \<le> 2 ^ 53 \<and> float64 x = of_int m * 2 powi e"
proof (cases "x = 0")
  case True
  then have "\<bar>0 :: int\<bar> \<le> 2 ^ 53 \<and> float64 x = of_int 0 * 2 powi 0" by simp
  then show ?thesis by blast
next
  case False
  define u where "u = (2::rat) powi (ilog2 \<bar>x\<bar> - 52)"
  define m where "m = round_half_even (x / u)"
  have f: "float64 x = of_int m * u" using False by (simp add: float64_def Let_def u_def m_def)
  have "\<bar>float64 x\<bar> \<le> 2 powi (ilog2 \<bar>x\<bar> + 1)"
    using float64_binade(2) [of "\<bar>x\<bar>"] float64_nonneg [of "\<bar>x\<bar>"] False
    by (auto simp: abs_if split: if_splits)
  moreover have "2 powi (ilog2 \<bar>x\<bar> + 1) = of_int (2 ^ 53) * u"
    using power_int_add [of "2::rat" "ilog2 \<bar>x\<bar> - 52" 53] by (simp add: u_def add.commute)
  ultimately have "of_int \<bar>m\<bar> * u \<le> of_int (2 ^ 53) * u"
    by (simp add: f abs_mult u_def)
  then have "\<bar>m\<bar> \<le> 2 ^ 53"
    by (simp only: mult_le_cancel_right_pos of_int_le_iff u_def zero_less_power_int zero_less_numeral)
  with f show ?thesis unfolding u_def by blast
qed

lemma float64_idem: "float64 (float64 x) = float64 x"
  using float64_significand [of x] float64_representable by fastforce

section \<open>Conversions between integers and doubles\<close>

text \<open>
  \<open>float64(n)\<close> for an integer rounds; \<open>int64(x)\<close> truncates towards zero. Out of the range
  of \<open>int64\<close> the Go specification leaves the result to the implementation: the definition
  takes the value the amd64 conversion instruction gives. No theorem about sizes depends on it.
\<close>

definition of_int64 :: "int \<Rightarrow> rat" where
  "of_int64 n = float64 (of_int n)"

definition trunc :: "rat \<Rightarrow> int" where
  "trunc x = (if 0 \<le> x then \<lfloor>x\<rfloor> else \<lceil>x\<rceil>)"

definition to_int64 :: "rat \<Rightarrow> int" where
  "to_int64 x = (let t = trunc x in if int64 t then t else - (2 ^ 63))"

lemma int64_to_int64: "int64 (to_int64 x)"
  by (simp add: to_int64_def Let_def int64_def)

lemma trunc_of_int [simp]: "trunc (of_int n) = n"
  by (simp add: trunc_def)

lemma trunc_mono: "x \<le> y \<Longrightarrow> trunc x \<le> trunc y"
  using order_trans [of "\<lceil>x\<rceil>" 0 "\<lfloor>y\<rfloor>"]
  by (auto simp: trunc_def floor_mono ceiling_mono)

lemma to_int64_of_int: "int64 n \<Longrightarrow> to_int64 (of_int n) = n"
  by (simp add: to_int64_def)

section \<open>The contract of the rounding\<close>

locale rounding =
  fixes rnd :: "rat \<Rightarrow> rat"
  assumes rnd_mono: "x \<le> y \<Longrightarrow> rnd x \<le> rnd y"
    and rnd_of_int: "\<bar>m\<bar> \<le> 2 ^ 53 \<Longrightarrow> rnd (of_int m) = of_int m"
    and rnd_scale: "rnd (x * 2 powi k) = rnd x * 2 powi k"
    and rnd_idem: "rnd (rnd x) = rnd x"
begin

lemma ge_int: "of_int m \<le> x \<Longrightarrow> \<bar>m\<bar> \<le> 2 ^ 53 \<Longrightarrow> of_int m \<le> rnd x"
  using rnd_mono [of "of_int m" x] by (simp add: rnd_of_int)

lemma le_int: "x \<le> of_int m \<Longrightarrow> \<bar>m\<bar> \<le> 2 ^ 53 \<Longrightarrow> rnd x \<le> of_int m"
  using rnd_mono [of x "of_int m"] by (simp add: rnd_of_int)

lemma nonneg: "0 \<le> x \<Longrightarrow> 0 \<le> rnd x"
  using ge_int [of 0] by simp

text \<open>Dividing a double by \<^verbatim>\<open>2^30\<close> is exact.\<close>

lemma div_gi: "rnd (rnd x / 2 ^ 30) = rnd x / 2 ^ 30"
  using rnd_scale [of "rnd x" "- 30"] by (simp add: rnd_idem)

text \<open>Rounding a double up to a multiple of \<^verbatim>\<open>2^30\<close> through a division and a ceiling.\<close>

lemma ceil_gi:
  fixes x :: rat
  defines "t \<equiv> \<lceil>rnd (rnd x / 2 ^ 30)\<rceil> * 2 ^ 30"
  shows "rnd x \<le> of_int t" "of_int t < rnd x + 2 ^ 30"
proof -
  have "rnd x / 2 ^ 30 \<le> of_int \<lceil>rnd x / 2 ^ 30\<rceil>" "of_int \<lceil>rnd x / 2 ^ 30\<rceil> < rnd x / 2 ^ 30 + 1"
    by linarith+
  then show "rnd x \<le> of_int t" "of_int t < rnd x + 2 ^ 30"
    unfolding t_def div_gi by (simp_all add: field_simps del: le_of_int_ceiling)
qed

end

interpretation f64: rounding float64
  by unfold_locales (simp_all add: float64_mono float64_of_int float64_scale float64_idem)

end
