(* ===== verification/Kube_Objects.thy ===== *)
theory Kube_Objects
  imports Go_Prelude
begin

text \<open>
  The Kubernetes objects the autoscaler reads and writes, with the fields it uses, and the
  operations on \<^verbatim>\<open>resource.Quantity\<close> it calls. \<^verbatim>\<open>resource.Quantity\<close> is code of
  \<^verbatim>\<open>k8s.io/apimachinery\<close>: its values have an abstract type \<open>'q\<close> and its operations are
  the record \<open>'q quantity_ops\<close>, an argument of every definition that computes with sizes.
  \<open>quantity_laws\<close> states their documented behaviour. A Go map is a partial function, and
  \<open>None\<close> of an outer option is the nil map where a write to it would panic.
\<close>

type_synonym key = "string \<times> string"

definition NamespacedName_String :: "key \<Rightarrow> string" where
  "NamespacedName_String k = fst k @ ''/'' @ snd k"

abbreviation ResourceStorage :: string where "ResourceStorage \<equiv> ''storage''"
abbreviation ConditionTrue :: string where "ConditionTrue \<equiv> ''True''"
abbreviation ConditionFalse :: string where "ConditionFalse \<equiv> ''False''"
abbreviation ConditionUnknown :: string where "ConditionUnknown \<equiv> ''Unknown''"

text \<open>Condition types of a PersistentVolumeClaim.\<close>

abbreviation PVCResizing :: string where "PVCResizing \<equiv> ''Resizing''"
abbreviation PVCFileSystemResizePending :: string where
  "PVCFileSystemResizePending \<equiv> ''FileSystemResizePending''"
abbreviation PVCVolumeModifyingVolume :: string where "PVCVolumeModifyingVolume \<equiv> ''ModifyingVolume''"
abbreviation PVCControllerResizeError :: string where "PVCControllerResizeError \<equiv> ''ControllerResizeError''"
abbreviation PVCNodeResizeError :: string where "PVCNodeResizeError \<equiv> ''NodeResizeError''"

text \<open>Allocated resource statuses.\<close>

abbreviation ControllerResizeInfeasible :: string where
  "ControllerResizeInfeasible \<equiv> ''ControllerResizeInfeasible''"
abbreviation NodeResizeInfeasible :: string where
  "NodeResizeInfeasible \<equiv> ''NodeResizeInfeasible''"

record pvc_condition =
  pc_type :: string
  pc_status :: string
  pc_message :: string

record 'q pvc =
  pvc_namespace :: string
  pvc_name :: string
  pvc_annotations :: "string \<rightharpoonup> string"
  pvc_requests :: "(string \<rightharpoonup> 'q) option"
  pvc_storageClassName :: "string option"
  pvc_volumeMode :: "string option"
  pvc_phase :: string
  pvc_capacity :: "string \<rightharpoonup> 'q"
  pvc_conditions :: "pvc_condition list"
  pvc_allocatedResourceStatuses :: "string \<rightharpoonup> string"

record storage_class =
  sc_allowVolumeExpansion :: "bool option"

text \<open>A volume of a pod: the name of the claim it references, if it references one.\<close>

type_synonym volume = "string option"

record pod =
  pod_namespace :: string
  pod_name :: string
  pod_volumes :: "volume list"
  pod_schedulingGates :: "string list"
  pod_phase :: string
  pod_deletionTimestamp :: "int option"
  pod_ownerReferences :: "string list"

text \<open>\<^verbatim>\<open>metav1.Condition\<close>.\<close>

record condition =
  c_type :: string
  c_status :: string
  c_reason :: string
  c_message :: string
  c_lastTransitionTime :: "int option"

definition Condition :: "string \<Rightarrow> string \<Rightarrow> string \<Rightarrow> string \<Rightarrow> condition" where
  "Condition t st r m = \<lparr>c_type = t, c_status = st, c_reason = r, c_message = m, c_lastTransitionTime = None\<rparr>"

lemma Condition_sel [simp]:
  "c_type (Condition t st r m) = t" "c_status (Condition t st r m) = st"
  "c_reason (Condition t st r m) = r" "c_message (Condition t st r m) = m"
  by (simp_all add: Condition_def)

definition pvc_key :: "'q pvc \<Rightarrow> key" where
  "pvc_key p = (pvc_namespace p, pvc_name p)"

definition pod_key :: "pod \<Rightarrow> key" where
  "pod_key p = (pod_namespace p, pod_name p)"

section \<open>Quantities\<close>

record 'q quantity_ops =
  Value :: "'q \<Rightarrow> int"
  Cmp :: "'q \<Rightarrow> 'q \<Rightarrow> int"
  IsZero :: "'q \<Rightarrow> bool"
  AsInt64 :: "'q \<Rightarrow> int option"
  QuantityEqual :: "'q \<Rightarrow> 'q \<Rightarrow> bool"
  QuantityString :: "'q \<Rightarrow> string"
  ParseQuantity :: "string \<Rightarrow> go_error + 'q"
  NewQuantity :: "int \<Rightarrow> 'q"
  ZeroQuantity :: 'q

text \<open>
  The documented behaviour of quantities whose amount fits an \<open>int64\<close>: a quantity denotes an
  exact amount, \<open>Value\<close> rounds it up, \<open>Cmp\<close> compares amounts, \<open>NewQuantity\<close> makes the
  quantity of an integer, \<open>AsInt64\<close> is exact where it answers, and printing loses no precision.
\<close>

definition quantity_laws :: "'q quantity_ops \<Rightarrow> ('q \<Rightarrow> rat) \<Rightarrow> bool" where
  "quantity_laws Q amount \<longleftrightarrow>
     (\<forall>q. 0 \<le> amount q \<and> amount q \<le> 2 ^ 63 - 1 \<longrightarrow> Value Q q = \<lceil>amount q\<rceil>) \<and>
     (\<forall>q r. Cmp Q q r = (if amount q < amount r then -1 else if amount q = amount r then 0 else 1)) \<and>
     (\<forall>q. IsZero Q q \<longleftrightarrow> amount q = 0) \<and>
     (\<forall>q r. QuantityEqual Q q r \<longleftrightarrow> amount q = amount r) \<and>
     (\<forall>n. int64 n \<longrightarrow> amount (NewQuantity Q n) = of_int n) \<and>
     (\<forall>q n. AsInt64 Q q = Some n \<longrightarrow> amount q = of_int n) \<and>
     amount (ZeroQuantity Q) = 0 \<and>
     (\<forall>q. \<exists>r. ParseQuantity Q (QuantityString Q q) = Inr r \<and> amount r = amount q) \<and>
     (\<exists>r. ParseQuantity Q ''1Gi'' = Inr r \<and> amount r = 2 ^ 30)"

text \<open>Integer byte counts satisfy the laws: the instance the examples compute with.\<close>

definition byte_quantities :: "int quantity_ops" where
  "byte_quantities =
     \<lparr>Value = (\<lambda>q. q), Cmp = (\<lambda>q r. if q < r then -1 else if q = r then 0 else 1),
      IsZero = (\<lambda>q. q = 0), AsInt64 = Some, QuantityEqual = (=), QuantityString = show_int,
      ParseQuantity = (\<lambda>s. if s = ''1Gi'' then Inr (2 ^ 30) else case read_int s of Some n \<Rightarrow> Inr n
        | None \<Rightarrow> Inl (ErrorString ''quantities must match the regular expression'')), NewQuantity = (\<lambda>n. n), ZeroQuantity = 0\<rparr>"

lemma byte_quantities_laws: "quantity_laws byte_quantities of_int"
proof -
  have "show_int q \<noteq> ''1Gi''" for q
    using read_int_show_int [of q] by (auto simp: read_int_def digit_def)
  then show ?thesis by (simp add: quantity_laws_def byte_quantities_def read_int_show_int)
qed

lemma byte_quantities_simps [simp]:
  "Value byte_quantities q = q" "Cmp byte_quantities q r = (if q < r then -1 else if q = r then 0 else 1)"
  "IsZero byte_quantities q \<longleftrightarrow> q = 0" "AsInt64 byte_quantities q = Some q"
  "QuantityEqual byte_quantities q r \<longleftrightarrow> q = r" "QuantityString byte_quantities q = show_int q"
  "NewQuantity byte_quantities q = q" "ZeroQuantity byte_quantities = 0"
  by (simp_all add: byte_quantities_def)

lemma quantity_lawsD:
  assumes "quantity_laws Q amount"
  shows "\<And>q. 0 \<le> amount q \<Longrightarrow> amount q \<le> 2 ^ 63 - 1 \<Longrightarrow> Value Q q = \<lceil>amount q\<rceil>"
    and "\<And>q r. Cmp Q q r = (if amount q < amount r then -1 else if amount q = amount r then 0 else 1)"
    and "\<And>q. IsZero Q q \<longleftrightarrow> amount q = 0"
    and "\<And>q r. QuantityEqual Q q r \<longleftrightarrow> amount q = amount r"
    and "\<And>n. int64 n \<Longrightarrow> amount (NewQuantity Q n) = of_int n"
    and "\<And>q n. AsInt64 Q q = Some n \<Longrightarrow> amount q = of_int n"
    and "amount (ZeroQuantity Q) = 0"
    and "\<And>q. \<exists>r. ParseQuantity Q (QuantityString Q q) = Inr r \<and> amount r = amount q"
    and "\<exists>r. ParseQuantity Q ''1Gi'' = Inr r \<and> amount r = 2 ^ 30"
  using assms unfolding quantity_laws_def by blast+

text \<open>\<^verbatim>\<open>ResourceList.Storage()\<close>: the storage entry, or the zero quantity.\<close>

definition Storage :: "'q quantity_ops \<Rightarrow> (string \<rightharpoonup> 'q) \<Rightarrow> 'q" where
  "Storage Q m = (case m ResourceStorage of Some q \<Rightarrow> q | None \<Rightarrow> ZeroQuantity Q)"

definition specSize :: "'q quantity_ops \<Rightarrow> 'q pvc \<Rightarrow> 'q" where
  "specSize Q p = Storage Q (case pvc_requests p of Some m \<Rightarrow> m | None \<Rightarrow> Map.empty)"

definition statusSize :: "'q quantity_ops \<Rightarrow> 'q pvc \<Rightarrow> 'q" where
  "statusSize Q p = Storage Q (pvc_capacity p)"

end
