(* ===== verification/Metrics_Source.thy ===== *)
theory Metrics_Source
  imports Go_Float64 Kube_Objects "HOL-Library.AList"
begin

text \<open>
  \<^verbatim>\<open>internal/metrics/source\<close>: the statistics of a volume and the percentages derived from
  them in \<open>float64\<close> arithmetic, and the two in-memory sources of
  \<^verbatim>\<open>internal/metrics/source/fake\<close>. Go's \<open>int\<close> has 64 bits.
\<close>

section \<open>Volume statistics\<close>

record VolumeInfo =
  AvailableBytes :: int
  CapacityBytes :: int
  AvailableInodes :: int
  CapacityInodes :: int

definition zero_VolumeInfo :: VolumeInfo where
  "zero_VolumeInfo = \<lparr>AvailableBytes = 0, CapacityBytes = 0, AvailableInodes = 0, CapacityInodes = 0\<rparr>"

type_synonym Metrics = "key \<rightharpoonup> VolumeInfo"

text \<open>\<^verbatim>\<open>int(float64(available) / float64(capacity) * 100.0)\<close>\<close>

definition free_percent :: "int \<Rightarrow> int \<Rightarrow> int" where
  "free_percent available capacity =
     to_int64 (float64 (float64 (of_int64 available / of_int64 capacity) * 100))"

definition FreeSpacePercentage :: "VolumeInfo \<Rightarrow> go_error + int" where
  "FreeSpacePercentage vi =
     (if CapacityBytes vi = 0 then Inl (Sentinel ErrCapacityIsZero)
      else Inr (free_percent (AvailableBytes vi) (CapacityBytes vi)))"

definition UsedSpacePercentage :: "VolumeInfo \<Rightarrow> go_error + int" where
  "UsedSpacePercentage vi =
     (case FreeSpacePercentage vi of Inl e \<Rightarrow> Inl e | Inr free \<Rightarrow> Inr (wrap64 (100 - free)))"

definition FreeInodesPercentage :: "VolumeInfo \<Rightarrow> go_error + int" where
  "FreeInodesPercentage vi =
     (if CapacityInodes vi = 0 then Inl (Sentinel ErrCapacityIsZero)
      else Inr (free_percent (AvailableInodes vi) (CapacityInodes vi)))"

definition UsedInodesPercentage :: "VolumeInfo \<Rightarrow> go_error + int" where
  "UsedInodesPercentage vi =
     (case FreeInodesPercentage vi of Inl e \<Rightarrow> Inl e | Inr free \<Rightarrow> Inr (wrap64 (100 - free)))"

lemmas percentage_defs = FreeSpacePercentage_def UsedSpacePercentage_def FreeInodesPercentage_def
  UsedInodesPercentage_def

definition free_ratio :: "int \<Rightarrow> int \<Rightarrow> rat" where
  "free_ratio available capacity = float64 (float64 (of_int64 available / of_int64 capacity) * 100)"

lemma of_int64_mono: "a \<le> b \<Longrightarrow> of_int64 a \<le> of_int64 b"
  by (simp add: of_int64_def float64_mono)

lemma of_int64_nonneg: "0 \<le> a \<Longrightarrow> 0 \<le> of_int64 a"
  using of_int64_mono [of 0 a] by (simp add: of_int64_def)

lemma of_int64_pos: "0 < a \<Longrightarrow> 0 < of_int64 a"
  using of_int64_mono [of 1 a] f64.rnd_of_int [of 1] by (simp add: of_int64_def)

lemma free_ratio_mono:
  assumes "a \<le> b" "0 < c"
  shows "free_ratio a c \<le> free_ratio b c"
  using assms of_int64_pos [of c]
  by (auto simp: free_ratio_def intro!: float64_mono mult_right_mono divide_right_mono of_int64_mono)

lemma free_ratio_bounds:
  assumes "0 \<le> a" "a \<le> c" "0 < c"
  shows "0 \<le> free_ratio a c" "free_ratio a c \<le> 100"
proof -
  let ?q = "of_int64 a / of_int64 c"
  have "0 \<le> ?q" using assms by (simp add: of_int64_nonneg)
  then show "0 \<le> free_ratio a c" by (simp add: free_ratio_def float64_nonneg)
  have "?q \<le> of_int 1" using assms of_int64_mono [of a c] of_int64_pos [of c] by simp
  then have "float64 ?q \<le> of_int 1" by (rule f64.le_int) simp
  then have "float64 ?q * 100 \<le> of_int 100" by simp
  then show "free_ratio a c \<le> 100" unfolding free_ratio_def
    using f64.le_int [of "float64 ?q * 100" 100] by simp
qed

lemma free_percent_bounds:
  assumes "0 \<le> a" "a \<le> c" "0 < c"
  shows "free_percent a c = trunc (free_ratio a c)" "0 \<le> free_percent a c" "free_percent a c \<le> 100"
proof -
  have t: "0 \<le> trunc (free_ratio a c)" "trunc (free_ratio a c) \<le> 100"
    using free_ratio_bounds [OF assms] trunc_mono [of 0 "free_ratio a c"] trunc_mono [of "free_ratio a c" 100]
      trunc_of_int [of 0] trunc_of_int [of 100] by simp_all
  then have "int64 (trunc (free_ratio a c))" by (simp add: int64_def)
  then show "free_percent a c = trunc (free_ratio a c)"
    by (simp add: free_percent_def free_ratio_def to_int64_def)
  with t show "0 \<le> free_percent a c" "free_percent a c \<le> 100" by simp_all
qed

lemma wrap64_used: "0 \<le> f \<Longrightarrow> f \<le> 100 \<Longrightarrow> wrap64 (100 - f) = 100 - f"
  by (rule wrap64_id) (simp add: int64_def)

text \<open>
  C31: For every volume with a positive capacity and an available amount between 0 and the
  capacity, both used percentages are computed without error and lie between 0 and 100,
  whatever the 64-bit values are (the \<open>float64\<close> rounding cannot leave the range).
\<close>

theorem used_percentages_in_range:
  assumes "0 < CapacityBytes vi" "0 \<le> AvailableBytes vi" "AvailableBytes vi \<le> CapacityBytes vi"
    and "0 < CapacityInodes vi" "0 \<le> AvailableInodes vi" "AvailableInodes vi \<le> CapacityInodes vi"
  shows "\<exists>s i. UsedSpacePercentage vi = Inr s \<and> UsedInodesPercentage vi = Inr i \<and>
    0 \<le> s \<and> s \<le> 100 \<and> 0 \<le> i \<and> i \<le> 100"
  using assms free_percent_bounds [of "AvailableBytes vi" "CapacityBytes vi"]
    free_percent_bounds [of "AvailableInodes vi" "CapacityInodes vi"]
  by (simp add: percentage_defs wrap64_used)

theorem used_percentages_in_range_witness:
  "\<exists>s i. UsedSpacePercentage \<lparr>AvailableBytes = 30, CapacityBytes = 100, AvailableInodes = 5, CapacityInodes = 9\<rparr> = Inr s \<and>
     UsedInodesPercentage \<lparr>AvailableBytes = 30, CapacityBytes = 100, AvailableInodes = 5, CapacityInodes = 9\<rparr> = Inr i \<and>
     0 \<le> s \<and> s \<le> 100 \<and> 0 \<le> i \<and> i \<le> 100"
  using used_percentages_in_range
    [of "\<lparr>AvailableBytes = 30, CapacityBytes = 100, AvailableInodes = 5, CapacityInodes = 9\<rparr>"]
  by simp

text \<open>
  The used percentage never reports less than it should when the volume fills up: with the
  same capacity, less available space gives a used percentage at least as large.
\<close>

lemma used_space_antimono:
  assumes "0 < CapacityBytes vi" "0 \<le> AvailableBytes vi" "AvailableBytes vi \<le> CapacityBytes vi"
    and "0 \<le> a" "a \<le> AvailableBytes vi"
  shows "\<exists>s t. UsedSpacePercentage vi = Inr s \<and>
    UsedSpacePercentage (vi\<lparr>AvailableBytes := a\<rparr>) = Inr t \<and> s \<le> t"
proof -
  have "trunc (free_ratio a (CapacityBytes vi)) \<le> trunc (free_ratio (AvailableBytes vi) (CapacityBytes vi))"
    using assms by (intro trunc_mono free_ratio_mono) auto
  with assms free_percent_bounds [of "AvailableBytes vi" "CapacityBytes vi"]
    free_percent_bounds [of a "CapacityBytes vi"]
  show ?thesis by (simp add: percentage_defs wrap64_used)
qed

text \<open>
  C32: The threshold comparison the runner makes on the used percentage is the comparison of the
  computed free ratio: used exceeds \<open>t\<close> exactly when the free ratio is below \<open>100 - t\<close>
  (the truncation to an integer loses nothing for this decision).
\<close>

theorem used_exceeds_iff_free_below:
  assumes "0 < CapacityBytes vi" "0 \<le> AvailableBytes vi" "AvailableBytes vi \<le> CapacityBytes vi" "t \<le> 100"
    and "UsedSpacePercentage vi = Inr s"
  shows "s > t \<longleftrightarrow> free_ratio (AvailableBytes vi) (CapacityBytes vi) < of_int (100 - t)"
proof -
  let ?r = "free_ratio (AvailableBytes vi) (CapacityBytes vi)"
  note b = free_percent_bounds [OF assms(2,3,1)] and r = free_ratio_bounds [OF assms(2,3,1)]
  have "s = 100 - trunc ?r" using assms(1,5) b by (simp add: percentage_defs wrap64_used)
  then have "s > t \<longleftrightarrow> trunc ?r < 100 - t" by auto
  also have "\<dots> \<longleftrightarrow> ?r < of_int (100 - t)" using r by (simp add: trunc_def floor_less_iff)
  finally show ?thesis .
qed

theorem used_exceeds_iff_free_below_witness:
  "UsedSpacePercentage \<lparr>AvailableBytes = 29, CapacityBytes = 100, AvailableInodes = 5, CapacityInodes = 9\<rparr> = Inr 72 \<and>
   free_ratio 29 100 < 29"
proof -
  have u: "UsedSpacePercentage \<lparr>AvailableBytes = 29, CapacityBytes = 100, AvailableInodes = 5, CapacityInodes = 9\<rparr> = Inr 72"
    by code_simp
  show ?thesis using u used_exceeds_iff_free_below [OF _ _ _ _ u, of 71] by simp
qed

section \<open>The in-memory sources\<close>

definition AlwaysFailing_Get :: "go_error + Metrics" where
  "AlwaysFailing_Get = Inl (Sentinel ErrNoMetrics)"

record Item =
  it_NamespacedName :: key
  it_CapacityBytes :: int
  it_AvailableBytes :: int
  it_CapacityInodes :: int
  it_AvailableInodes :: int
  it_ConsumeBytesIncrement :: int
  it_ConsumeInodesIncrement :: int

definition consume :: "int \<Rightarrow> int \<Rightarrow> int" where
  "consume available increment = (let a = wrap64 (available - increment) in if a < 0 then 0 else a)"

definition Consume :: "Item \<Rightarrow> Item" where
  "Consume i =
     i\<lparr>it_AvailableBytes := consume (it_AvailableBytes i) (it_ConsumeBytesIncrement i),
       it_AvailableInodes := consume (it_AvailableInodes i) (it_ConsumeInodesIncrement i)\<rparr>"

text \<open>
  The source: its registry is a Go map, an association list with one entry per key in any
  order. Each operation below is one step; that the mutex justifies this is
  proved in \<open>Fake_Concurrency\<close>.
\<close>

type_synonym registry = "(key \<times> Item) list"

record Fake =
  fk_items :: registry
  fk_interval :: int

definition WithInterval :: "int \<Rightarrow> Fake \<Rightarrow> Fake" where
  "WithInterval i f = f\<lparr>fk_interval := i\<rparr>"

definition Fake_New :: "(Fake \<Rightarrow> Fake) list \<Rightarrow> Fake" where
  "Fake_New opts = fold (\<lambda>opt f. opt f) opts \<lparr>fk_items = [], fk_interval = 0\<rparr>"

definition Register :: "Item list \<Rightarrow> Fake \<Rightarrow> Fake" where
  "Register items f =
     f\<lparr>fk_items := fold (\<lambda>item m. AList.update (it_NamespacedName item) item m) items (fk_items f)\<rparr>"

definition consumeItems :: "Fake \<Rightarrow> Fake" where
  "consumeItems f = f\<lparr>fk_items := map (\<lambda>(k, i). (k, Consume i)) (fk_items f)\<rparr>"

definition Item_VolumeInfo :: "Item \<Rightarrow> VolumeInfo" where
  "Item_VolumeInfo i =
     \<lparr>AvailableBytes = it_AvailableBytes i, CapacityBytes = it_CapacityBytes i,
      AvailableInodes = it_AvailableInodes i, CapacityInodes = it_CapacityInodes i\<rparr>"

definition Fake_Get :: "Fake \<Rightarrow> go_error + Metrics" where
  "Fake_Get f =
     Inr (fold (\<lambda>(k, i) result. result(it_NamespacedName i \<mapsto> Item_VolumeInfo i)) (fk_items f) Map.empty)"

text \<open>
  \<open>Start\<close>: one \<open>consumeItems\<close> per tick until the context ends, here after the given number of
  ticks. \<^verbatim>\<open>time.NewTicker\<close> panics (\<open>None\<close>) for an interval that is not positive.
\<close>

definition consume_ticks :: "nat \<Rightarrow> Fake \<Rightarrow> Fake" where
  "consume_ticks ticks f = (consumeItems ^^ ticks) f"

definition Fake_Start :: "nat \<Rightarrow> Fake \<Rightarrow> Fake option" where
  "Fake_Start ticks f = (if fk_interval f \<le> 0 then None else Some (consume_ticks ticks f))"

text \<open>The invariant of the registry: one entry per key, stored under the name of the item.\<close>

definition registry_ok :: "registry \<Rightarrow> bool" where
  "registry_ok f \<longleftrightarrow> distinct (map fst f) \<and> (\<forall>(k, i) \<in> set f. it_NamespacedName i = k)"

lemma set_update_subset: "set (AList.update k v al) \<subseteq> insert (k, v) (set al)"
  by (induction al) auto

lemma registry_ok_update:
  assumes "registry_ok f"
  shows "registry_ok (AList.update (it_NamespacedName i) i f)"
  using assms set_update_subset [of "it_NamespacedName i" i f]
  by (auto simp: registry_ok_def distinct_update)

lemma registry_ok_updates:
  "registry_ok f \<Longrightarrow>
     registry_ok (fold (\<lambda>item m. AList.update (it_NamespacedName item) item m) items f)"
  by (induction items arbitrary: f) (simp_all add: registry_ok_update)

lemma Consume_name [simp]: "it_NamespacedName (Consume i) = it_NamespacedName i"
  by (simp add: Consume_def)

lemma Consume_pow_name [simp]: "it_NamespacedName ((Consume ^^ n) i) = it_NamespacedName i"
  by (induction n) auto

lemma consume_ticks_items:
  "fk_items (consume_ticks n f) = map (\<lambda>(k, i). (k, (Consume ^^ n) i)) (fk_items f)"
  by (induction n) (auto simp: consume_ticks_def consumeItems_def)

lemma registry_ok_consume:
  "registry_ok (fk_items f) \<Longrightarrow> registry_ok (fk_items (consume_ticks n f))"
  by (auto simp: registry_ok_def consume_ticks_items comp_def case_prod_beta)

lemma fold_upd_other:
  "k \<notin> (\<lambda>(k', i). it_NamespacedName i) ` set al \<Longrightarrow>
    fold (\<lambda>(k, i) m. m(it_NamespacedName i \<mapsto> Item_VolumeInfo i)) al r k = r k"
  by (induction al arbitrary: r) auto

lemma Fake_Get_map_of:
  assumes "registry_ok (fk_items f)"
  shows "Fake_Get f = Inr (\<lambda>k. map_option Item_VolumeInfo (map_of (fk_items f) k))"
proof -
  have "fold (\<lambda>(k, i) m. m(it_NamespacedName i \<mapsto> Item_VolumeInfo i)) al r k
      = (case map_of al k of Some i \<Rightarrow> Some (Item_VolumeInfo i) | None \<Rightarrow> r k)"
    if "registry_ok al" for al r k
    using that
  proof (induction al arbitrary: r)
    case (Cons x al)
    obtain l i where x: "x = (l, i)" by fastforce
    have names: "(\<lambda>(k', i). it_NamespacedName i) ` set al = fst ` set al"
      using Cons.prems by (intro image_cong) (auto simp: registry_ok_def)
    have ok: "registry_ok al" "it_NamespacedName i = l" "l \<notin> fst ` set al"
      using Cons.prems x by (auto simp: registry_ok_def image_iff)
    have "map_of al l = None" using ok(3) by (simp add: map_of_eq_None_iff)
    with ok show ?case using Cons.IH [OF ok(1)] x names
      by (auto split: option.split)
  qed simp
  from this [OF assms, of Map.empty] show ?thesis
    by (auto simp: Fake_Get_def fun_eq_iff split: option.split)
qed

lemma map_of_registered:
  "map_of (fold (\<lambda>item m. AList.update (it_NamespacedName item) item m) items al) k =
     (case find (\<lambda>i. it_NamespacedName i = k) (rev items) of Some i \<Rightarrow> Some i | None \<Rightarrow> map_of al k)"
proof (induction items rule: rev_induct)
  case (snoc i items)
  then show ?case by (auto simp: update_conv' split: option.split)
qed simp

lemma map_of_consumed:
  "map_of (map (\<lambda>(k, i). (k, (Consume ^^ n) i)) al) k = map_option (Consume ^^ n) (map_of al k)"
  by (induction al) auto

text \<open>The options of this package touch only the interval.\<close>

lemma Fake_New_items: "fk_items (Fake_New (map WithInterval is)) = []"
proof -
  have "fk_items (fold (\<lambda>opt f. opt f) (map WithInterval is) f) = fk_items f" for f
    by (induction "is" arbitrary: f) (auto simp: WithInterval_def)
  then show ?thesis by (simp add: Fake_New_def)
qed

lemma Fake_New_interval: "fk_interval (Fake_New (map WithInterval is)) = (if is = [] then 0 else last is)"
proof (induction "is" rule: rev_induct)
  case (snoc i js)
  then show ?case by (simp add: Fake_New_def WithInterval_def)
qed (simp add: Fake_New_def)

text \<open>
  The fake source round trip. Started with a positive interval, the last one configured,
  it does not panic, and after registering items and any number of ticks \<open>Get\<close> succeeds
  and reports for every name the item registered last under it, consumed once per tick, and
  nothing for other names; neither the order of the registry nor duplicates matter. Without an
  interval \<open>Start\<close> panics.
\<close>

lemma fake_source_roundtrip:
  "map_option Fake_Get (Fake_Start ticks (Register items (Fake_New (map WithInterval is)))) =
     (if is \<noteq> [] \<and> 0 < last is
      then Some (Inr (\<lambda>k. map_option (\<lambda>i. Item_VolumeInfo ((Consume ^^ ticks) i))
                (find (\<lambda>i. it_NamespacedName i = k) (rev items))))
      else None)"
proof -
  let ?f = "Register items (Fake_New (map WithInterval is))"
  have "registry_ok (fk_items ?f)"
    using registry_ok_updates [of "[]"] by (simp add: Register_def Fake_New_items registry_ok_def)
  then have "registry_ok (fk_items (consume_ticks ticks ?f))" by (rule registry_ok_consume)
  from Fake_Get_map_of [OF this] have "Fake_Get (consume_ticks ticks ?f) =
      Inr (\<lambda>k. map_option (\<lambda>i. Item_VolumeInfo ((Consume ^^ ticks) i)) (find (\<lambda>i. it_NamespacedName i = k) (rev items)))"
    by (simp add: consume_ticks_items map_of_consumed Register_def Fake_New_items map_of_registered
        option.map_comp comp_def fun_eq_iff split: option.split)
  moreover have "fk_interval ?f = (if is = [] then 0 else last is)" by (simp add: Register_def Fake_New_interval)
  ultimately show ?thesis by (auto simp: Fake_Start_def)
qed

end
