(* ===== verification/Autoscaler_Types.thy ===== *)
theory Autoscaler_Types
  imports Kube_Objects
begin

text \<open>
  The API types of \<^verbatim>\<open>api/autoscaling/v1alpha1\<close>: one record per struct of
  \<^verbatim>\<open>persistentvolumeclaimautoscaler_types.go\<close>, a pointer field as an option, and the field
  index functions of \<^verbatim>\<open>indexer.go\<close>. Durations are in nanoseconds, times in nanoseconds
  since some origin.
\<close>

record CrossVersionObjectReference =
  ref_kind :: string
  ref_name :: string
  ref_apiVersion :: string

record Match =
  match_name :: string

text \<open>\<open>VolumeResizeStrategy\<close> is a string type with these values.\<close>

definition PreferInPlaceVolumeResizeStrategy :: string where
  "PreferInPlaceVolumeResizeStrategy = ''PreferInPlace''"

definition InPlaceVolumeResizeStrategy :: string where
  "InPlaceVolumeResizeStrategy = ''InPlace''"

definition OffVolumeResizeStrategy :: string where
  "OffVolumeResizeStrategy = ''Off''"

record 'q ScalingRules =
  UtilizationThresholdPercent :: "int option"
  StepPercent :: "int option"
  MinStepAbsolute :: "'q option"
  CooldownDuration :: "int option"
  ResizeStrategy :: string

record 'q VolumePolicy =
  vp_match :: Match
  MaxCapacity :: 'q
  ScaleUp :: "'q ScalingRules option"

record 'q CurrentVolumeStatus =
  UsedSpacePercent :: "int option"
  UsedInodesPercent :: "int option"
  current_size :: "'q option"

record 'q TargetRecommendation =
  target_size :: "'q option"

record 'q VolumeRecommendation =
  vr_name :: string
  Current :: "'q CurrentVolumeStatus"
  Target :: "'q TargetRecommendation"
  LastResizeTime :: "int option"

record 'q PVCASpec =
  AutoscalerName :: string
  TargetRef :: CrossVersionObjectReference
  VolumePolicies :: "'q VolumePolicy list"

record 'q PVCAStatus =
  VolumeRecommendations :: "'q VolumeRecommendation list"
  Conditions :: "condition list"

record 'q pvca =
  pvca_namespace :: string
  pvca_name :: string
  Spec :: "'q PVCASpec"
  Status :: "'q PVCAStatus"

text \<open>The group and version of the types, and the objects registered under it when the program starts.\<close>

record scheme_builder =
  sb_GroupVersion :: "string \<times> string"
  sb_objects :: "string list"

definition GroupVersion :: "string \<times> string" where
  "GroupVersion = (''autoscaling.gardener.cloud'', ''v1alpha1'')"

definition SchemeBuilder :: scheme_builder where
  "SchemeBuilder = \<lparr>sb_GroupVersion = GroupVersion, sb_objects = []\<rparr>"

definition types_init :: "scheme_builder \<Rightarrow> scheme_builder" where
  "types_init b = b\<lparr>sb_objects := sb_objects b @ [''PersistentVolumeClaimAutoscaler'', ''PersistentVolumeClaimAutoscalerList'']\<rparr>"

definition ConditionTypeRecommendationAvailable :: string where
  "ConditionTypeRecommendationAvailable = ''RecommendationAvailable''"

definition ConditionTypeResizing :: string where
  "ConditionTypeResizing = ''Resizing''"

definition pvca_key :: "'q pvca \<Rightarrow> key" where
  "pvca_key a = (pvca_namespace a, pvca_name a)"

text \<open>The zero value \<^verbatim>\<open>VolumeRecommendation{Name: name}\<close>.\<close>

definition new_VolumeRecommendation :: "string \<Rightarrow> 'q VolumeRecommendation" where
  "new_VolumeRecommendation n =
     \<lparr>vr_name = n,
      Current = \<lparr>UsedSpacePercent = None, UsedInodesPercent = None, current_size = None\<rparr>,
      Target = \<lparr>target_size = None\<rparr>, LastResizeTime = None\<rparr>"

text \<open>\<^verbatim>\<open>client.Object\<close>: the dynamic types the program distinguishes.\<close>

datatype 'q object = PVCObject "'q pvc" | PVCAObject "'q pvca" | PodObject pod | OtherObject

section \<open>Field indexes\<close>

definition AutoscalerNameIndexKey :: string where
  "AutoscalerNameIndexKey = ''.spec.autoscalerName''"

definition VolumeRecommendationIndexKey :: string where
  "VolumeRecommendationIndexKey = ''.status.volumeRecommendations.name''"

definition AutoscalerNameIndexFunc :: "'q object \<Rightarrow> string list" where
  "AutoscalerNameIndexFunc obj = (case obj of PVCAObject a \<Rightarrow> [AutoscalerName (Spec a)] | _ \<Rightarrow> [])"

definition VolumeRecommendationIndexFunc :: "'q object \<Rightarrow> string list" where
  "VolumeRecommendationIndexFunc obj =
     (case obj of PVCAObject a \<Rightarrow> map vr_name (VolumeRecommendations (Status a)) | _ \<Rightarrow> [])"

text \<open>
  The indexes \<open>main\<close> registers, and what it means that an object matches a field selector
  of a \<open>List\<close> call: the registered function yields the requested value.
\<close>

definition index_func :: "string \<Rightarrow> ('q object \<Rightarrow> string list) option" where
  "index_func k =
     (if k = AutoscalerNameIndexKey then Some AutoscalerNameIndexFunc
      else if k = VolumeRecommendationIndexKey then Some VolumeRecommendationIndexFunc else None)"

definition matches_field :: "'q pvca \<Rightarrow> string \<times> string \<Rightarrow> bool" where
  "matches_field a f =
     (case index_func (fst f) of Some g \<Rightarrow> snd f \<in> set (g (PVCAObject a)) | None \<Rightarrow> False)"

lemma matches_autoscalerName:
  "matches_field a (AutoscalerNameIndexKey, n) \<longleftrightarrow> AutoscalerName (Spec a) = n"
  by (auto simp: matches_field_def index_func_def AutoscalerNameIndexFunc_def)

lemma matches_volumeRecommendation:
  "matches_field a (VolumeRecommendationIndexKey, n) \<longleftrightarrow>
     n \<in> vr_name ` set (VolumeRecommendations (Status a))"
  by (auto simp: matches_field_def index_func_def VolumeRecommendationIndexFunc_def
      AutoscalerNameIndexKey_def VolumeRecommendationIndexKey_def)

end
