(* ===== verification/Kube_Client.thy ===== *)
theory Kube_Client
  imports Autoscaler_Types "HOL-Library.State_Monad"
begin

text \<open>
  The cluster and the side effects. The Kubernetes API server and the
  \<^verbatim>\<open>controller-runtime\<close> client are not code of this repository: they are the record
  \<open>('q, 'w) client\<close> of operations on an abstract world \<open>'w\<close>, an argument of every
  definition that talks to the cluster. Every call, reads included, may change the world, so
  other controllers may interleave at each call. What a component does to its surroundings
  is also recorded as a list of \<open>effect\<close>s: the writes it requests from the API server, the
  events it emits and the Prometheus metrics it changes, in program order. Log lines are not
  modelled.

  A handler is a program in the state monad over \<open>rstate\<close> (the world and the effects so
  far). \<open>valid m E R\<close> is the contract used throughout: from every state, every effect the
  program adds satisfies \<open>E\<close> and its result satisfies \<open>R\<close>; its rules follow the program
  structure. A Go panic (a nil dereference, a write to a nil map) is the result \<open>None\<close>
  where the surrounding definition returns an option.
\<close>

named_theorems prog_rules \<open>rules of the contract calculus\<close>

datatype 'q effect =
    PatchPVC bool "'q pvc" "'q pvc"
  | PatchPVCAStatus "'q pvca" "'q pvca"
  | PatchPod pod pod
  | Evict pod
  | Eventf key string string string
  | CounterInc string "string list"
  | GaugeSet string "string list" int
  | GaugeReset string

record ('q, 'w) client =
  Get_PVC :: "key \<Rightarrow> 'w \<Rightarrow> (go_error + 'q pvc) \<times> 'w"
  Get_StorageClass :: "string \<Rightarrow> 'w \<Rightarrow> (go_error + storage_class) \<times> 'w"
  List_PVCAs :: "string option \<Rightarrow> (string \<times> string) list \<Rightarrow> 'w \<Rightarrow> (go_error + 'q pvca list) \<times> 'w"
  List_Pods :: "string \<Rightarrow> string option \<Rightarrow> 'w \<Rightarrow> (go_error + pod list) \<times> 'w"
  Patch_PVC :: "bool \<Rightarrow> 'q pvc \<Rightarrow> 'q pvc \<Rightarrow> 'w \<Rightarrow> (go_error + 'q pvc) \<times> 'w"
  Patch_PVCAStatus :: "'q pvca \<Rightarrow> 'q pvca \<Rightarrow> 'w \<Rightarrow> go_error option \<times> 'w"
  Patch_Pod :: "pod \<Rightarrow> pod \<Rightarrow> 'w \<Rightarrow> (go_error + pod) \<times> 'w"
  Create_Eviction :: "pod \<Rightarrow> 'w \<Rightarrow> go_error option \<times> 'w"
  Now :: "'w \<Rightarrow> int"

record ('q, 'w) rstate =
  world :: 'w
  effects :: "'q effect list"

type_synonym ('q, 'w, 'a) prog = "(('q, 'w) rstate, 'a) state"

abbreviation ret :: "'a \<Rightarrow> ('s, 'a) state" where "ret \<equiv> State_Monad.return"

definition api :: "('w \<Rightarrow> 'a \<times> 'w) \<Rightarrow> ('q, 'w, 'a) prog" where
  "api f = State (\<lambda>s. case f (world s) of (r, w) \<Rightarrow> (r, s\<lparr>world := w\<rparr>))"

definition emit :: "'q effect \<Rightarrow> ('q, 'w, unit) prog" where
  "emit e = State (\<lambda>s. ((), s\<lparr>effects := effects s @ [e]\<rparr>))"

definition now :: "('q, 'w) client \<Rightarrow> ('q, 'w, int) prog" where
  "now c = State (\<lambda>s. (Now c (world s), s))"

text \<open>The writes are recorded when they are requested.\<close>

definition patch_pvc :: "('q, 'w) client \<Rightarrow> bool \<Rightarrow> 'q pvc \<Rightarrow> 'q pvc \<Rightarrow> ('q, 'w, go_error + 'q pvc) prog" where
  "patch_pvc c lock old new = do { emit (PatchPVC lock old new); api (Patch_PVC c lock old new) }"

definition patch_pvca_status :: "('q, 'w) client \<Rightarrow> 'q pvca \<Rightarrow> 'q pvca \<Rightarrow> ('q, 'w, go_error option) prog" where
  "patch_pvca_status c old new = do { emit (PatchPVCAStatus old new); api (Patch_PVCAStatus c old new) }"

definition patch_pod :: "('q, 'w) client \<Rightarrow> pod \<Rightarrow> pod \<Rightarrow> ('q, 'w, go_error + pod) prog" where
  "patch_pod c old new = do { emit (PatchPod old new); api (Patch_Pod c old new) }"

definition create_eviction :: "('q, 'w) client \<Rightarrow> pod \<Rightarrow> ('q, 'w, go_error option) prog" where
  "create_eviction c p = do { emit (Evict p); api (Create_Eviction c p) }"

text \<open>A loop over a list with an accumulator, left early when the body panics.\<close>

fun foldM :: "('b \<Rightarrow> 'a \<Rightarrow> ('s, 'b option) state) \<Rightarrow> 'a list \<Rightarrow> 'b \<Rightarrow> ('s, 'b option) state" where
  "foldM f [] b = ret (Some b)"
| "foldM f (x # xs) b =
     do { r \<leftarrow> f b x; case r of None \<Rightarrow> ret None | Some b' \<Rightarrow> foldM f xs b' }"

lemma run_bind: "run_state (m \<bind> f) s = (case run_state m s of (a, s') \<Rightarrow> run_state (f a) s')"
  by (simp add: State_Monad.bind_def)

lemma run_api: "run_state (api f) s = (case f (world s) of (r, w) \<Rightarrow> (r, s\<lparr>world := w\<rparr>))"
  by (simp add: api_def)

lemma run_emit: "run_state (emit e) s = ((), s\<lparr>effects := effects s @ [e]\<rparr>)"
  by (simp add: emit_def)

lemma run_now: "run_state (now c) s = (Now c (world s), s)"
  by (simp add: now_def)

lemmas run_simps = run_bind run_api run_emit run_now State_Monad.run_state_return

section \<open>Contracts\<close>

definition valid :: "('q, 'w, 'a) prog \<Rightarrow> ('q effect \<Rightarrow> bool) \<Rightarrow> ('a \<Rightarrow> bool) \<Rightarrow> bool" where
  "valid m E R \<longleftrightarrow>
     (\<forall>s. R (fst (run_state m s)) \<and>
        (\<exists>es. effects (snd (run_state m s)) = effects s @ es \<and> list_all E es))"

lemma validD:
  assumes "valid m E R" "run_state m s = (r, s')"
  shows "R r" "\<exists>es. effects s' = effects s @ es \<and> list_all E es"
  using assms unfolding valid_def by (metis fst_conv, metis snd_conv)

lemma valid_effects:
  assumes "valid m E R" "run_state m s = (r, s')" "e \<in> set (effects s')"
  shows "e \<in> set (effects s) \<or> E e"
  using validD(2) [OF assms(1,2)] assms(3) by (auto simp: list_all_iff)

lemma valid_ret [prog_rules]: "R x \<Longrightarrow> valid (ret x) E R"
  by (simp add: valid_def)

lemma valid_bind [prog_rules]:
  assumes "valid m E R" "\<And>x. R x \<Longrightarrow> valid (f x) E Q"
  shows "valid (m \<bind> f) E Q"
  unfolding valid_def
proof
  fix s
  obtain x s1 where m: "run_state m s = (x, s1)" by fastforce
  obtain y s2 where f: "run_state (f x) s1 = (y, s2)" by fastforce
  from validD [OF assms(1) m] obtain es where "R x" and es: "effects s1 = effects s @ es" "list_all E es" by blast
  from validD [OF assms(2) [OF \<open>R x\<close>] f] obtain fs where "Q y" "effects s2 = effects s1 @ fs" "list_all E fs" by blast
  with es show "Q (fst (run_state (m \<bind> f) s)) \<and>
      (\<exists>es. effects (snd (run_state (m \<bind> f) s)) = effects s @ es \<and> list_all E es)"
    by (simp add: run_bind m f)
qed

lemma valid_api [prog_rules]: "(\<And>w. R (fst (f w))) \<Longrightarrow> valid (api f) E R"
  by (simp add: valid_def run_api split: prod.split) (metis fst_conv)

lemma valid_emit [prog_rules]: "E e \<Longrightarrow> R () \<Longrightarrow> valid (emit e) E R"
  by (simp add: valid_def run_emit)

lemma valid_now [prog_rules]: "(\<And>w. R (Now c w)) \<Longrightarrow> valid (now c) E R"
  by (simp add: valid_def run_now)

lemma valid_weaken:
  "valid m E R \<Longrightarrow> (\<And>e. E e \<Longrightarrow> E' e) \<Longrightarrow> (\<And>x. R x \<Longrightarrow> R' x) \<Longrightarrow> valid m E' R'"
  unfolding valid_def by (metis list.pred_mono_strong)

lemma valid_patch_pvc [prog_rules]:
  "E (PatchPVC l old new) \<Longrightarrow> (\<And>x. R x) \<Longrightarrow> valid (patch_pvc c l old new) E R"
  unfolding patch_pvc_def by (rule valid_bind [where R = top]) (auto intro: prog_rules)

lemma valid_patch_pvca_status [prog_rules]:
  "E (PatchPVCAStatus old new) \<Longrightarrow> (\<And>x. R x) \<Longrightarrow> valid (patch_pvca_status c old new) E R"
  unfolding patch_pvca_status_def by (rule valid_bind [where R = top]) (auto intro: prog_rules)

lemma valid_patch_pod [prog_rules]:
  "E (PatchPod old new) \<Longrightarrow> (\<And>x. R x) \<Longrightarrow> valid (patch_pod c old new) E R"
  unfolding patch_pod_def by (rule valid_bind [where R = top]) (auto intro: prog_rules)

lemma valid_create_eviction [prog_rules]:
  "E (Evict p) \<Longrightarrow> (\<And>x. R x) \<Longrightarrow> valid (create_eviction c p) E R"
  unfolding create_eviction_def by (rule valid_bind [where R = top]) (auto intro: prog_rules)

text \<open>A loop keeps an invariant of its accumulator.\<close>

lemma valid_foldM:
  assumes "\<And>b x. I b \<Longrightarrow> x \<in> set xs \<Longrightarrow> valid (f b x) E (pred_option I)"
    and "I b"
  shows "valid (foldM f xs b) E (pred_option I)"
  using assms
proof (induction xs arbitrary: b)
  case Nil
  then show ?case by (simp add: valid_ret)
next
  case (Cons x xs)
  have "valid (f b x) E (pred_option I)" using Cons.prems by simp
  then show ?case unfolding foldM.simps
  proof (rule valid_bind)
    fix r assume "pred_option I r"
    then show "valid (case r of None \<Rightarrow> ret None | Some b' \<Rightarrow> foldM f xs b') E (pred_option I)"
      using Cons.prems(1) by (cases r) (auto intro: valid_ret Cons.IH)
  qed
qed

text \<open>
  Rules for generating the verification conditions of a whole handler with \<open>intro\<close>: a
  sequence whose first part promises nothing of its result, and the case distinctions.
\<close>

named_theorems vcg \<open>rules that reduce the contract of a handler to conditions on its effects and result\<close>

lemma valid_seq [vcg]: "valid m E (\<lambda>_. True) \<Longrightarrow> (\<And>x. valid (f x) E Q) \<Longrightarrow> valid (m \<bind> f) E Q"
  by (rule valid_bind)

lemma valid_if [vcg]: "(b \<Longrightarrow> valid m E Q) \<Longrightarrow> (\<not> b \<Longrightarrow> valid n E Q) \<Longrightarrow> valid (if b then m else n) E Q"
  by simp

lemma valid_option [vcg]:
  "(x = None \<Longrightarrow> valid m E Q) \<Longrightarrow> (\<And>y. x = Some y \<Longrightarrow> valid (f y) E Q) \<Longrightarrow>
    valid (case x of None \<Rightarrow> m | Some y \<Rightarrow> f y) E Q"
  by (cases x) auto

lemma valid_sum [vcg]:
  "(\<And>e. x = Inl e \<Longrightarrow> valid (f e) E Q) \<Longrightarrow> (\<And>y. x = Inr y \<Longrightarrow> valid (g y) E Q) \<Longrightarrow>
    valid (case x of Inl e \<Rightarrow> f e | Inr y \<Rightarrow> g y) E Q"
  by (cases x) auto

lemma valid_prod [vcg]:
  "(\<And>a b. x = (a, b) \<Longrightarrow> valid (f a b) E Q) \<Longrightarrow> valid (case x of (a, b) \<Rightarrow> f a b) E Q"
  by (cases x) auto

lemma valid_let [vcg]: "(\<And>y. y = x \<Longrightarrow> valid (f y) E Q) \<Longrightarrow> valid (let y = x in f y) E Q"
  by simp

declare valid_ret [vcg] and valid_api [vcg] and valid_emit [vcg] and valid_now [vcg]
  and valid_patch_pvc [vcg] and valid_patch_pvca_status [vcg] and valid_patch_pod [vcg]
  and valid_create_eviction [vcg]

section \<open>Identity of objects\<close>

text \<open>
  Documented behaviour of the API server the program relies on: a \<open>Get\<close> answers with the
  object of the requested name, a \<open>Patch\<close> with the object that was patched.
\<close>

definition keeps_identity :: "('q, 'w) client \<Rightarrow> bool" where
  "keeps_identity c \<longleftrightarrow>
     (\<forall>k w p w'. Get_PVC c k w = (Inr p, w') \<longrightarrow> pvc_key p = k) \<and>
     (\<forall>l old new w p w'. Patch_PVC c l old new w = (Inr p, w') \<longrightarrow> pvc_key p = pvc_key new)"

lemma keeps_identityD:
  assumes "keeps_identity c"
  shows "Get_PVC c k w = (Inr p, w') \<Longrightarrow> pvc_key p = k"
    and "Patch_PVC c l old new w = (Inr p, w') \<Longrightarrow> pvc_key p = pvc_key new"
  using assms unfolding keeps_identity_def by blast+

lemma valid_get_pvc:
  assumes "keeps_identity c" "\<And>e. R (Inl e)" "\<And>p. pvc_key p = k \<Longrightarrow> R (Inr p)"
  shows "valid (api (Get_PVC c k)) E R"
proof (rule valid_api)
  fix w
  obtain r w' where "Get_PVC c k w = (r, w')" by fastforce
  then show "R (fst (Get_PVC c k w))"
    using assms(2,3) keeps_identityD(1) [OF assms(1)] by (cases r) auto
qed

lemma valid_patch_pvc_identity:
  assumes "keeps_identity c" "E (PatchPVC l old new)" "\<And>e. R (Inl e)" "\<And>p. pvc_key p = pvc_key new \<Longrightarrow> R (Inr p)"
  shows "valid (patch_pvc c l old new) E R"
  unfolding patch_pvc_def
proof (rule valid_seq)
  show "valid (api (Patch_PVC c l old new)) E R" for x :: unit
  proof (rule valid_api)
    fix w
    obtain r w' where "Patch_PVC c l old new w = (r, w')" by fastforce
    then show "R (fst (Patch_PVC c l old new w))"
      using assms(3,4) keeps_identityD(2) [OF assms(1)] by (cases r) auto
  qed
qed (simp add: valid_emit assms)

lemma valid_get_then:
  assumes "keeps_identity c" "\<And>e. valid (f (Inl e)) E Q" "\<And>p. pvc_key p = k \<Longrightarrow> valid (f (Inr p)) E Q"
  shows "valid (api (Get_PVC c k) \<bind> f) E Q"
  by (rule valid_bind [where R = "\<lambda>r. valid (f r) E Q"]) (rule valid_get_pvc; use assms in simp)

lemma valid_patch_then:
  assumes "keeps_identity c" "E (PatchPVC l old new)" "\<And>e. valid (f (Inl e)) E Q"
    and "\<And>p. pvc_key p = pvc_key new \<Longrightarrow> valid (f (Inr p)) E Q"
  shows "valid (patch_pvc c l old new \<bind> f) E Q"
  by (rule valid_bind [where R = "\<lambda>r. valid (f r) E Q"]) (rule valid_patch_pvc_identity; use assms in simp)

text \<open>A loop whose body never panics returns, and keeps the invariant.\<close>

lemma valid_foldM_total:
  assumes "\<And>b x. I b \<Longrightarrow> x \<in> set xs \<Longrightarrow> valid (f b x) E (\<lambda>r. \<exists>b'. r = Some b' \<and> I b')" "I b"
  shows "valid (foldM f xs b) E (\<lambda>r. \<exists>b'. r = Some b' \<and> I b')"
  using assms
proof (induction xs arbitrary: b)
  case (Cons x xs)
  show ?case unfolding foldM.simps
    by (rule valid_bind [OF Cons.prems(1) [OF Cons.prems(2)]]) (auto intro!: Cons.IH Cons.prems(1))
qed (simp add: valid_ret)

text \<open>Calls of programs with a contract, in the shape the verification conditions use.\<close>

lemma valid_call:
  "valid m E' R \<Longrightarrow> (\<And>e. E' e \<Longrightarrow> E e) \<Longrightarrow> (\<And>x. R x \<Longrightarrow> valid (f x) E Q) \<Longrightarrow> valid (m \<bind> f) E Q"
  by (rule valid_bind [OF valid_weaken])

end
