(* ===== verification/Go_PathMatch.thy ===== *)
theory Go_PathMatch
  imports Go_Prelude
begin

text \<open>
  \<^verbatim>\<open>path.Match\<close> of the Go standard library, which \<^verbatim>\<open>utils.GetVolumePolicy\<close> calls to
  match the name glob of a volume policy: \<open>scanChunk\<close>, \<open>getEsc\<close>, \<open>matchChunk\<close>, the
  search after a star and the final check that the rest of the pattern is well formed, with
  UTF-8 decoding (\<^verbatim>\<open>utf8.DecodeRuneInString\<close>). The reference semantics is \<open>glob\<close>, where a
  star matches any run of characters without a slash. \<open>path_Match_plain\<close> shows that on
  patterns of literal characters and stars, the patterns the admission webhook lets
  through, the backtracking-free search of the library decides \<open>glob\<close> and never
  returns an error.
\<close>

section \<open>UTF-8\<close>

definition byte :: "char \<Rightarrow> nat" where "byte c = of_char c"

definition cont :: "nat \<Rightarrow> nat \<Rightarrow> char \<Rightarrow> bool" where
  "cont lo hi c \<longleftrightarrow> lo \<le> byte c \<and> byte c \<le> hi"

definition RuneError :: nat where "RuneError = 65533"

text \<open>The code point at the front of a string and the number of bytes it takes.\<close>

definition DecodeRune :: "string \<Rightarrow> nat \<times> nat" where
  "DecodeRune s = (case s of [] \<Rightarrow> (RuneError, 0) | c # s1 \<Rightarrow>
     let b = byte c; bad = (RuneError, 1)
     in if b < 128 then (b, 1)
        else if b < 194 then bad
        else if b < 224 then
          (case s1 of c1 # _ \<Rightarrow>
             if cont 128 191 c1 then ((b - 192) * 64 + (byte c1 - 128), 2) else bad
           | [] \<Rightarrow> bad)
        else if b < 240 then
          (case s1 of c1 # c2 # _ \<Rightarrow>
             if cont (if b = 224 then 160 else 128) (if b = 237 then 159 else 191) c1 \<and> cont 128 191 c2
             then ((b - 224) * 4096 + (byte c1 - 128) * 64 + (byte c2 - 128), 3) else bad
           | _ \<Rightarrow> bad)
        else if b < 245 then
          (case s1 of c1 # c2 # c3 # _ \<Rightarrow>
             if cont (if b = 240 then 144 else 128) (if b = 244 then 143 else 191) c1
               \<and> cont 128 191 c2 \<and> cont 128 191 c3
             then ((b - 240) * 262144 + (byte c1 - 128) * 4096 + (byte c2 - 128) * 64
               + (byte c3 - 128), 4) else bad
           | _ \<Rightarrow> bad)
        else bad)"

lemma DecodeRune_pos: "s \<noteq> [] \<Longrightarrow> 0 < snd (DecodeRune s)"
  by (auto simp: DecodeRune_def Let_def split: list.split)

section \<open>The matcher\<close>

fun scan :: "bool \<Rightarrow> string \<Rightarrow> string \<times> string" where
  "scan inrange [] = ([], [])"
| "scan inrange (c # p) =
     (if c = CHR 0x5C then
        (case p of [] \<Rightarrow> ([c], [])
         | d # q \<Rightarrow> (let (a, b) = scan inrange q in (c # d # a, b)))
      else if c = CHR ''['' then (let (a, b) = scan True p in (c # a, b))
      else if c = CHR '']'' then (let (a, b) = scan False p in (c # a, b))
      else if c = CHR ''*'' \<and> \<not> inrange then ([], c # p)
      else (let (a, b) = scan inrange p in (c # a, b)))"

definition scanChunk :: "string \<Rightarrow> bool \<times> string \<times> string" where
  "scanChunk p =
     (let q = dropWhile ((=) (CHR ''*'')) p; (chunk, rest) = scan False q
      in (p \<noteq> [] \<and> hd p = CHR ''*'', chunk, rest))"

text \<open>A possibly escaped character of a class, and what follows it.\<close>

definition getEsc :: "string \<Rightarrow> go_error + nat \<times> string" where
  "getEsc chunk =
     (if chunk = [] \<or> hd chunk = CHR ''-'' \<or> hd chunk = CHR '']'' then Inl (Sentinel ErrBadPattern)
      else let c = (if hd chunk = CHR 0x5C then tl chunk else chunk)
        in if c = [] then Inl (Sentinel ErrBadPattern)
        else let (r, n) = DecodeRune c; rest = drop n c
          in if r = RuneError \<and> n = 1 \<or> rest = [] then Inl (Sentinel ErrBadPattern)
          else Inr (r, rest))"

lemma getEsc_shorter: "getEsc c = Inr (r, rest) \<Longrightarrow> length rest < length c"
proof -
  assume a: "getEsc c = Inr (r, rest)"
  define d where "d = (if hd c = CHR 0x5C then tl c else c)"
  have d: "d \<noteq> []" and c: "c \<noteq> []" and r: "rest = drop (snd (DecodeRune d)) d"
    using a by (auto simp: getEsc_def Let_def d_def split: if_splits prod.splits)
  have "length rest < length d" using DecodeRune_pos [OF d] d by (simp add: r)
  also have "\<dots> \<le> length c" by (simp add: d_def)
  finally show ?thesis .
qed

text \<open>The ranges of a character class: whether the character is in one, and what follows.\<close>

function ranges :: "nat \<Rightarrow> bool \<Rightarrow> nat \<Rightarrow> string \<Rightarrow> go_error + bool \<times> string" where
  "ranges r found nrange chunk =
     (if chunk \<noteq> [] \<and> hd chunk = CHR '']'' \<and> 0 < nrange then Inr (found, tl chunk)
      else case getEsc chunk of
        Inl e \<Rightarrow> Inl e
      | Inr (lo, c1) \<Rightarrow>
          if hd c1 = CHR ''-'' then
            (case getEsc (tl c1) of
               Inl e \<Rightarrow> Inl e
             | Inr (hi, c2) \<Rightarrow> ranges r (found \<or> lo \<le> r \<and> r \<le> hi) (Suc nrange) c2)
          else ranges r (found \<or> r = lo) (Suc nrange) c1)"
  by pat_completeness auto
termination
  by (relation "measure (\<lambda>(r, f, n, c). length c)")
    (auto dest!: getEsc_shorter simp: order_less_le_trans [OF _ diff_le_self])

declare ranges.simps [simp del]

lemma ranges_shorter: "ranges r f n c = Inr (b, rest) \<Longrightarrow> length rest \<le> length c"
proof (induction r f n c rule: ranges.induct)
  case (1 r f n c)
  let ?closed = "c \<noteq> [] \<and> hd c = CHR '']'' \<and> 0 < n"
  note unf = "1.prems" [unfolded ranges.simps [of r f n c]]
  show ?case
  proof (cases ?closed)
    case True
    with unf show ?thesis by auto
  next
    case False
    with unf obtain lo c1 where e1: "getEsc c = Inr (lo, c1)" by (auto split: sum.splits)
    note l1 = getEsc_shorter [OF e1]
    show ?thesis
    proof (cases "hd c1 = CHR ''-''")
      case True
      with unf False e1 obtain hi c2 where e2: "getEsc (tl c1) = Inr (hi, c2)"
        by (auto split: sum.splits)
      with unf False e1 True have "ranges r (f \<or> lo \<le> r \<and> r \<le> hi) (Suc n) c2 = Inr (b, rest)"
        by simp
      then have "length rest \<le> length c2"
        using "1.IH"(1) [OF False e1 refl True e2 refl] by blast
      with getEsc_shorter [OF e2] l1 show ?thesis by simp
    next
      case no: False
      with unf False e1 have "ranges r (f \<or> r = lo) (Suc n) c1 = Inr (b, rest)" by simp
      then have "length rest \<le> length c1" using "1.IH"(2) [OF False e1 refl no] by blast
      with l1 show ?thesis by simp
    qed
  qed
qed

text \<open>
  One chunk (a pattern without unescaped stars outside classes) against the front of a
  string: an error, no match, or the rest of the string.
\<close>

function match_loop :: "bool \<Rightarrow> string \<Rightarrow> string \<Rightarrow> go_error + string option" where
  "match_loop failed0 [] s = Inr (if failed0 then None else Some s)"
| "match_loop failed0 (c # chunk) s =
     (let failed = (failed0 \<or> s = [])
      in if c = CHR ''['' then
           (let r = (if failed then 0 else fst (DecodeRune s));
                s' = (if failed then s else drop (snd (DecodeRune s)) s);
                negated = (chunk \<noteq> [] \<and> hd chunk = CHR ''^'')
            in case ranges r False 0 (if negated then tl chunk else chunk) of
                 Inl e \<Rightarrow> Inl e
               | Inr (found, rest) \<Rightarrow> match_loop (failed \<or> found = negated) rest s')
         else if c = CHR ''?'' then
           (if failed then match_loop True chunk s
            else match_loop (hd s = CHR ''/'') chunk (drop (snd (DecodeRune s)) s))
         else if c = CHR 0x5C then
           (case chunk of [] \<Rightarrow> Inl (Sentinel ErrBadPattern)
            | d # chunk' \<Rightarrow>
                if failed then match_loop True chunk' s else match_loop (d \<noteq> hd s) chunk' (tl s))
         else if failed then match_loop True chunk s
         else match_loop (c \<noteq> hd s) chunk (tl s))"
  by pat_completeness auto
termination
  by (relation "measure (\<lambda>(f, c, s). length c)")
    (auto dest!: ranges_shorter simp: less_Suc_eq_le intro: order_trans [OF _ diff_le_self] split: if_splits)

definition matchChunk :: "string \<Rightarrow> string \<Rightarrow> go_error + string option" where
  "matchChunk chunk s = match_loop False chunk s"

text \<open>After a star: the chunk at every later position, up to the next slash.\<close>

fun star_search :: "string \<Rightarrow> bool \<Rightarrow> string \<Rightarrow> go_error + string option" where
  "star_search chunk final [] = Inr None"
| "star_search chunk final (c # s) =
     (if c = CHR ''/'' then Inr None
      else case matchChunk chunk s of
        Inl e \<Rightarrow> Inl e
      | Inr None \<Rightarrow> star_search chunk final s
      | Inr (Some t) \<Rightarrow> if final \<and> t \<noteq> [] then star_search chunk final s else Inr (Some t))"

lemma scan_length: "scan r p = (a, b) \<Longrightarrow> length p = length a + length b"
proof (induction r p arbitrary: a b rule: scan.induct)
  case (2 r c p)
  then show ?case by (fastforce split: if_splits list.splits prod.splits)
qed simp

lemma scanChunk_shorter:
  assumes "p \<noteq> []" "scanChunk p = (star, chunk, rest)"
  shows "length rest < length p"
proof -
  define q where "q = dropWhile ((=) (CHR ''*'')) p"
  have s: "scan False q = (chunk, rest)" using assms(2) by (auto simp: scanChunk_def Let_def q_def split: prod.splits)
  have l: "length rest \<le> length q" using scan_length [OF s] by simp
  show ?thesis
  proof (cases "hd p = CHR ''*''")
    case True
    with assms(1) have "length q < length p" unfolding q_def
      by (cases p) (auto simp: le_imp_less_Suc length_dropWhile_le)
    with l show ?thesis by simp
  next
    case False
    with assms(1) have "q = p" by (cases p) (auto simp: q_def)
    with assms(1) False s have "chunk \<noteq> []"
      by (cases p) (auto split: if_splits list.splits prod.splits)
    with scan_length [OF s] \<open>q = p\<close> show ?thesis by simp
  qed
qed

text \<open>Before reporting no match, the rest of the pattern is checked to be well formed.\<close>

function check_rest :: "string \<Rightarrow> go_error + bool" where
  "check_rest pattern =
     (if pattern = [] then Inr False
      else case scanChunk pattern of (star, chunk, rest) \<Rightarrow>
        case matchChunk chunk [] of Inl e \<Rightarrow> Inl e | Inr _ \<Rightarrow> check_rest rest)"
  by pat_completeness auto
termination
  by (relation "measure length") (auto dest: scanChunk_shorter [OF _ sym])

declare check_rest.simps [simp del]

function path_Match :: "string \<Rightarrow> string \<Rightarrow> go_error + bool" where
  "path_Match pattern name =
     (if pattern = [] then Inr (name = [])
      else case scanChunk pattern of (star, chunk, rest) \<Rightarrow>
        if star \<and> chunk = [] then Inr (CHR ''/'' \<notin> set name)
        else case matchChunk chunk name of
          Inl e \<Rightarrow> Inl e
        | Inr m \<Rightarrow>
            (case (case m of Some t \<Rightarrow> if t = [] \<or> rest \<noteq> [] then Some t else None | None \<Rightarrow> None) of
               Some t \<Rightarrow> path_Match rest t
             | None \<Rightarrow>
                 if star then
                   (case star_search chunk (rest = []) name of
                      Inl e \<Rightarrow> Inl e
                    | Inr (Some t) \<Rightarrow> path_Match rest t
                    | Inr None \<Rightarrow> check_rest rest)
                 else check_rest rest))"
  by pat_completeness auto
termination
  by (relation "measure (\<lambda>(p, n). length p)") (auto dest: scanChunk_shorter [OF _ sym])

declare path_Match.simps [simp del]

section \<open>The reference semantics of patterns of literals and stars\<close>

fun glob :: "string \<Rightarrow> string \<Rightarrow> bool" where
  "glob [] s \<longleftrightarrow> s = []"
| "glob (c # p) s \<longleftrightarrow>
     (if c = CHR ''*'' then
        glob p s \<or> (case s of [] \<Rightarrow> False | d # t \<Rightarrow> d \<noteq> CHR ''/'' \<and> glob (c # p) t)
      else (case s of [] \<Rightarrow> False | d # t \<Rightarrow> d = c \<and> glob p t))"

definition plain :: "char \<Rightarrow> bool" where
  "plain c \<longleftrightarrow> c \<notin> {CHR ''*'', CHR ''?'', CHR ''['', CHR 0x5C}"

abbreviation starred :: "char \<Rightarrow> bool" where
  "starred c \<equiv> plain c \<or> c = CHR ''*''"

abbreviation lit :: "string \<Rightarrow> string" where "lit \<equiv> takeWhile (\<lambda>c. c \<noteq> CHR ''*'')"
abbreviation unlit :: "string \<Rightarrow> string" where "unlit \<equiv> dropWhile (\<lambda>c. c \<noteq> CHR ''*'')"

lemma scan_plain: "list_all starred p \<Longrightarrow> scan False p = (lit p, unlit p)"
  by (induction p) (auto simp: plain_def)

lemma match_loop_plain:
  "list_all plain chunk \<Longrightarrow>
    match_loop failed chunk s =
      Inr (if \<not> failed \<and> prefix chunk s then Some (drop (length chunk) s) else None)"
proof (induction chunk arbitrary: failed s)
  case (Cons c chunk)
  then have c: "c \<noteq> CHR ''?''" "c \<noteq> CHR ''[''" "c \<noteq> CHR 0x5C" by (auto simp: plain_def)
  show ?case using Cons c by (cases s) auto
qed simp

lemma matchChunk_plain:
  "list_all plain chunk \<Longrightarrow>
    matchChunk chunk s = Inr (if prefix chunk s then Some (drop (length chunk) s) else None)"
  by (simp add: matchChunk_def match_loop_plain)

lemma glob_lit: "list_all plain a \<Longrightarrow> glob (a @ p) s \<longleftrightarrow> prefix a s \<and> glob p (drop (length a) s)"
proof (induction a arbitrary: s)
  case (Cons c a)
  then show ?case by (cases s) (auto simp: plain_def)
qed simp

lemma glob_star_iff:
  "glob (CHR ''*'' # p) s \<longleftrightarrow> (\<exists>a b. s = a @ b \<and> CHR ''/'' \<notin> set a \<and> glob p b)"
proof (induction s)
  case (Cons d s)
  show ?case
  proof
    assume "glob (CHR ''*'' # p) (d # s)"
    then consider "glob p (d # s)" | "d \<noteq> CHR ''/''" "glob (CHR ''*'' # p) s" by (auto split: if_splits)
    then show "\<exists>a b. d # s = a @ b \<and> CHR ''/'' \<notin> set a \<and> glob p b"
    proof cases
      case 1 then show ?thesis by (intro exI [of _ "[]"] exI [of _ "d # s"]) simp
    next
      case 2
      with Cons.IH obtain a b where "s = a @ b" "CHR ''/'' \<notin> set a" "glob p b" by blast
      with 2 show ?thesis by (intro exI [of _ "d # a"] exI [of _ b]) simp
    qed
  next
    assume "\<exists>a b. d # s = a @ b \<and> CHR ''/'' \<notin> set a \<and> glob p b"
    then obtain a b where ab: "d # s = a @ b" "CHR ''/'' \<notin> set a" "glob p b" by blast
    then show "glob (CHR ''*'' # p) (d # s)"
      using Cons.IH by (cases a) auto
  qed
qed simp

lemma glob_stars: "glob (dropWhile ((=) (CHR ''*'')) p) s \<Longrightarrow> glob p s"
  by (induction p) (auto split: if_splits)

lemma glob_star_star: "glob (CHR ''*'' # CHR ''*'' # p) s \<longleftrightarrow> glob (CHR ''*'' # p) s"
proof
  assume "glob (CHR ''*'' # CHR ''*'' # p) s"
  then obtain a b c d where "s = a @ c @ d" "CHR ''/'' \<notin> set a" "CHR ''/'' \<notin> set c" "glob p d"
    unfolding glob_star_iff [of "CHR ''*'' # p"] glob_star_iff [of p] by blast
  then show "glob (CHR ''*'' # p) s" unfolding glob_star_iff
    by (intro exI [of _ "a @ c"] exI [of _ d]) simp
qed simp

text \<open>A run of stars is one star.\<close>

lemma glob_skip_stars:
  "glob (CHR ''*'' # p) s \<longleftrightarrow> glob (CHR ''*'' # dropWhile ((=) (CHR ''*'')) p) s"
  by (induction p) (auto simp del: glob.simps simp: glob_star_star)

text \<open>
  The first position where a literal chunk matches after a star is as good as any later one
  if another star follows.
\<close>

lemma glob_earliest:
  assumes "a @ c @ t = a' @ c @ t'" "CHR ''/'' \<notin> set a" "CHR ''/'' \<notin> set a'" "length a \<le> length a'"
    and "glob (CHR ''*'' # r) t'"
  shows "glob (CHR ''*'' # r) t"
proof -
  have "a = take (length a) (a' @ c @ t')" unfolding assms(1) [symmetric] by simp
  also have "take (length a) (a' @ c @ t') = take (length a) a'" using assms(4) by simp
  finally have "a' = a @ drop (length a) a'" using append_take_drop_id [of "length a" a'] by simp
  then obtain x where x: "a' = a @ x" ..
  with assms(1) have ct: "c @ t = x @ c @ t'" by simp
  have "\<exists>y. t = y @ t' \<and> CHR ''/'' \<notin> set y"
  proof (cases "CHR ''/'' \<in> set c")
    case True
    let ?f = "takeWhile (\<lambda>d. d \<noteq> CHR ''/'')"
    have "?f (c @ t) = ?f c" 
      by (rule takeWhile_append1 [OF True]) simp
    moreover have "?f (x @ c @ t') = x @ ?f c"
      using True assms(3) x by (subst takeWhile_append2) (auto simp: takeWhile_append1 [of "CHR ''/''"])
    ultimately have "x = []" using ct by simp
    with ct show ?thesis by (intro exI [of _ "[]"]) simp
  next
    case False
    define y where "y = drop (length c) (x @ c)"
    have "t = drop (length c) (x @ c @ t')" using ct by (metis append_eq_conv_conj)
    then have "t = y @ t'" by (simp add: y_def)
    moreover have "set y \<subseteq> set (x @ c)" unfolding y_def by (rule set_drop_subset)
    ultimately show ?thesis using False assms(3) x by auto
  qed
  then obtain y where y: "t = y @ t'" "CHR ''/'' \<notin> set y" by blast
  from assms(5) obtain u v where "t' = u @ v" "CHR ''/'' \<notin> set u" "glob r v"
    unfolding glob_star_iff by blast
  with y show ?thesis unfolding glob_star_iff by (intro exI [of _ "y @ u"] exI [of _ v]) simp
qed

text \<open>What the search after a star finds: the first admissible position of the chunk.\<close>

definition hit :: "string \<Rightarrow> bool \<Rightarrow> string \<Rightarrow> string \<Rightarrow> string \<Rightarrow> bool" where
  "hit chunk final s a t \<longleftrightarrow> s = a @ chunk @ t \<and> CHR ''/'' \<notin> set a \<and> (final \<longrightarrow> t = [])"

lemma hit_Cons:
  "hit chunk final (c # s) a t \<longleftrightarrow>
    a = [] \<and> c # s = chunk @ t \<and> (final \<longrightarrow> t = []) \<or>
    (\<exists>b. a = c # b \<and> c \<noteq> CHR ''/'' \<and> hit chunk final s b t)"
  by (cases a) (auto simp: hit_def)

lemma hit_Nil_iff: "hit chunk final s [] t \<longleftrightarrow> prefix chunk s \<and> t = drop (length chunk) s \<and> (final \<longrightarrow> t = [])"
  by (auto simp: hit_def prefix_def)

definition searched :: "string \<Rightarrow> bool \<Rightarrow> string \<Rightarrow> string option \<Rightarrow> bool" where
  "searched chunk final s r \<longleftrightarrow>
     (case r of
        None \<Rightarrow> \<forall>a t. hit chunk final s a t \<longrightarrow> a = []
      | Some t \<Rightarrow> \<exists>a. a \<noteq> [] \<and> hit chunk final s a t \<and>
          (\<forall>a' t'. hit chunk final s a' t' \<longrightarrow> a' = [] \<or> length a \<le> length a'))"

lemma star_search_Cons_plain:
  assumes "list_all plain chunk" "c \<noteq> CHR ''/''"
  shows "star_search chunk final (c # s) =
    (if \<exists>t. hit chunk final s [] t then Inr (Some (drop (length chunk) s)) else star_search chunk final s)"
  using assms(2) by (auto simp: matchChunk_plain [OF assms(1)] hit_Nil_iff)

text \<open>The search goes on behind a character that is not a slash, unless the chunk matches right there.\<close>

lemma searched_found:
  assumes "c \<noteq> CHR ''/''" "hit chunk final s [] t"
  shows "searched chunk final (c # s) (Some t)"
  unfolding searched_def option.case
  by (rule exI [of _ "[c]"]) (use assms in \<open>auto simp: hit_Cons Suc_le_eq\<close>)

lemma searched_on:
  assumes "c \<noteq> CHR ''/''" "\<nexists>t. hit chunk final s [] t" "searched chunk final s r"
  shows "searched chunk final (c # s) r"
proof -
  have lift: "\<exists>b. a = c # b \<and> b \<noteq> [] \<and> hit chunk final s b t" if "hit chunk final (c # s) a t" "a \<noteq> []" for a t
    using assms(2) that by (auto simp: hit_Cons)
  show ?thesis
  proof (cases r)
    case None
    with lift assms(3) show ?thesis by (fastforce simp: searched_def)
  next
    case (Some t)
    with assms(3) obtain a where "a \<noteq> []" "hit chunk final s a t"
      and m: "\<And>a' t'. hit chunk final s a' t' \<Longrightarrow> a' = [] \<or> length a \<le> length a'" by (auto simp: searched_def)
    with assms(1) have "hit chunk final (c # s) (c # a) t" by (simp add: hit_Cons)
    moreover have "a' = [] \<or> length (c # a) \<le> length a'" if "hit chunk final (c # s) a' t'" for a' t'
      using lift [OF that] m by fastforce
    ultimately show ?thesis unfolding searched_def Some option.case by (intro exI [of _ "c # a"]) blast
  qed
qed

lemma star_search_plain:
  assumes "list_all plain chunk"
  shows "\<exists>r. star_search chunk final s = Inr r \<and> searched chunk final s r"
proof (induction s)
  case Nil
  show ?case by (simp add: hit_def searched_def)
next
  case (Cons c s)
  consider "c = CHR ''/''" | t where "c \<noteq> CHR ''/''" "hit chunk final s [] t" | "c \<noteq> CHR ''/''" "\<nexists>t. hit chunk final s [] t"
    by blast
  then show ?case
  proof cases
    case 1
    then show ?thesis by (simp add: hit_Cons searched_def)
  next
    case 2
    then have "t = drop (length chunk) s" by (simp add: hit_Nil_iff)
    with 2 searched_found [OF 2] show ?thesis by (auto simp: star_search_Cons_plain [OF assms 2(1)] simp del: star_search.simps)
  next
    case 3
    with Cons searched_on [OF 3] show ?thesis unfolding star_search_Cons_plain [OF assms 3(1)] by auto
  qed
qed

text \<open>What \<open>scanChunk\<close> returns for a pattern of literals and stars.\<close>

lemma scanChunk_starred:
  assumes "list_all starred p"
  obtains q where "q = dropWhile ((=) (CHR ''*'')) p"
    "scanChunk p = (p \<noteq> [] \<and> hd p = CHR ''*'', lit q, unlit q)"
    "list_all plain (lit q)" "list_all starred (unlit q)" "unlit q = [] \<or> hd (unlit q) = CHR ''*''"
proof -
  define q where "q = dropWhile ((=) (CHR ''*'')) p"
  have q: "list_all starred q" using assms by (auto simp: q_def list_all_iff dest: set_dropWhileD)
  show thesis
  proof (rule that [OF q_def])
    show "scanChunk p = (p \<noteq> [] \<and> hd p = CHR ''*'', lit q, unlit q)"
      using q by (simp add: scanChunk_def q_def [symmetric] scan_plain)
    show "list_all plain (lit q)" "list_all starred (unlit q)"
      using q by (auto simp: list_all_iff dest: set_takeWhileD set_dropWhileD)
    show "unlit q = [] \<or> hd (unlit q) = CHR ''*''"
      using hd_dropWhile [of "\<lambda>c. c \<noteq> CHR ''*''" q] by auto
  qed
qed

lemma check_rest_plain: "list_all starred p \<Longrightarrow> check_rest p = Inr False"
proof (induction p rule: check_rest.induct)
  case (1 p)
  obtain q where q: "scanChunk p = (p \<noteq> [] \<and> hd p = CHR ''*'', lit q, unlit q)" "list_all plain (lit q)" "list_all starred (unlit q)"
    by (rule scanChunk_starred [OF "1.prems"])
  show ?case using "1.IH" [OF _ q(1) [symmetric] refl] q(2,3)
    by (subst check_rest.simps) (simp add: q(1) matchChunk_plain)
qed

text \<open>Every admissible split of the name gives the same answer as the first one.\<close>

lemma glob_first_hit:
  assumes "list_all plain c" "rest = [] \<or> hd rest = CHR ''*''"
    and "hit c (rest = []) s a t" "\<And>a' t'. hit c (rest = []) s a' t' \<Longrightarrow> length a \<le> length a'"
  shows "glob (CHR ''*'' # c @ rest) s \<longleftrightarrow> glob rest t"
proof
  assume "glob rest t"
  with assms(1,3) show "glob (CHR ''*'' # c @ rest) s"
    unfolding glob_star_iff glob_lit [OF assms(1)]
    by (intro exI [of _ a] exI [of _ "c @ t"]) (simp add: hit_def)
next
  assume "glob (CHR ''*'' # c @ rest) s"
  then obtain a' b where ab: "s = a' @ b" "CHR ''/'' \<notin> set a'" "prefix c b" "glob rest (drop (length c) b)"
    unfolding glob_star_iff glob_lit [OF assms(1)] by blast
  define t' where "t' = drop (length c) b"
  have b: "b = c @ t'" using ab(3) by (auto simp: t'_def prefix_def)
  have h: "hit c (rest = []) s a' t'" using ab b by (auto simp: hit_def t'_def [symmetric])
  show "glob rest t"
  proof (cases "rest = []")
    case True
    with assms(3) show ?thesis by (simp add: hit_def)
  next
    case False
    with assms(2) obtain r where r: "rest = CHR ''*'' # r" by (cases rest) auto
    have "glob (CHR ''*'' # r) t"
      using assms(3) h assms(4) [OF h] ab(4)
      by (intro glob_earliest [of a c t a' t']) (auto simp: hit_def r t'_def [symmetric])
    then show ?thesis by (simp add: r)
  qed
qed

lemma glob_no_hit:
  assumes "list_all plain c" "\<And>a t. \<not> hit c (rest = []) s a t"
  shows "\<not> glob (CHR ''*'' # c @ rest) s"
proof
  assume "glob (CHR ''*'' # c @ rest) s"
  then obtain a b where ab: "s = a @ b" "CHR ''/'' \<notin> set a" "prefix c b" "glob rest (drop (length c) b)"
    unfolding glob_star_iff glob_lit [OF assms(1)] by blast
  then have "hit c (rest = []) s a (drop (length c) b)" by (auto simp: hit_def prefix_def)
  with assms(2) show False by blast
qed

text \<open>One round of the loop of \<open>path_Match\<close> after a star.\<close>

lemma star_round:
  assumes "list_all plain c" "rest = [] \<or> hd rest = CHR ''*''"
    and IH: "\<And>t. path_Match rest t = Inr (glob rest t)" and cr: "check_rest rest = Inr False"
  shows "(case matchChunk c s of Inl e \<Rightarrow> Inl e
     | Inr m \<Rightarrow>
         (case (case m of Some t \<Rightarrow> if t = [] \<or> rest \<noteq> [] then Some t else None | None \<Rightarrow> None) of
            Some t \<Rightarrow> path_Match rest t
          | None \<Rightarrow>
              (case star_search c (rest = []) s of
                 Inl e \<Rightarrow> Inl e
               | Inr (Some t) \<Rightarrow> path_Match rest t
               | Inr None \<Rightarrow> check_rest rest))) = Inr (glob (CHR ''*'' # c @ rest) s)"
proof (cases "\<exists>t. hit c (rest = []) s [] t")
  case True
  then obtain t where t: "hit c (rest = []) s [] t" by blast
  then have "glob (CHR ''*'' # c @ rest) s \<longleftrightarrow> glob rest t"
    using assms(1,2) by (intro glob_first_hit) auto
  moreover from t have "prefix c s" "drop (length c) s = t" "t = [] \<or> rest \<noteq> []"
    by (auto simp: hit_Nil_iff)
  ultimately show ?thesis by (simp add: matchChunk_plain [OF assms(1)] IH del: glob.simps drop_eq_Nil)
next
  case False
  then have m: "(case (if prefix c s then Some (drop (length c) s) else None) of
      Some t \<Rightarrow> if t = [] \<or> rest \<noteq> [] then Some t else None | None \<Rightarrow> None) = None"
    by (auto simp: hit_Nil_iff)
  obtain r where r: "star_search c (rest = []) s = Inr r" "searched c (rest = []) s r"
    using star_search_plain [OF assms(1)] by blast
  have "(case r of None \<Rightarrow> False | Some t \<Rightarrow> glob rest t) \<longleftrightarrow> glob (CHR ''*'' # c @ rest) s"
  proof (cases r)
    case None
    with r(2) False have "\<not> hit c (rest = []) s a t" for a t by (auto simp: searched_def)
    with glob_no_hit [OF assms(1) this] None show ?thesis by (simp del: glob.simps)
  next
    case (Some t)
    with r(2) obtain a where a: "hit c (rest = []) s a t"
      and l: "\<And>a' t'. hit c (rest = []) s a' t' \<Longrightarrow> a' = [] \<or> length a \<le> length a'" by (auto simp: searched_def)
    have "glob (CHR ''*'' # c @ rest) s \<longleftrightarrow> glob rest t"
      using assms(1,2) a l False by (intro glob_first_hit) blast+
    with Some show ?thesis by (simp del: glob.simps)
  qed
  then show ?thesis
    by (cases r) (simp_all add: matchChunk_plain [OF assms(1)] m r(1) IH cr del: glob.simps)
qed

text \<open>The first round, when the pattern starts with a star and when it starts with a literal.\<close>

lemma path_Match_star:
  assumes q: "q = dropWhile ((=) (CHR ''*'')) p" and sc: "scanChunk p = (True, lit q, unlit q)"
    and p: "p = CHR ''*'' # p1" and l: "list_all plain (lit q)" "unlit q = [] \<or> hd (unlit q) = CHR ''*''"
    and IH: "\<And>t. path_Match (unlit q) t = Inr (glob (unlit q) t)" and cr: "check_rest (unlit q) = Inr False"
  shows "path_Match p s = Inr (glob p s)"
proof (cases "lit q = []")
  case True
  have "q = []"
  proof (rule ccontr)
    assume "q \<noteq> []"
    with True have "hd q = CHR ''*''" by (cases q) (auto split: if_splits)
    then show False using hd_dropWhile [of "(=) (CHR ''*'')" p] \<open>q \<noteq> []\<close> by (simp add: q)
  qed
  with q p glob_skip_stars [of p1 s] have "glob p s \<longleftrightarrow> CHR ''/'' \<notin> set s"
    by (auto simp: glob_star_iff simp del: glob.simps(2))
  moreover have "p \<noteq> []" by (simp add: p)
  ultimately show ?thesis using True by (subst path_Match.simps) (simp add: sc)
next
  case False
  have "glob p s \<longleftrightarrow> glob (CHR ''*'' # lit q @ unlit q) s"
    using glob_skip_stars [of p1 s] by (simp add: q p del: glob.simps)
  moreover have "p \<noteq> []" by (simp add: p)
  ultimately show ?thesis using star_round [OF l IH cr, of s] False
    by (subst path_Match.simps) (simp add: sc del: glob.simps append.simps takeWhile_dropWhile_id)
qed

lemma path_Match_literal:
  assumes "scanChunk p = (False, lit p, unlit p)" "p \<noteq> []" "list_all plain (lit p)"
    and "\<And>t. path_Match (unlit p) t = Inr (glob (unlit p) t)" "check_rest (unlit p) = Inr False"
  shows "path_Match p s = Inr (glob p s)"
proof -
  have "glob p s \<longleftrightarrow> prefix (lit p) s \<and> glob (unlit p) (drop (length (lit p)) s)"
    using glob_lit [OF assms(3), of "unlit p" s] by simp
  with assms(2,4,5) show ?thesis
    by (cases "unlit p = []"; subst path_Match.simps)
      (simp_all add: assms(1) matchChunk_plain [OF assms(3)] check_rest.simps [of "[]"] path_Match.simps [of "[]"]
        del: glob.simps(2) dropWhile_eq_Nil_conv)
qed

lemma path_Match_plain: "list_all starred p \<Longrightarrow> path_Match p s = Inr (glob p s)"
proof (induction "length p" arbitrary: p s rule: less_induct)
  case less
  obtain q where q: "q = dropWhile ((=) (CHR ''*'')) p" "scanChunk p = (p \<noteq> [] \<and> hd p = CHR ''*'', lit q, unlit q)"
    "list_all plain (lit q)" "list_all starred (unlit q)" "unlit q = [] \<or> hd (unlit q) = CHR ''*''"
    by (rule scanChunk_starred [OF less.prems])
  show ?case
  proof (cases p)
    case Nil then show ?thesis by (simp add: path_Match.simps)
  next
    case (Cons c p1)
    have IH: "path_Match (unlit q) t = Inr (glob (unlit q) t)" for t
      by (rule less.hyps [OF scanChunk_shorter [OF _ q(2)] q(4)]) (simp add: Cons)
    note cr = check_rest_plain [OF q(4)]
    show ?thesis
    proof (cases "c = CHR ''*''")
      case True
      with q Cons IH cr show ?thesis by (intro path_Match_star [of q p p1]) simp_all
    next
      case False
      then have "q = p" using q(1) Cons by simp
      show ?thesis
        by (rule path_Match_literal) (use q(2,3) IH cr False in \<open>simp_all add: \<open>q = p\<close> Cons\<close>)
    qed
  qed
qed

end
