(* ===== verification/Utils.thy ===== *)
theory Utils
  imports Kube_Client Go_PathMatch
begin

text \<open>
  \<^verbatim>\<open>internal/common\<close> and \<^verbatim>\<open>internal/utils\<close>: the shared constants, reading PVC
  conditions, selecting the volume policy of a PVC, scheduling gates, the offline-resize
  predicates and the lookup of the autoscaler that owns a PVC. The locale \<open>gate_set\<close> is
  the contract of the three scheduling-gate operations, which the offline-resize controller
  and the pod webhook rely on.
\<close>

section \<open>Constants\<close>

definition ScalingResolutionBytes :: int where
  "ScalingResolutionBytes = 1024 * 1024 * 1024"

lemma ScalingResolutionBytes_eq: "ScalingResolutionBytes = 2 ^ 30"
  by (simp add: ScalingResolutionBytes_def)

text \<open>The constant \<^verbatim>\<open>0.04\<close> as the double Go converts it to where it is used.\<close>

definition MaxCapacityDeviationRatio :: rat where
  "MaxCapacityDeviationRatio = 4 / 100"

definition AnnotationPreviousSize :: string where
  "AnnotationPreviousSize = ''pvc.autoscaling.gardener.cloud/prev-size''"

definition SchedulingGateOfflineResize :: string where
  "SchedulingGateOfflineResize = ''pvc.autoscaling.gardener.cloud/offline-resize''"

definition ScalingReasonSpaceThreshold :: string where
  "ScalingReasonSpaceThreshold = ''passing storage threshold''"

definition ScalingReasonInodesThreshold :: string where
  "ScalingReasonInodesThreshold = ''passing inodes threshold''"

section \<open>PVC conditions\<close>

definition ScaledDueToClause :: "string \<Rightarrow> string" where
  "ScaledDueToClause scalingReason =
     (if scalingReason = '''' then '''' else '' due to '' @ scalingReason)"

fun find_pvc_condition :: "pvc_condition list \<Rightarrow> string \<Rightarrow> pvc_condition" where
  "find_pvc_condition [] t = \<lparr>pc_type = '''', pc_status = '''', pc_message = ''''\<rparr>"
| "find_pvc_condition (c # cs) t = (if pc_type c = t then c else find_pvc_condition cs t)"

definition GetPersistentVolumeClaimCondition :: "'q pvc \<Rightarrow> string \<Rightarrow> pvc_condition" where
  "GetPersistentVolumeClaimCondition obj t = find_pvc_condition (pvc_conditions obj) t"

definition IsPersistentVolumeClaimConditionPresentAndEqual :: "'q pvc \<Rightarrow> string \<Rightarrow> string \<Rightarrow> bool" where
  "IsPersistentVolumeClaimConditionPresentAndEqual obj t st \<longleftrightarrow>
     pc_status (GetPersistentVolumeClaimCondition obj t) = st"

definition IsPersistentVolumeClaimConditionTrue :: "'q pvc \<Rightarrow> string \<Rightarrow> bool" where
  "IsPersistentVolumeClaimConditionTrue obj t \<longleftrightarrow>
     IsPersistentVolumeClaimConditionPresentAndEqual obj t ConditionTrue"

lemmas pvc_condition_defs = IsPersistentVolumeClaimConditionTrue_def
  IsPersistentVolumeClaimConditionPresentAndEqual_def GetPersistentVolumeClaimCondition_def

section \<open>The volume policy of a PVC\<close>

text \<open>The first argument renders the pattern in the error text (\<^verbatim>\<open>%q\<close>).\<close>

fun GetVolumePolicy :: "(string \<Rightarrow> string) \<Rightarrow> string \<Rightarrow> 'q VolumePolicy list \<Rightarrow> go_error + 'q VolumePolicy option" where
  "GetVolumePolicy quote pvcName [] = Inr None"
| "GetVolumePolicy quote pvcName (p # ps) =
     (case path_Match (match_name (vp_match p)) pvcName of
        Inl e \<Rightarrow> Inl (Wrapped (''invalid volume policy name '' @ quote (match_name (vp_match p))) e)
      | Inr matched \<Rightarrow> if matched then Inr (Some p) else GetVolumePolicy quote pvcName ps)"

lemma GetVolumePolicy_mem: "GetVolumePolicy quote n ps = Inr (Some p) \<Longrightarrow> p \<in> set ps"
  by (induction ps) (auto split: sum.splits if_splits)

text \<open>Where every pattern consists of literals and stars, the first glob that matches decides.\<close>

lemma GetVolumePolicy_plain:
  "list_all (\<lambda>p. list_all starred (match_name (vp_match p))) ps \<Longrightarrow>
    GetVolumePolicy quote n ps = Inr (find (\<lambda>p. glob (match_name (vp_match p)) n) ps)"
  by (induction ps) (simp_all add: path_Match_plain del: glob.simps)

section \<open>Scheduling gates\<close>

definition HasSchedulingGate :: "pod \<Rightarrow> string \<Rightarrow> bool" where
  "HasSchedulingGate p name \<longleftrightarrow> list_ex (\<lambda>g. g = name) (pod_schedulingGates p)"

definition AddSchedulingGate :: "pod \<Rightarrow> string \<Rightarrow> pod" where
  "AddSchedulingGate p name =
     (if HasSchedulingGate p name then p
      else p\<lparr>pod_schedulingGates := pod_schedulingGates p @ [name]\<rparr>)"

definition RemoveSchedulingGate :: "pod \<Rightarrow> string \<Rightarrow> pod" where
  "RemoveSchedulingGate p name =
     p\<lparr>pod_schedulingGates := filter (\<lambda>g. g \<noteq> name) (pod_schedulingGates p)\<rparr>"

locale gate_set =
  fixes has :: "'p \<Rightarrow> 'g \<Rightarrow> bool" and add :: "'p \<Rightarrow> 'g \<Rightarrow> 'p" and remove :: "'p \<Rightarrow> 'g \<Rightarrow> 'p"
  assumes has_add: "has (add p g) h \<longleftrightarrow> has p h \<or> g = h"
    and has_remove: "has (remove p g) h \<longleftrightarrow> has p h \<and> g \<noteq> h"
    and add_present: "has p g \<Longrightarrow> add p g = p"
    and remove_absent: "\<not> has p g \<Longrightarrow> remove p g = p"
    and remove_add: "\<not> has p g \<Longrightarrow> remove (add p g) g = p"
begin

lemma add_idem: "add (add p g) g = add p g"
  by (simp add: add_present has_add)

lemma remove_idem: "remove (remove p g) g = remove p g"
  by (simp add: remove_absent has_remove)

lemma gated_then_released: "has (add p g) g \<and> \<not> has (remove (add p g) g) g"
  by (simp add: has_add has_remove)

lemma other_gates_kept: "g \<noteq> h \<Longrightarrow> has (remove (add p g) g) h \<longleftrightarrow> has p h"
  by (simp add: has_add has_remove)

end

lemma RemoveSchedulingGate_absent: "\<not> HasSchedulingGate p g \<Longrightarrow> RemoveSchedulingGate p g = p"
  by (subst pod.equality)
    (auto simp: RemoveSchedulingGate_def HasSchedulingGate_def list_ex_iff intro!: filter_True)

interpretation gates: gate_set HasSchedulingGate AddSchedulingGate RemoveSchedulingGate
proof unfold_locales
  fix p :: pod and g h :: string
  show "HasSchedulingGate (AddSchedulingGate p g) h \<longleftrightarrow> HasSchedulingGate p h \<or> g = h"
    by (auto simp: HasSchedulingGate_def AddSchedulingGate_def list_ex_iff)
  show "HasSchedulingGate (RemoveSchedulingGate p g) h \<longleftrightarrow> HasSchedulingGate p h \<and> g \<noteq> h"
    by (auto simp: HasSchedulingGate_def RemoveSchedulingGate_def list_ex_iff)
  show "AddSchedulingGate p g = p" if "HasSchedulingGate p g"
    using that by (simp add: AddSchedulingGate_def)
  show "RemoveSchedulingGate p g = p" if "\<not> HasSchedulingGate p g"
    using that by (rule RemoveSchedulingGate_absent)
  show "RemoveSchedulingGate (AddSchedulingGate p g) g = p" if "\<not> HasSchedulingGate p g"
    using that RemoveSchedulingGate_absent [OF that]
    by (simp add: AddSchedulingGate_def RemoveSchedulingGate_def)
qed

lemma gate_ops_volumes [simp]:
  "pod_volumes (AddSchedulingGate p g) = pod_volumes p" "pod_volumes (RemoveSchedulingGate p g) = pod_volumes p"
  by (simp_all add: AddSchedulingGate_def RemoveSchedulingGate_def)

section \<open>Offline resize\<close>

definition offlineResizeRequiredErrorSubstrings :: "string list" where
  "offlineResizeRequiredErrorSubstrings =
     [''change in disk property of vm of size'',
      ''while it is attached to a running vm'',
      ''please stop your vm or detach the disk'']"

definition IsOfflineResizeRequired :: "'q pvc \<Rightarrow> bool" where
  "IsOfflineResizeRequired p \<longleftrightarrow>
     (let lowered = ToLower (pc_message (GetPersistentVolumeClaimCondition p PVCControllerResizeError))
      in list_ex (\<lambda>substring. Contains lowered substring) offlineResizeRequiredErrorSubstrings)"

definition IsOfflineResizeEnabled :: "'q pvca option \<Rightarrow> 'q VolumePolicy option \<Rightarrow> bool" where
  "IsOfflineResizeEnabled pvca policy \<longleftrightarrow>
     (case pvca of None \<Rightarrow> False | Some a \<Rightarrow>
        ref_kind (TargetRef (Spec a)) \<noteq> ''PersistentVolumeClaim'' \<and>
        (case policy of None \<Rightarrow> False | Some p \<Rightarrow>
           (case ScaleUp p of None \<Rightarrow> False | Some r \<Rightarrow>
              ResizeStrategy r = PreferInPlaceVolumeResizeStrategy)))"

section \<open>The owner of a PVC\<close>

definition FindOwningPVCAAndPolicy ::
  "('q, 'w) client \<Rightarrow> (string \<Rightarrow> string) \<Rightarrow> string \<Rightarrow> string \<Rightarrow> string \<Rightarrow>
    ('q, 'w, go_error + 'q pvca option \<times> 'q VolumePolicy option) prog" where
  "FindOwningPVCAAndPolicy c quote autoscalerName pvcName pvcNamespace = do {
     r \<leftarrow> api (List_PVCAs c (Some pvcNamespace)
            [(VolumeRecommendationIndexKey, pvcName), (AutoscalerNameIndexKey, autoscalerName)]);
     ret (case r of
       Inl e \<Rightarrow> Inl (Wrapped ''failed to list PersistentVolumeClaimAutoscalers'' e)
     | Inr [] \<Rightarrow> Inr (None, None)
     | Inr (pvca # _) \<Rightarrow>
         (case GetVolumePolicy quote pvcName (VolumePolicies (Spec pvca)) of
            Inl e \<Rightarrow> Inl e
          | Inr policy \<Rightarrow> Inr (Some pvca, policy)))
   }"

lemma valid_FindOwning [prog_rules]: "(\<And>x. R x) \<Longrightarrow> valid (FindOwningPVCAAndPolicy c quote n p ns) E R"
  unfolding FindOwningPVCAAndPolicy_def by (rule valid_bind [where R = top]) (auto intro: prog_rules)

text \<open>
  The notions both the offline-resize controller and the pod webhook decide with: a claim holds
  its pods back while its resize fails and no filesystem resize is pending, and offline resize
  is enabled for a claim by the first of the autoscalers listed for it.
\<close>

definition held :: "'q pvc \<Rightarrow> bool" where
  "held p \<longleftrightarrow> IsPersistentVolumeClaimConditionTrue p PVCControllerResizeError \<and>
     \<not> IsPersistentVolumeClaimConditionTrue p PVCFileSystemResizePending"

definition offline_enabled :: "(string \<Rightarrow> string) \<Rightarrow> string \<Rightarrow> 'q pvca list \<Rightarrow> bool" where
  "offline_enabled quote n pvcas =
     (case pvcas of
        [] \<Rightarrow> False
      | a # _ \<Rightarrow> (case GetVolumePolicy quote n (VolumePolicies (Spec a)) of
                    Inl _ \<Rightarrow> False | Inr policy \<Rightarrow> IsOfflineResizeEnabled (Some a) policy))"

definition owner_fields :: "string \<Rightarrow> string \<Rightarrow> (string \<times> string) list" where
  "owner_fields n autoscalerName = [(VolumeRecommendationIndexKey, n), (AutoscalerNameIndexKey, autoscalerName)]"

lemma run_FindOwning:
  "run_state (FindOwningPVCAAndPolicy c quote n pn ns) s =
     (case List_PVCAs c (Some ns) (owner_fields pn n) (world s) of (r, w) \<Rightarrow>
        (case r of
           Inl e \<Rightarrow> Inl (Wrapped ''failed to list PersistentVolumeClaimAutoscalers'' e)
         | Inr [] \<Rightarrow> Inr (None, None)
         | Inr (pvca # _) \<Rightarrow>
             (case GetVolumePolicy quote pn (VolumePolicies (Spec pvca)) of
                Inl e \<Rightarrow> Inl e | Inr policy \<Rightarrow> Inr (Some pvca, policy)), s\<lparr>world := w\<rparr>))"
  by (simp add: FindOwningPVCAAndPolicy_def owner_fields_def run_simps split: prod.split)

lemma IsOfflineResizeEnabled_policy:
  "IsOfflineResizeEnabled owner policy \<Longrightarrow> \<not> Option.is_none owner \<and> \<not> Option.is_none policy"
  by (auto simp: IsOfflineResizeEnabled_def Option.is_none_def split: option.splits)

end
