(* ===== verification/Sizes.thy ===== *)
theory Sizes
  imports Go_Float64 Utils
begin

text \<open>
  The arithmetic on volume sizes that the runner and the recovery from failed expansions
  share: rounding a \<open>float64\<close> byte count up to a multiple of the scaling resolution (1 GiB)
  in the way both write it, \<^verbatim>\<open>int64(math.Ceil(x / 1073741824)) * 1073741824\<close>, and the
  bounds of the roundings on sizes below \<^verbatim>\<open>2^63\<close>.
\<close>

definition round_up_gi :: "rat \<Rightarrow> int" where
  "round_up_gi x = wrap64 (to_int64 (of_int \<lceil>float64 (x / 1073741824)\<rceil>) * 1073741824)"

lemma float64_pow2: "float64 (2 ^ n) = 2 ^ n"
  using float64_representable [of 1 "int n"] by simp

lemma of_int64_error: "\<bar>n\<bar> \<le> 2 ^ 63 \<Longrightarrow> \<bar>of_int64 n - of_int n\<bar> \<le> 2 ^ 10"
proof -
  assume "\<bar>n\<bar> \<le> 2 ^ 63"
  then have "\<bar>of_int n\<bar> \<le> (2 ^ 63 :: rat)" by (metis of_int_abs of_int_le_iff of_int_numeral of_int_power)
  then have "\<bar>of_int n\<bar> / 2 ^ 53 \<le> (2 ^ 10 :: rat)" by (simp add: field_simps)
  then show ?thesis using float64_error [of "of_int n"] unfolding of_int64_def by linarith
qed

lemma of_int64_near: "0 \<le> n \<Longrightarrow> n \<le> 2 ^ 62 \<Longrightarrow> \<bar>of_int64 n - of_int n\<bar> \<le> 2 ^ 10"
  by (rule of_int64_error) simp

lemma of_int_abs_le: "0 \<le> n \<Longrightarrow> n \<le> 2 ^ 62 \<Longrightarrow> \<bar>of_int n\<bar> \<le> (2 ^ 62 :: rat)"
  by (metis abs_of_nonneg of_int_0_le_iff of_int_le_iff of_int_numeral of_int_power)

lemma of_int_le_power: "n \<le> 2 ^ k \<Longrightarrow> (of_int n :: rat) \<le> 2 ^ k"
  using of_int_le_iff [where 'a = rat, of n "2 ^ k"] by simp

lemma float64_upper: "0 \<le> x \<Longrightarrow> float64 x \<le> x * (1 + 1 / 2 ^ 53)"
  using abs_le_D1 [OF float64_error [of x]] by (simp add: field_simps)

lemma float64_lower: "0 \<le> x \<Longrightarrow> x * (1 - 1 / 2 ^ 53) \<le> float64 x"
  using abs_le_D2 [OF float64_error [of x]] by (simp add: field_simps)

text \<open>Rounding up reaches the next multiple and not further.\<close>

lemma round_up_gi_dvd: "2 ^ 30 dvd round_up_gi x"
  unfolding round_up_gi_def by (rule dvd_wrap64) simp

lemma round_up_gi_bounds:
  fixes y :: rat
  defines "x \<equiv> float64 y"
  assumes "- (2 ^ 62) \<le> x" "x \<le> 2 ^ 63 - 2 ^ 31"
  shows "x \<le> of_int (round_up_gi x)" "of_int (round_up_gi x) < x + 2 ^ 30"
proof -
  define k where "k = \<lceil>float64 (x / 1073741824)\<rceil>"
  have t: "x \<le> of_int (k * 2 ^ 30)" "of_int (k * 2 ^ 30) < x + 2 ^ 30"
    using f64.ceil_gi [of y] unfolding x_def k_def by simp_all
  have b: "- (2 ^ 63) \<le> k * 2 ^ 30 \<and> k * 2 ^ 30 < 2 ^ 63"
  proof -
    have "of_int (- (2 ^ 63)) \<le> (of_int (k * 2 ^ 30) :: rat)" using t assms(2) by simp
    moreover have "(of_int (k * 2 ^ 30) :: rat) < of_int (2 ^ 63)" using t assms(3) by simp
    ultimately show ?thesis by (simp only: of_int_le_iff of_int_less_iff)
  qed
  then have "int64 k" "int64 (k * 2 ^ 30)" by (auto simp: int64_def)
  then have "round_up_gi x = k * 2 ^ 30"
    unfolding round_up_gi_def k_def [symmetric] by (simp add: to_int64_of_int wrap64_id)
  with t show "x \<le> of_int (round_up_gi x)" "of_int (round_up_gi x) < x + 2 ^ 30" by simp_all
qed

lemma int64_round_up_gi: "int64 (round_up_gi x)"
  by (simp add: round_up_gi_def wrap64_int64)

text \<open>The amount of a quantity that fits: the sizes the theorems speak about.\<close>

definition size_ok :: "('q \<Rightarrow> rat) \<Rightarrow> 'q \<Rightarrow> bool" where
  "size_ok amount q \<longleftrightarrow> 0 \<le> amount q \<and> amount q \<le> 2 ^ 62"

lemma Value_size_ok:
  assumes "quantity_laws Q amount" "size_ok amount q"
  shows "Value Q q = \<lceil>amount q\<rceil>" "0 \<le> Value Q q" "Value Q q \<le> 2 ^ 62"
    "amount q \<le> of_int (Value Q q)" "of_int (Value Q q) < amount q + 1"
proof -
  show v: "Value Q q = \<lceil>amount q\<rceil>"
    using assms(2) by (intro quantity_lawsD(1) [OF assms(1)]) (auto simp: size_ok_def)
  show "0 \<le> Value Q q" "Value Q q \<le> 2 ^ 62" "amount q \<le> of_int (Value Q q)"
    "of_int (Value Q q) < amount q + 1"
    using assms(2) unfolding v by (auto simp: size_ok_def ceiling_le_iff zero_le_ceiling; linarith)+
qed

lemma Cmp_less_iff: "quantity_laws Q amount \<Longrightarrow> Cmp Q q r = - 1 \<longleftrightarrow> amount q < amount r"
  by (simp add: quantity_lawsD(2))

lemma Cmp_eq_iff: "quantity_laws Q amount \<Longrightarrow> Cmp Q q r = 0 \<longleftrightarrow> amount q = amount r"
  by (simp add: quantity_lawsD(2))

lemma Cmp_ge_iff: "quantity_laws Q amount \<Longrightarrow> 0 \<le> Cmp Q q r \<longleftrightarrow> amount r \<le> amount q"
  by (simp add: quantity_lawsD(2))

text \<open>Only the storage request of a claim changes.\<close>

definition with_request :: "'q pvc \<Rightarrow> (string \<rightharpoonup> 'q) \<Rightarrow> 'q \<Rightarrow> 'q pvc" where
  "with_request p m q = p\<lparr>pvc_requests := Some (m(ResourceStorage \<mapsto> q))\<rparr>"

lemma with_request_simps [simp]:
  "specSize Q (with_request p m q) = q" "statusSize Q (with_request p m q) = statusSize Q p"
  "pvc_key (with_request p m q) = pvc_key p" "pvc_name (with_request p m q) = pvc_name p"
  "pvc_annotations (with_request p m q) = pvc_annotations p"
  "pvc_namespace (with_request p m q) = pvc_namespace p"
  by (simp_all add: with_request_def specSize_def statusSize_def Storage_def pvc_key_def)

end
