(* ===== verification/Example_Cluster.thy ===== *)
theory Example_Cluster
  imports Kube_Client
begin

text \<open>
  A concrete API server for the examples: the objects of a cluster in lists, read and patched
  in memory, with a clock. It satisfies what the theorems assume of a client, so their
  hypotheses can be met. A label selector selects every pod of the namespace.
\<close>

record 'q cluster =
  cl_pvcs :: "'q pvc list"
  cl_classes :: "(string \<times> storage_class) list"
  cl_pvcas :: "'q pvca list"
  cl_pods :: "pod list"
  cl_clock :: int

definition not_found :: go_error where
  "not_found = ApiError ''NotFound'' ''not found''"

definition replace :: "('a \<Rightarrow> key) \<Rightarrow> 'a \<Rightarrow> 'a list \<Rightarrow> 'a list" where
  "replace k x xs = map (\<lambda>y. if k y = k x then x else y) xs"

definition memory_client :: "('q, 'q cluster) client" where
  "memory_client = \<lparr>
     Get_PVC = (\<lambda>k w. (case find (\<lambda>p. pvc_key p = k) (cl_pvcs w) of Some p \<Rightarrow> Inr p | None \<Rightarrow> Inl not_found, w)),
     Get_StorageClass = (\<lambda>n w. (case map_of (cl_classes w) n of Some s \<Rightarrow> Inr s | None \<Rightarrow> Inl not_found, w)),
     List_PVCAs = (\<lambda>ns fs w. (Inr (filter (\<lambda>a. (case ns of None \<Rightarrow> True | Some n \<Rightarrow> pvca_namespace a = n) \<and>
        list_all (matches_field a) fs) (cl_pvcas w)), w)),
     List_Pods = (\<lambda>ns sel w. (Inr (filter (\<lambda>p. pod_namespace p = ns) (cl_pods w)), w)),
     Patch_PVC = (\<lambda>lock old new w. if list_ex (\<lambda>p. pvc_key p = pvc_key new) (cl_pvcs w)
        then (Inr new, w\<lparr>cl_pvcs := replace pvc_key new (cl_pvcs w)\<rparr>) else (Inl not_found, w)),
     Patch_PVCAStatus = (\<lambda>old new w. if list_ex (\<lambda>p. pvca_key p = pvca_key new) (cl_pvcas w)
        then (None, w\<lparr>cl_pvcas := replace pvca_key new (cl_pvcas w)\<rparr>) else (Some not_found, w)),
     Patch_Pod = (\<lambda>old new w. if list_ex (\<lambda>p. pod_key p = pod_key new) (cl_pods w)
        then (Inr new, w\<lparr>cl_pods := replace pod_key new (cl_pods w)\<rparr>) else (Inl not_found, w)),
     Create_Eviction = (\<lambda>p w. if list_ex (\<lambda>q. pod_key q = pod_key p) (cl_pods w)
        then (None, w\<lparr>cl_pods := filter (\<lambda>q. pod_key q \<noteq> pod_key p) (cl_pods w)\<rparr>) else (Some not_found, w)),
     Now = cl_clock\<rparr>"

lemma memory_client_simps [simp]:
  "Get_PVC memory_client k w = (case find (\<lambda>p. pvc_key p = k) (cl_pvcs w) of Some p \<Rightarrow> Inr p | None \<Rightarrow> Inl not_found, w)"
  "Get_StorageClass memory_client n w = (case map_of (cl_classes w) n of Some s \<Rightarrow> Inr s | None \<Rightarrow> Inl not_found, w)"
  "List_PVCAs memory_client ns fs w =
     (Inr (filter (\<lambda>a. (case ns of None \<Rightarrow> True | Some n \<Rightarrow> pvca_namespace a = n) \<and>
        list_all (matches_field a) fs) (cl_pvcas w)), w)"
  "List_Pods memory_client n sel w = (Inr (filter (\<lambda>p. pod_namespace p = n) (cl_pods w)), w)"
  "Patch_PVC memory_client lock old new w = (if list_ex (\<lambda>p. pvc_key p = pvc_key new) (cl_pvcs w)
        then (Inr new, w\<lparr>cl_pvcs := replace pvc_key new (cl_pvcs w)\<rparr>) else (Inl not_found, w))"
  "Patch_PVCAStatus memory_client olda newa w = (if list_ex (\<lambda>p. pvca_key p = pvca_key newa) (cl_pvcas w)
        then (None, w\<lparr>cl_pvcas := replace pvca_key newa (cl_pvcas w)\<rparr>) else (Some not_found, w))"
  "Patch_Pod memory_client oldp newp w = (if list_ex (\<lambda>p. pod_key p = pod_key newp) (cl_pods w)
        then (Inr newp, w\<lparr>cl_pods := replace pod_key newp (cl_pods w)\<rparr>) else (Inl not_found, w))"
  "Create_Eviction memory_client pd w = (if list_ex (\<lambda>q. pod_key q = pod_key pd) (cl_pods w)
        then (None, w\<lparr>cl_pods := filter (\<lambda>q. pod_key q \<noteq> pod_key pd) (cl_pods w)\<rparr>) else (Some not_found, w))"
  "Now memory_client w = cl_clock w"
  by (simp_all add: memory_client_def)

lemma memory_client_identity: "keeps_identity memory_client"
  by (auto simp: keeps_identity_def find_Some_iff split: option.splits if_splits)

text \<open>A claim of 10 GiB capacity with a request of the given size, and a recommendation.\<close>

definition example_pvc :: "int \<Rightarrow> int pvc" where
  "example_pvc request =
     \<lparr>pvc_namespace = ''ns'', pvc_name = ''data'', pvc_annotations = Map.empty,
      pvc_requests = Some [ResourceStorage \<mapsto> request], pvc_storageClassName = Some ''default'',
      pvc_volumeMode = None, pvc_phase = ''Bound'', pvc_capacity = [ResourceStorage \<mapsto> 10 * 2 ^ 30],
      pvc_conditions = [], pvc_allocatedResourceStatuses = Map.empty\<rparr>"

definition example_cluster :: "int \<Rightarrow> int cluster" where
  "example_cluster request =
     \<lparr>cl_pvcs = [example_pvc request], cl_classes = [(''default'', \<lparr>sc_allowVolumeExpansion = Some True\<rparr>)],
      cl_pvcas = [], cl_pods = [], cl_clock = 0\<rparr>"

definition example_rules :: "string \<Rightarrow> int ScalingRules" where
  "example_rules strategy = \<lparr>UtilizationThresholdPercent = Some 80, StepPercent = Some 10,
     MinStepAbsolute = Some (2 ^ 30), CooldownDuration = None, ResizeStrategy = strategy\<rparr>"

definition example_policy :: "string \<Rightarrow> int \<Rightarrow> int VolumePolicy" where
  "example_policy n m = \<lparr>vp_match = \<lparr>match_name = n\<rparr>, MaxCapacity = m,
     ScaleUp = Some (example_rules PreferInPlaceVolumeResizeStrategy)\<rparr>"

definition start_state :: "'w \<Rightarrow> ('q, 'w) rstate" where
  "start_state w = \<lparr>world = w, effects = []\<rparr>"

lemma example_pvc_sel [simp]:
  "pvc_key (example_pvc r) = (''ns'', ''data'')" "pvc_namespace (example_pvc r) = ''ns''"
  "pvc_name (example_pvc r) = ''data''" "pvc_annotations (example_pvc r) = Map.empty"
  "pvc_requests (example_pvc r) = Some [ResourceStorage \<mapsto> r]"
  "pvc_storageClassName (example_pvc r) = Some ''default''" "pvc_volumeMode (example_pvc r) = None"
  "pvc_phase (example_pvc r) = ''Bound''" "pvc_conditions (example_pvc r) = []"
  "pvc_allocatedResourceStatuses (example_pvc r) = Map.empty"
  by (simp_all add: example_pvc_def pvc_key_def)

lemma example_sizes [simp]:
  "specSize byte_quantities (example_pvc request) = request"
  "statusSize byte_quantities (example_pvc request) = 10 * 2 ^ 30"
  by (simp_all add: example_pvc_def specSize_def statusSize_def Storage_def)

lemma example_policy_sel [simp]:
  "vp_match (example_policy n m) = \<lparr>match_name = n\<rparr>" "MaxCapacity (example_policy n m) = m"
  "ScaleUp (example_policy n m) = Some (example_rules PreferInPlaceVolumeResizeStrategy)"
  by (simp_all add: example_policy_def)

lemma example_rules_sel [simp]:
  "UtilizationThresholdPercent (example_rules st) = Some 80" "StepPercent (example_rules st) = Some 10"
  "MinStepAbsolute (example_rules st) = Some (2 ^ 30)" "CooldownDuration (example_rules st) = None"
  "ResizeStrategy (example_rules st) = st"
  by (simp_all add: example_rules_def)

end
