(* ===== verification/Recommendations.thy ===== *)
theory Recommendations
  imports Metrics_Source Sizes Example_Cluster
begin

text \<open>
  The volume recommendations in the status of an autoscaler
  (\<^verbatim>\<open>internal/periodic/periodic.go\<close>): a list keyed by the name of the claim, read with
  \<open>getOrCreateVolumeRecommendationForPVC\<close>, written with \<open>setVolumeRecommendationForPVC\<close>, and
  refreshed from the metrics by \<open>updateVolumeRecommendationForPVC\<close>, which refuses stale
  metrics. The locale \<open>keyed_store\<close> is the contract of the list.
\<close>

fun getOrCreateVolumeRecommendationForPVC ::
  "'q VolumeRecommendation list \<Rightarrow> string \<Rightarrow> 'q VolumeRecommendation" where
  "getOrCreateVolumeRecommendationForPVC [] pvcName = new_VolumeRecommendation pvcName"
| "getOrCreateVolumeRecommendationForPVC (r # rs) pvcName =
     (if vr_name r = pvcName then r else getOrCreateVolumeRecommendationForPVC rs pvcName)"

fun setVolumeRecommendationForPVC ::
  "'q VolumeRecommendation list \<Rightarrow> string \<Rightarrow> 'q VolumeRecommendation \<Rightarrow> 'q VolumeRecommendation list" where
  "setVolumeRecommendationForPVC [] pvcName vr = [vr]"
| "setVolumeRecommendationForPVC (r # rs) pvcName vr =
     (if vr_name r = pvcName then vr # rs else r # setVolumeRecommendationForPVC rs pvcName vr)"

section \<open>The contract of the store\<close>

locale keyed_store =
  fixes name :: "'r \<Rightarrow> 'k" and get :: "'r list \<Rightarrow> 'k \<Rightarrow> 'r" and put :: "'r list \<Rightarrow> 'k \<Rightarrow> 'r \<Rightarrow> 'r list"
  assumes name_get: "name (get rs k) = k"
    and get_put: "name r = k \<Longrightarrow> get (put rs k r) k = r"
    and get_put_other: "name r = k \<Longrightarrow> l \<noteq> k \<Longrightarrow> get (put rs k r) l = get rs l"
    and names_put: "name r = k \<Longrightarrow> name ` set (put rs k r) = insert k (name ` set rs)"
    and distinct_put: "name r = k \<Longrightarrow> distinct (map name rs) \<Longrightarrow> distinct (map name (put rs k r))"
    and put_members: "x \<in> set (put rs k r) \<Longrightarrow> x = r \<or> x \<in> set rs"
begin

lemma put_same_get: "name r = k \<Longrightarrow> name q = k \<Longrightarrow> get (put (put rs k r) k q) l = get (put rs k q) l"
  by (metis get_put get_put_other)

lemma put_commute_get:
  "name r = k \<Longrightarrow> name q = l \<Longrightarrow> k \<noteq> l \<Longrightarrow> get (put (put rs k r) l q) m = get (put (put rs l q) k r) m"
  by (metis get_put get_put_other)

lemma put_all_distinct:
  "distinct (map name rs) \<Longrightarrow> distinct (map name (fold (\<lambda>r rs. put rs (name r) r) qs rs))"
  by (induction qs arbitrary: rs) (simp_all add: distinct_put)

end

interpretation recs: keyed_store vr_name getOrCreateVolumeRecommendationForPVC setVolumeRecommendationForPVC
proof unfold_locales
  fix r x :: "'q VolumeRecommendation" and rs k l
  show "vr_name (getOrCreateVolumeRecommendationForPVC rs k :: 'q VolumeRecommendation) = k"
    by (induction rs) (auto simp: new_VolumeRecommendation_def)
  show "getOrCreateVolumeRecommendationForPVC (setVolumeRecommendationForPVC rs k r) k = r" if "vr_name r = k"
    using that by (induction rs) auto
  show "getOrCreateVolumeRecommendationForPVC (setVolumeRecommendationForPVC rs k r) l =
      getOrCreateVolumeRecommendationForPVC rs l" if "vr_name r = k" "l \<noteq> k"
    using that by (induction rs) auto
  show n: "vr_name ` set (setVolumeRecommendationForPVC rs k r) = insert k (vr_name ` set rs)" if "vr_name r = k"
    using that by (induction rs) auto
  show "distinct (map vr_name (setVolumeRecommendationForPVC rs k r))" if "vr_name r = k" "distinct (map vr_name rs)"
    using that(2)
  proof (induction rs)
    case (Cons q rs)
    have "vr_name ` set (setVolumeRecommendationForPVC rs k r) = insert k (vr_name ` set rs)"
      using that(1) by (induction rs) auto
    with Cons that(1) show ?case by auto
  qed simp
  show "x = r \<or> x \<in> set rs" if "x \<in> set (setVolumeRecommendationForPVC rs k r)"
    using that by (induction rs) (auto split: if_splits)
qed

section \<open>Refreshing a recommendation from the metrics\<close>

text \<open>The deviation of the reported capacity and the tolerance, as \<open>float64\<close>.\<close>

definition capacity_delta :: "int \<Rightarrow> int \<Rightarrow> rat" where
  "capacity_delta st capacity = \<bar>float64 (of_int64 st - of_int64 capacity)\<bar>"

definition capacity_tolerance :: "int \<Rightarrow> rat" where
  "capacity_tolerance st =
     max (float64 (float64 MaxCapacityDeviationRatio * of_int64 st)) (float64 (of_int64 ScalingResolutionBytes / 2))"

definition updateVolumeRecommendationForPVC ::
  "'q quantity_ops \<Rightarrow> 'q VolumeRecommendation list \<Rightarrow> 'q pvc \<Rightarrow> VolumeInfo option \<Rightarrow>
    go_error + 'q VolumeRecommendation" where
  "updateVolumeRecommendationForPVC Q volumeRecommendations p volInfo =
     (let vr = getOrCreateVolumeRecommendationForPVC volumeRecommendations (pvc_name p) in
      case volInfo of
        None \<Rightarrow> Inl (Sentinel ErrNoMetrics)
      | Some vi \<Rightarrow>
        (case UsedSpacePercentage vi of
           Inl err \<Rightarrow> Inl (Wrapped ''failed to get used space percentage'' err)
         | Inr usedSpace \<Rightarrow>
           (case UsedInodesPercentage vi of
              Inl err \<Rightarrow> Inl (Wrapped ''failed to get used inodes percentage'' err)
            | Inr usedInodes \<Rightarrow>
              (let currStatusSize = statusSize Q p;
                   vr' = vr\<lparr>Current := \<lparr>UsedSpacePercent = Some usedSpace, UsedInodesPercent = Some usedInodes,
                                        current_size = Some currStatusSize\<rparr>,
                            Target := (case target_size (Target vr) of
                                         None \<Rightarrow> \<lparr>target_size = Some (specSize Q p)\<rparr> | Some _ \<Rightarrow> Target vr)\<rparr>
               in case AsInt64 Q currStatusSize of
                    Some st \<Rightarrow>
                      if capacity_delta st (CapacityBytes vi) > capacity_tolerance st
                      then Inl (Wrapped (''stale metrics data detected: pvc size='' @ show_int st @
                             '' bytes, metrics size='' @ show_int (CapacityBytes vi) @ '' bytes'') (Sentinel ErrStaleMetrics))
                      else Inr vr'
                  | None \<Rightarrow> Inr vr'))))"

text \<open>What a successful refresh returns.\<close>

definition refreshed :: "'q quantity_ops \<Rightarrow> 'q VolumeRecommendation \<Rightarrow> 'q pvc \<Rightarrow> VolumeInfo \<Rightarrow> 'q VolumeRecommendation \<Rightarrow> bool" where
  "refreshed Q vr p vi vr' \<longleftrightarrow>
     vr_name vr' = vr_name vr \<and> LastResizeTime vr' = LastResizeTime vr \<and>
     UsedSpacePercentage vi = Inr (the (UsedSpacePercent (Current vr'))) \<and> UsedSpacePercent (Current vr') \<noteq> None \<and>
     UsedInodesPercentage vi = Inr (the (UsedInodesPercent (Current vr'))) \<and> UsedInodesPercent (Current vr') \<noteq> None \<and>
     current_size (Current vr') = Some (statusSize Q p) \<and>
     target_size (Target vr') = Some (case target_size (Target vr) of None \<Rightarrow> specSize Q p | Some q \<Rightarrow> q) \<and>
     (\<forall>st. AsInt64 Q (statusSize Q p) = Some st \<longrightarrow> capacity_delta st (CapacityBytes vi) \<le> capacity_tolerance st)"

lemma updateVolumeRecommendation_refreshed:
  assumes "updateVolumeRecommendationForPVC Q recs p volInfo = Inr vr'"
  shows "\<exists>vi. volInfo = Some vi \<and> refreshed Q (getOrCreateVolumeRecommendationForPVC recs (pvc_name p)) p vi vr'"
  using assms
  by (auto simp: updateVolumeRecommendationForPVC_def refreshed_def Let_def split: option.splits sum.splits if_splits)

lemma updateVolumeRecommendation_name:
  "updateVolumeRecommendationForPVC Q recs p volInfo = Inr vr' \<Longrightarrow> vr_name vr' = pvc_name p"
  by (drule updateVolumeRecommendation_refreshed) (auto simp: refreshed_def recs.name_get)

text \<open>The \<open>float64\<close> computation of the deviation is exact up to a few kilobytes.\<close>

lemma capacity_delta_error:
  assumes "0 \<le> st" "st \<le> 2 ^ 62" "0 \<le> capacity" "capacity \<le> 2 ^ 62"
  shows "\<bar>of_int (st - capacity)\<bar> \<le> capacity_delta st capacity + 2 ^ 12"
proof -
  define x where "x = of_int64 st - of_int64 capacity"
  have e: "\<bar>of_int64 st - of_int st\<bar> \<le> 2 ^ 10" "\<bar>of_int64 capacity - of_int capacity\<bar> \<le> 2 ^ 10"
    using assms of_int64_near by blast+
  have "\<bar>of_int st\<bar> \<le> (2 ^ 62 :: rat)" "\<bar>of_int capacity\<bar> \<le> (2 ^ 62 :: rat)" using assms of_int_abs_le by blast+
  then have "\<bar>x\<bar> \<le> 2 ^ 63 + 2 ^ 11" using e unfolding x_def by (simp add: abs_le_iff)
  then have "\<bar>float64 x - x\<bar> \<le> 2 ^ 11" using float64_error [of x] by (simp add: field_simps)
  then show ?thesis using e unfolding capacity_delta_def x_def [symmetric] by (simp add: x_def abs_if split: if_splits)
qed

lemma capacity_tolerance_error:
  assumes "0 \<le> st" "st \<le> 2 ^ 62"
  shows "capacity_tolerance st \<le> max (of_int st / 25) (2 ^ 29) + 2 ^ 12"
proof -
  have e: "\<bar>of_int64 st - of_int st\<bar> \<le> 2 ^ 10" using assms of_int64_near by blast
  have st: "0 \<le> of_int64 st" "of_int64 st \<le> 2 ^ 62 + 2 ^ 10"
    using of_int_abs_le [OF assms] assms e of_int64_nonneg [of st] by (auto simp: abs_le_iff)
  have r: "float64 MaxCapacityDeviationRatio \<le> 4 / 100 * (1 + 1 / 2 ^ 53)"
    using float64_upper [of "4 / 100"] by (simp add: MaxCapacityDeviationRatio_def)
  define y where "y = float64 MaxCapacityDeviationRatio * of_int64 st"
  have y: "y \<le> 4 / 100 * (1 + 1 / 2 ^ 53) * of_int64 st" unfolding y_def using r st by (intro mult_right_mono)
  have y0: "0 \<le> y" unfolding y_def using st by (simp add: float64_nonneg MaxCapacityDeviationRatio_def)
  have "float64 y \<le> y * (1 + 1 / 2 ^ 53)" by (rule float64_upper [OF y0])
  also have "\<dots> \<le> 4 / 100 * (1 + 1 / 2 ^ 53) * of_int64 st * (1 + 1 / 2 ^ 53)" using y by (intro mult_right_mono) simp_all
  also have "\<dots> \<le> of_int64 st / 25 + 2 ^ 10" using st by (simp add: field_simps)
  also have "\<dots> \<le> of_int st / 25 + 2 ^ 12" using e by (simp add: abs_le_iff)
  finally have "float64 y \<le> of_int st / 25 + 2 ^ 12" .
  moreover have "float64 (of_int64 ScalingResolutionBytes / 2) = 2 ^ 29"
    using float64_pow2 [of 30] float64_pow2 [of 29] by (simp add: of_int64_def ScalingResolutionBytes_def)
  ultimately show ?thesis unfolding capacity_tolerance_def y_def [symmetric] by auto
qed

text \<open>
  C27: Stale metrics are refused: when a recommendation is refreshed, the capacity the metrics
  report differs from the capacity in the status of the claim by at most 4 percent of it or half
  a GiB, whichever is larger (up to 8 KiB of \<open>float64\<close> rounding, for sizes up to \<^verbatim>\<open>2^62\<close>), and
  the recommendation carries the percentages computed from these metrics.
\<close>

theorem refreshed_metrics_not_stale:
  assumes "updateVolumeRecommendationForPVC Q recs p (Some vi) = Inr vr" "AsInt64 Q (statusSize Q p) = Some st"
    and "0 \<le> st" "st \<le> 2 ^ 62" "0 \<le> CapacityBytes vi" "CapacityBytes vi \<le> 2 ^ 62"
  shows "\<bar>of_int (st - CapacityBytes vi)\<bar> \<le> max (of_int st / 25) (2 ^ 29) + (2 ^ 13 :: rat) \<and>
    UsedSpacePercentage vi = Inr (the (UsedSpacePercent (Current vr))) \<and>
    UsedInodesPercentage vi = Inr (the (UsedInodesPercent (Current vr))) \<and>
    current_size (Current vr) = Some (statusSize Q p) \<and> target_size (Target vr) \<noteq> None"
proof -
  from updateVolumeRecommendation_refreshed [OF assms(1)]
  have r: "refreshed Q (getOrCreateVolumeRecommendationForPVC recs (pvc_name p)) p vi vr" by simp
  then have "capacity_delta st (CapacityBytes vi) \<le> capacity_tolerance st" using assms(2) by (simp add: refreshed_def)
  with capacity_delta_error [OF assms(3-6)] capacity_tolerance_error [OF assms(3,4)]
  have "\<bar>of_int (st - CapacityBytes vi)\<bar> \<le> max (of_int st / 25) (2 ^ 29) + (2 ^ 13 :: rat)" by simp
  with r show ?thesis by (simp add: refreshed_def)
qed

theorem refreshed_metrics_not_stale_witness:
  "\<exists>vr. updateVolumeRecommendationForPVC byte_quantities [] (example_pvc (10 * 2 ^ 30))
       (Some \<lparr>AvailableBytes = 2 ^ 30, CapacityBytes = 10 * 2 ^ 30, AvailableInodes = 5, CapacityInodes = 10\<rparr>) = Inr vr \<and>
     target_size (Target vr) \<noteq> None"
proof -
  let ?vi = "\<lparr>AvailableBytes = 2 ^ 30, CapacityBytes = 10 * 2 ^ 30, AvailableInodes = 5, CapacityInodes = 10\<rparr> :: VolumeInfo"
  have u: "UsedSpacePercentage ?vi = Inr 90" "UsedInodesPercentage ?vi = Inr 50" by code_simp+
  have "\<not> capacity_delta (10 * 2 ^ 30) (10 * 2 ^ 30) > capacity_tolerance (10 * 2 ^ 30)" by code_simp
  then obtain vr where vr: "updateVolumeRecommendationForPVC byte_quantities [] (example_pvc (10 * 2 ^ 30)) (Some ?vi) = Inr vr"
    using u by (simp add: updateVolumeRecommendationForPVC_def Let_def)
  show ?thesis
    using refreshed_metrics_not_stale [OF vr, of "10 * 2 ^ 30"] vr by simp
qed

end
