(* ===== verification/Metrics.thy ===== *)
theory Metrics
  imports Kube_Client
begin

text \<open>
  \<^verbatim>\<open>internal/metrics\<close>: the Prometheus metrics the autoscaler maintains, by their fully
  qualified name and with the number of labels each was declared with. \<open>well_labelled\<close> says
  that an update passes as many label values as the metric has labels: \<^verbatim>\<open>WithLabelValues\<close>
  panics otherwise.
\<close>

definition Namespace :: string where "Namespace = ''pvc_autoscaler''"

definition ResizedTotal :: string where
  "ResizedTotal = Namespace @ ''_resized_total''"

definition ThresholdReachedTotal :: string where
  "ThresholdReachedTotal = Namespace @ ''_threshold_reached_total''"

definition MaxCapacityReachedTotal :: string where
  "MaxCapacityReachedTotal = Namespace @ ''_max_capacity_reached_total''"

definition PVCAtMaxCapacity :: string where
  "PVCAtMaxCapacity = Namespace @ ''_pvc_at_max_capacity''"

definition SkippedTotal :: string where
  "SkippedTotal = Namespace @ ''_skipped_total''"

definition ResizeFailureRecoveryTotal :: string where
  "ResizeFailureRecoveryTotal = Namespace @ ''_resize_failure_recovery_total''"

lemmas metric_defs = Namespace_def ResizedTotal_def ThresholdReachedTotal_def MaxCapacityReachedTotal_def
  PVCAtMaxCapacity_def SkippedTotal_def ResizeFailureRecoveryTotal_def

text \<open>The labels of the registered metrics.\<close>

definition metric_labels :: "string \<rightharpoonup> string list" where
  "metric_labels = map_of
     [(ResizedTotal, [''namespace'', ''persistentvolumeclaim'']),
      (ThresholdReachedTotal, [''namespace'', ''persistentvolumeclaim'', ''reason'']),
      (SkippedTotal, [''namespace'', ''persistentvolumeclaim'', ''reason'']),
      (MaxCapacityReachedTotal, [''namespace'', ''persistentvolumeclaim'']),
      (PVCAtMaxCapacity, [''namespace'', ''persistentvolumeclaim'', ''persistentvolumeclaimautoscaler'']),
      (ResizeFailureRecoveryTotal, [''namespace'', ''persistentvolumeclaim''])]"

text \<open>
  At start all of them are registered with the registry of \<^verbatim>\<open>controller-runtime\<close>, which refuses a
  name that is taken: \<open>MustRegister\<close> panics (\<open>None\<close>) at the first refusal.
\<close>

definition metric_vectors :: "(string \<times> string list) list" where
  "metric_vectors = map (\<lambda>n. (n, case metric_labels n of Some ls \<Rightarrow> ls | None \<Rightarrow> []))
     [ResizedTotal, ThresholdReachedTotal, SkippedTotal, MaxCapacityReachedTotal, PVCAtMaxCapacity, ResizeFailureRecoveryTotal]"

fun MustRegister :: "('d \<Rightarrow> 'r \<Rightarrow> go_error + 'r) \<Rightarrow> 'd list \<Rightarrow> 'r \<Rightarrow> 'r option" where
  "MustRegister Register [] registry = Some registry"
| "MustRegister Register (d # ds) registry =
     (case Register d registry of Inl err \<Rightarrow> None | Inr registry' \<Rightarrow> MustRegister Register ds registry')"

definition metrics_init :: "(string \<times> string list \<Rightarrow> 'r \<Rightarrow> go_error + 'r) \<Rightarrow> 'r \<Rightarrow> 'r option" where
  "metrics_init Register registry = MustRegister Register metric_vectors registry"

fun well_labelled :: "'q effect \<Rightarrow> bool" where
  "well_labelled (CounterInc m ls) \<longleftrightarrow> (case metric_labels m of Some ns \<Rightarrow> length ns = length ls | None \<Rightarrow> False)"
| "well_labelled (GaugeSet m ls v) \<longleftrightarrow> (case metric_labels m of Some ns \<Rightarrow> length ns = length ls | None \<Rightarrow> False)"
| "well_labelled (GaugeReset m) \<longleftrightarrow> m \<in> dom metric_labels"
| "well_labelled _ \<longleftrightarrow> True"

lemma metric_labels_simps [simp]:
  "metric_labels ResizedTotal = Some [''namespace'', ''persistentvolumeclaim'']"
  "metric_labels ThresholdReachedTotal = Some [''namespace'', ''persistentvolumeclaim'', ''reason'']"
  "metric_labels SkippedTotal = Some [''namespace'', ''persistentvolumeclaim'', ''reason'']"
  "metric_labels MaxCapacityReachedTotal = Some [''namespace'', ''persistentvolumeclaim'']"
  "metric_labels PVCAtMaxCapacity = Some [''namespace'', ''persistentvolumeclaim'', ''persistentvolumeclaimautoscaler'']"
  "metric_labels ResizeFailureRecoveryTotal = Some [''namespace'', ''persistentvolumeclaim'']"
  by (simp_all add: metric_labels_def metric_defs)

text \<open>
  No two of the metrics have the same name, so a registry that refuses only names it has already
  takes all of them.
\<close>

definition registers :: "(string \<times> string list \<Rightarrow> 'r \<Rightarrow> go_error + 'r) \<Rightarrow> ('r \<Rightarrow> string set) \<Rightarrow> bool" where
  "registers Register names \<longleftrightarrow>
     (\<forall>d r. fst d \<notin> names r \<longrightarrow> (\<exists>r'. Register d r = Inr r' \<and> names r' = insert (fst d) (names r)))"

lemma MustRegister_new:
  assumes "registers Register names" "distinct (map fst ds)" "names r \<inter> fst ` set ds = {}"
  shows "\<exists>r'. MustRegister Register ds r = Some r' \<and> names r' = names r \<union> fst ` set ds"
  using assms(2,3)
proof (induction ds arbitrary: r)
  case (Cons d ds)
  from Cons.prems have "fst d \<notin> names r" by auto
  with assms(1) obtain r1 where r1: "Register d r = Inr r1" "names r1 = insert (fst d) (names r)" unfolding registers_def by blast
  with Cons.prems have "distinct (map fst ds)" "names r1 \<inter> fst ` set ds = {}" by auto
  from Cons.IH [OF this] r1 show ?case by auto
qed simp

lemma metric_names_distinct: "distinct (map fst metric_vectors)"
  by (simp add: metric_vectors_def metric_defs)

lemma metrics_init_succeeds:
  assumes "registers Register names" "names r \<inter> fst ` set metric_vectors = {}"
  shows "\<exists>r'. metrics_init Register r = Some r' \<and> names r' = names r \<union> fst ` set metric_vectors"
  unfolding metrics_init_def by (rule MustRegister_new [OF assms(1) metric_names_distinct assms(2)])

end
