(* ===== verification/Conditions.thy ===== *)
theory Conditions
  imports Autoscaler_Types
begin

text \<open>
  \<^verbatim>\<open>internal/periodic/conditions.go\<close>: the two aggregators that combine the conditions of
  the single volumes into the \<open>RecommendationAvailable\<close> and the \<open>Resizing\<close> condition of an
  autoscaler, and the condition reasons of \<^verbatim>\<open>periodic.go\<close>. The locale
  \<open>condition_aggregator\<close> is the contract of an aggregator: what it returns depends only on
  the multiset of conditions it keeps, so the order in which the runner visits the volumes
  cannot change the status of an autoscaler.
\<close>

section \<open>Reasons\<close>

definition ReasonMetricsFetchError :: string where "ReasonMetricsFetchError = ''MetricsFetchError''"
definition ReasonPVCFetchError :: string where "ReasonPVCFetchError = ''PersistentVolumeClaimFetchError''"
definition ReasonNoPVCsMatched :: string where "ReasonNoPVCsMatched = ''NoPersistentVolumeClaimsMatched''"
definition ReasonAmbiguousPVCA :: string where "ReasonAmbiguousPVCA = ''AmbiguousPersistentVolumeClaimAutoscaler''"
definition ReasonRecommendationError :: string where "ReasonRecommendationError = ''RecommendationError''"
definition ReasonRecommendationsProvided :: string where "ReasonRecommendationsProvided = ''RecommendationsProvided''"
definition ReasonRecommendationsNotProvided :: string where
  "ReasonRecommendationsNotProvided = ''RecommendationsNotProvided''"
definition ReasonReconcile :: string where "ReasonReconcile = ''Reconcile''"
definition ReasonPVCResizeCooldown :: string where
  "ReasonPVCResizeCooldown = ''PersistentVolumeClaimResizeCooldown''"

section \<open>The aggregators\<close>

text \<open>The loop that appends one bullet per message.\<close>

definition bullets :: "string \<Rightarrow> string list \<Rightarrow> string" where
  "bullets message ms = fold (\<lambda>m acc. acc @ nl @ ''- '' @ m) ms message"

text \<open>A set of reasons: the reason itself when there is only one, else the given one.\<close>

definition single_reason :: "string \<Rightarrow> string list \<Rightarrow> string" where
  "single_reason d rs = (case remdups rs of [r] \<Rightarrow> r | _ \<Rightarrow> d)"

record recommendationsConditionAggregator =
  rec_conditions :: "condition list"

definition rec_addCondition ::
  "condition \<Rightarrow> recommendationsConditionAggregator \<Rightarrow> recommendationsConditionAggregator" where
  "rec_addCondition c a =
     (if c_status c = ConditionFalse then a\<lparr>rec_conditions := rec_conditions a @ [c]\<rparr> else a)"

definition rec_getAggregatedCondition :: "recommendationsConditionAggregator \<Rightarrow> condition" where
  "rec_getAggregatedCondition a =
     (let failures = filter (\<lambda>c. c_status c = ConditionFalse) (rec_conditions a);
          status = (if failures = [] then ConditionTrue else ConditionFalse)
      in if status = ConditionTrue
         then Condition ConditionTypeRecommendationAvailable ConditionTrue ReasonRecommendationsProvided
                ''Recommendations have been provided''
         else Condition ConditionTypeRecommendationAvailable status
                (single_reason ReasonRecommendationsNotProvided (map c_reason failures))
                (bullets ''Recommendations could not be provided for some PersistentVolumeClaims:''
                  (sort (map c_message failures))))"

record resizingConditionAggregator =
  res_conditions :: "condition list"

definition res_addCondition :: "condition \<Rightarrow> resizingConditionAggregator \<Rightarrow> resizingConditionAggregator" where
  "res_addCondition c a = a\<lparr>res_conditions := res_conditions a @ [c]\<rparr>"

text \<open>One iteration of the loop over the conditions: the message head and the status.\<close>

definition res_status_step :: "condition \<Rightarrow> string \<times> string \<Rightarrow> string \<times> string" where
  "res_status_step c acc =
     (if c_status c = ConditionTrue then (''PersistentVolumeClaims are being resized:'', ConditionTrue)
      else if snd acc = ConditionUnknown \<and> c_status c = ConditionFalse then (fst acc, ConditionFalse)
      else acc)"

definition res_getAggregatedCondition :: "resizingConditionAggregator \<Rightarrow> condition" where
  "res_getAggregatedCondition a =
     (if res_conditions a = [] then Condition ConditionTypeResizing '''' '''' ''''
      else case fold res_status_step (res_conditions a)
                  (''PersistentVolumeClaims cannot be resized:'', ConditionUnknown) of
        (message, status) \<Rightarrow>
          Condition ConditionTypeResizing status
            (single_reason ReasonReconcile (map c_reason (res_conditions a)))
            (bullets message (sort (map c_message (res_conditions a)))))"

definition no_rec_conditions :: recommendationsConditionAggregator where
  "no_rec_conditions = \<lparr>rec_conditions = []\<rparr>"

definition no_res_conditions :: resizingConditionAggregator where
  "no_res_conditions = \<lparr>res_conditions = []\<rparr>"

section \<open>The contract of an aggregator\<close>

locale condition_aggregator =
  fixes empty :: 'a and add :: "condition \<Rightarrow> 'a \<Rightarrow> 'a" and get :: "'a \<Rightarrow> condition"
    and kept :: "'a \<Rightarrow> condition multiset" and keeps :: "condition \<Rightarrow> bool"
  assumes kept_empty: "kept empty = {#}"
    and kept_add: "kept (add c a) = (if keeps c then add_mset c (kept a) else kept a)"
    and get_cong: "kept a = kept b \<Longrightarrow> get a = get b"
begin

lemma kept_fold: "kept (fold add cs a) = kept a + filter_mset keeps (mset cs)"
  by (induction cs arbitrary: a) (auto simp: kept_add)

lemma order_irrelevant: "mset cs = mset ds \<Longrightarrow> get (fold add cs empty) = get (fold add ds empty)"
  by (rule get_cong) (simp add: kept_fold)

lemma nothing_kept: "\<forall>c \<in> set cs. \<not> keeps c \<Longrightarrow> get (fold add cs empty) = get empty"
  by (rule get_cong) (simp add: kept_fold kept_empty)

end

text \<open>The parts of an aggregated condition depend on the multiset of conditions only.\<close>

lemma remdups_single_iff: "remdups rs = [r] \<longleftrightarrow> set rs = {r}"
proof
  assume s: "set rs = {r}"
  then have "length (remdups rs) = 1" by (simp add: length_remdups_card_conv)
  then obtain x where "remdups rs = [x]" by (auto simp: length_Suc_conv)
  moreover from this have "x = r" using s set_remdups [of rs] by simp
  ultimately show "remdups rs = [r]" by simp
qed (use set_remdups [of rs] in simp)

lemma single_reason_single: "set rs = {r} \<Longrightarrow> single_reason d rs = r"
  by (simp add: single_reason_def remdups_single_iff [symmetric])

lemma single_reason_other: "\<nexists>r. set rs = {r} \<Longrightarrow> single_reason d rs = d"
  by (auto simp: single_reason_def remdups_single_iff [symmetric] split: list.split)

lemma single_reason_mset: "mset cs = mset ds \<Longrightarrow> single_reason d (map f cs) = single_reason d (map f ds)"
  by (cases "\<exists>r. set (map f cs) = {r}")
    (auto simp: single_reason_single single_reason_other dest!: mset_eq_setD)

lemma res_status_fold:
  "fold res_status_step cs (h, st) =
     (if \<exists>c \<in> set cs. c_status c = ConditionTrue
      then (''PersistentVolumeClaims are being resized:'', ConditionTrue)
      else if st = ConditionUnknown \<and> (\<exists>c \<in> set cs. c_status c = ConditionFalse) then (h, ConditionFalse)
      else (h, st))"
  by (induction cs arbitrary: h st) (auto simp: res_status_step_def)

interpretation rec_agg: condition_aggregator no_rec_conditions rec_addCondition rec_getAggregatedCondition
  "\<lambda>a. filter_mset (\<lambda>c. c_status c = ConditionFalse) (mset (rec_conditions a))"
  "\<lambda>c. c_status c = ConditionFalse"
proof unfold_locales
  fix a b :: recommendationsConditionAggregator
  assume "filter_mset (\<lambda>c. c_status c = ConditionFalse) (mset (rec_conditions a)) =
    filter_mset (\<lambda>c. c_status c = ConditionFalse) (mset (rec_conditions b))"
  then have m: "mset (filter (\<lambda>c. c_status c = ConditionFalse) (rec_conditions a)) =
    mset (filter (\<lambda>c. c_status c = ConditionFalse) (rec_conditions b))" by simp
  from sort_key_map_mset [OF m, of c_message] single_reason_mset [OF m, of _ c_reason]
  show "rec_getAggregatedCondition a = rec_getAggregatedCondition b"
    using arg_cong [OF m, of "\<lambda>M. M = {#}", unfolded mset_zero_iff]
    by (simp add: rec_getAggregatedCondition_def Let_def)
qed (auto simp: no_rec_conditions_def rec_addCondition_def)

interpretation res_agg: condition_aggregator no_res_conditions res_addCondition res_getAggregatedCondition
  "\<lambda>a. mset (res_conditions a)" "\<lambda>_. True"
proof unfold_locales
  fix a b :: resizingConditionAggregator
  assume m: "mset (res_conditions a) = mset (res_conditions b)"
  note s = mset_eq_setD [OF m]
  from sort_key_map_mset [OF m, of c_message] single_reason_mset [OF m, of _ c_reason]
  show "res_getAggregatedCondition a = res_getAggregatedCondition b"
    using m by (auto simp: res_getAggregatedCondition_def res_status_fold s)
qed (auto simp: no_res_conditions_def res_addCondition_def)

text \<open>
  C35: The status conditions of an autoscaler do not depend on the order in which its volumes
  were processed: both aggregated conditions are the same for every permutation of the
  conditions added, text included.
\<close>

theorem aggregated_conditions_order_irrelevant:
  assumes "mset cs = mset ds"
  shows "rec_getAggregatedCondition (fold rec_addCondition cs no_rec_conditions) =
      rec_getAggregatedCondition (fold rec_addCondition ds no_rec_conditions) \<and>
    res_getAggregatedCondition (fold res_addCondition cs no_res_conditions) =
      res_getAggregatedCondition (fold res_addCondition ds no_res_conditions)"
  using rec_agg.order_irrelevant [OF assms] res_agg.order_irrelevant [OF assms] by simp

theorem aggregated_conditions_order_irrelevant_witness:
  "rec_getAggregatedCondition (fold rec_addCondition
      [Condition ''R'' ConditionFalse ''A'' ''m'', Condition ''R'' ConditionFalse ''B'' ''l''] no_rec_conditions) =
    rec_getAggregatedCondition (fold rec_addCondition
      [Condition ''R'' ConditionFalse ''B'' ''l'', Condition ''R'' ConditionFalse ''A'' ''m''] no_rec_conditions)"
  using aggregated_conditions_order_irrelevant
    [of "[Condition ''R'' ConditionFalse ''A'' ''m'', Condition ''R'' ConditionFalse ''B'' ''l'']"
        "[Condition ''R'' ConditionFalse ''B'' ''l'', Condition ''R'' ConditionFalse ''A'' ''m'']"]
  by simp

text \<open>
  C36: What the aggregated statuses mean. \<open>RecommendationAvailable\<close> is True exactly when no
  condition with status False was added and False otherwise. \<open>Resizing\<close> has no status and an
  empty message exactly when no condition was added (the sentinel on which \<open>setStatus\<close> removes
  it), else it is True when some volume is being resized, else False when some resize failed or
  is blocked, else Unknown.
\<close>

theorem aggregated_status_meaning:
  "c_status (rec_getAggregatedCondition (fold rec_addCondition cs no_rec_conditions)) =
     (if \<exists>c \<in> set cs. c_status c = ConditionFalse then ConditionFalse else ConditionTrue) \<and>
   c_status (res_getAggregatedCondition (fold res_addCondition cs no_res_conditions)) =
     (if cs = [] then '''' else if \<exists>c \<in> set cs. c_status c = ConditionTrue then ConditionTrue
      else if \<exists>c \<in> set cs. c_status c = ConditionFalse then ConditionFalse else ConditionUnknown) \<and>
   (c_message (res_getAggregatedCondition (fold res_addCondition cs no_res_conditions)) = '''' \<longleftrightarrow> cs = [])"
proof -
  have add: "rec_conditions (fold rec_addCondition cs a) =
      rec_conditions a @ filter (\<lambda>c. c_status c = ConditionFalse) cs" for a
    by (induction cs arbitrary: a) (auto simp: rec_addCondition_def)
  have add': "res_conditions (fold res_addCondition cs a) = res_conditions a @ cs" for a
    by (induction cs arbitrary: a) (auto simp: res_addCondition_def)
  have len: "length h \<le> length (bullets h ms)" for h ms
  proof (induction ms arbitrary: h)
    case (Cons m ms)
    from Cons [of "h @ nl @ ''- '' @ m"] show ?case by (simp add: bullets_def)
  qed (simp add: bullets_def)
  have "bullets h ms \<noteq> ''''" if "h \<noteq> ''''" for h ms using len [of h ms] that by auto
  then show ?thesis
    by (auto simp: rec_getAggregatedCondition_def res_getAggregatedCondition_def add add' Let_def
        no_rec_conditions_def no_res_conditions_def res_status_fold filter_empty_conv)
qed

end
