(* ===== verification/Scaling.thy ===== *)
theory Scaling
  imports Sizes Metrics Conditions Example_Cluster
begin

text \<open>
  The decisions of the periodic runner about one claim
  (\<^verbatim>\<open>internal/periodic/periodic.go\<close>): validating it, classifying why it should grow,
  detecting a resize in progress, computing the target size, the cooldown, and the resize
  itself. The aggregator of resizing conditions is passed in and returned. A nil dereference of
  an optional scaling rule and a write to a nil map are the panic \<open>None\<close>.
\<close>

section \<open>Validation\<close>

definition validatePVC ::
  "'q quantity_ops \<Rightarrow> ('q, 'w) client \<Rightarrow> 'q pvc \<Rightarrow> 'q VolumePolicy \<Rightarrow> ('q, 'w, go_error option) prog" where
  "validatePVC Q c p policy =
     (let currStatusSize = statusSize Q p in
      if IsZero Q currStatusSize
      then ret (Some (ErrorString (''.status.capacity.storage is invalid: '' @ QuantityString Q currStatusSize)))
      else if Value Q (MaxCapacity policy) < Value Q currStatusSize
      then ret (Some (ErrorString (''max capacity ('' @ QuantityString Q (MaxCapacity policy) @
             '') cannot be less than current size ('' @ QuantityString Q currStatusSize @ '')'')))
      else let scName = (case pvc_storageClassName p of Some n \<Rightarrow> n | None \<Rightarrow> '''') in
      if scName = '''' then ret (Some (Sentinel ErrStorageClassNotFound))
      else do {
        r \<leftarrow> api (Get_StorageClass c scName);
        ret (case r of
          Inl err \<Rightarrow> Some err
        | Inr sc \<Rightarrow>
            if \<not> (case sc_allowVolumeExpansion sc of Some b \<Rightarrow> b | None \<Rightarrow> False)
            then Some (Sentinel ErrStorageClassDoesNotSupportExpansion)
            else if pvc_volumeMode p \<noteq> None \<and> pvc_volumeMode p \<noteq> Some ''Filesystem''
            then Some (Sentinel ErrVolumeModeIsNotFilesystem)
            else if pvc_phase p \<noteq> ''Bound'' then Some (Sentinel ErrPVCNotBound)
            else None)
      })"

section \<open>Why a claim should grow\<close>

definition deref0 :: "int option \<Rightarrow> int" where
  "deref0 x = (case x of Some n \<Rightarrow> n | None \<Rightarrow> 0)"

definition isAtMaxCapacity :: "'q quantity_ops \<Rightarrow> 'q pvc \<Rightarrow> 'q VolumePolicy \<Rightarrow> bool" where
  "isAtMaxCapacity Q p policy \<longleftrightarrow>
     wrap64 (Value Q (MaxCapacity policy) - Value Q (specSize Q p)) < ScalingResolutionBytes"

definition scalingReason ::
  "'q quantity_ops \<Rightarrow> 'q pvc \<Rightarrow> 'q VolumePolicy \<Rightarrow> 'q VolumeRecommendation \<Rightarrow> (string \<times> bool) option" where
  "scalingReason Q p policy vr =
     (case ScaleUp policy of None \<Rightarrow> None | Some rules \<Rightarrow>
      (case UtilizationThresholdPercent rules of None \<Rightarrow> None | Some threshold \<Rightarrow>
         Some (if deref0 (UsedSpacePercent (Current vr)) > threshold then ScalingReasonSpaceThreshold
               else if deref0 (UsedInodesPercent (Current vr)) > threshold then ScalingReasonInodesThreshold
               else '''',
               isAtMaxCapacity Q p policy)))"

section \<open>A resize in progress\<close>

definition resizing_true :: "string \<Rightarrow> condition" where
  "resizing_true m = Condition ConditionTypeResizing ConditionTrue ReasonReconcile m"

definition isResizeInProgress ::
  "'q quantity_ops \<Rightarrow> 'q pvc \<Rightarrow> string \<Rightarrow> resizingConditionAggregator \<Rightarrow> bool \<times> resizingConditionAggregator" where
  "isResizeInProgress Q p reason agg =
     (let currStatusSize = statusSize Q p;
          dueTo = ScaledDueToClause reason;
          being = pvc_name p @ '': is being scaled'' @ dueTo
      in if IsPersistentVolumeClaimConditionTrue p PVCResizing
         then (True, res_addCondition (resizing_true (being @ '', resize has been started'')) agg)
         else if IsPersistentVolumeClaimConditionTrue p PVCFileSystemResizePending
         then (True, res_addCondition (resizing_true (being @ '', file system resize is pending'')) agg)
         else if IsPersistentVolumeClaimConditionTrue p PVCVolumeModifyingVolume
         then (True, res_addCondition (resizing_true (being @ '', volume is being modified'')) agg)
         else (case pvc_annotations p AnnotationPreviousSize of
            None \<Rightarrow> (False, agg)
          | Some v \<Rightarrow>
              (case ParseQuantity Q v of
                 Inl err \<Rightarrow> (True, res_addCondition
                   (Condition ConditionTypeResizing ConditionUnknown ReasonReconcile
                     (pvc_name p @ '': could not parse '' @ AnnotationPreviousSize @ '' annotation with value '' @ v @
                      '': '' @ Error err)) agg)
               | Inr scaledFrom \<Rightarrow>
                   if QuantityEqual Q scaledFrom currStatusSize
                   then (True, res_addCondition
                          (resizing_true (being @ '', persistent volume claim is still being resized'')) agg)
                   else (False, agg))))"

section \<open>The target size\<close>

definition recordMaxCapacityReached ::
  "'q quantity_ops \<Rightarrow> 'q pvc \<Rightarrow> 'q VolumePolicy \<Rightarrow> resizingConditionAggregator \<Rightarrow>
    ('q, 'w, resizingConditionAggregator option) prog" where
  "recordMaxCapacityReached Q p policy agg = do {
     _ \<leftarrow> emit (Eventf (pvc_key p) ''Warning'' ''MaxCapacityReached''
       (''max capacity ('' @ QuantityString Q (MaxCapacity policy) @ '') has been reached, will not resize''));
     _ \<leftarrow> emit (CounterInc MaxCapacityReachedTotal [pvc_namespace p, pvc_name p]);
     ret (case ScaleUp policy of
       None \<Rightarrow> None
     | Some rules \<Rightarrow>
         Some (if ResizeStrategy rules \<noteq> OffVolumeResizeStrategy
               then res_addCondition (Condition ConditionTypeResizing ConditionFalse ReasonReconcile
                      (pvc_name p @ '': max capacity reached'')) agg
               else agg))
   }"

text \<open>\<^verbatim>\<open>math.Max(float64(spec)*(stepPercent/100.0), float64(minStep))\<close>, added and rounded up.\<close>

definition resizeIncrement :: "int \<Rightarrow> int \<Rightarrow> int \<Rightarrow> rat" where
  "resizeIncrement spec stepPercent minStep =
     max (float64 (of_int64 spec * float64 (of_int64 stepPercent / 100))) (of_int64 minStep)"

definition targetSizeBytes :: "int \<Rightarrow> int \<Rightarrow> int \<Rightarrow> int" where
  "targetSizeBytes spec stepPercent minStep =
     round_up_gi (float64 (of_int64 spec + resizeIncrement spec stepPercent minStep))"

text \<open>The event and the counter for the threshold that was passed.\<close>

definition record_threshold ::
  "'q pvc \<Rightarrow> string \<Rightarrow> int \<Rightarrow> 'q VolumeRecommendation \<Rightarrow> ('q, 'w, unit) prog" where
  "record_threshold p reason threshold vr =
     (if reason = ScalingReasonSpaceThreshold then do {
        _ \<leftarrow> emit (Eventf (pvc_key p) ''Warning'' ''UsedSpaceThresholdReached''
          (''used space ('' @ show_int (deref0 (UsedSpacePercent (Current vr))) @ ''%) exceeds the configured threshold ('' @
           show_int threshold @ ''%)''));
        emit (CounterInc ThresholdReachedTotal [pvc_namespace p, pvc_name p, ''space''])
      } else do {
        _ \<leftarrow> emit (Eventf (pvc_key p) ''Warning'' ''UsedInodesThresholdReached''
          (''used inodes ('' @ show_int (deref0 (UsedInodesPercent (Current vr))) @ ''%) exceeds the configured threshold ('' @
           show_int threshold @ ''%)''));
        emit (CounterInc ThresholdReachedTotal [pvc_namespace p, pvc_name p, ''inodes''])
      })"

definition recommendResize ::
  "'q quantity_ops \<Rightarrow> 'q pvc \<Rightarrow> string \<Rightarrow> 'q VolumePolicy \<Rightarrow> 'q VolumeRecommendation \<Rightarrow> resizingConditionAggregator \<Rightarrow>
    ('q, 'w, ('q option \<times> resizingConditionAggregator) option) prog" where
  "recommendResize Q p reason policy vr agg =
     (case ScaleUp policy of None \<Rightarrow> ret None | Some rules \<Rightarrow>
     (case UtilizationThresholdPercent rules of None \<Rightarrow> ret None | Some threshold \<Rightarrow>
     if reason \<noteq> ScalingReasonSpaceThreshold \<and> reason \<noteq> ScalingReasonInodesThreshold then ret (Some (None, agg))
     else do {
       _ \<leftarrow> record_threshold p reason threshold vr;
       case StepPercent rules of None \<Rightarrow> ret None | Some stepPercent \<Rightarrow>
       (case MinStepAbsolute rules of None \<Rightarrow> ret None | Some minStep \<Rightarrow>
       (let spec = specSize Q p;
            targetSize = NewQuantity Q (targetSizeBytes (Value Q spec) stepPercent (Value Q minStep))
        in if Cmp Q targetSize spec = 0 \<or> Cmp Q targetSize spec = - 1 then ret (Some (None, agg))
           else if Value Q targetSize > Value Q (MaxCapacity policy) then
             (if isAtMaxCapacity Q p policy then do {
                r \<leftarrow> recordMaxCapacityReached Q p policy agg;
                ret (map_option (\<lambda>agg'. (None, agg')) r)
              }
              else ret (Some (Some (MaxCapacity policy), agg)))
           else ret (Some (Some targetSize, agg))))
     }))"

section \<open>Cooldown and resize\<close>

text \<open>\<^verbatim>\<open>time.Since\<close> saturates at the ends of \<open>Duration\<close>; the comparison is the same.\<close>

definition isInCooldown ::
  "('q, 'w) client \<Rightarrow> 'q pvc \<Rightarrow> 'q ScalingRules \<Rightarrow> 'q VolumeRecommendation \<Rightarrow> resizingConditionAggregator \<Rightarrow>
    ('q, 'w, bool \<times> resizingConditionAggregator) prog" where
  "isInCooldown c p rules vr agg =
     (if ResizeStrategy rules = OffVolumeResizeStrategy then ret (False, agg)
      else case CooldownDuration rules of None \<Rightarrow> ret (False, agg) | Some cooldown \<Rightarrow>
      (case LastResizeTime vr of None \<Rightarrow> ret (False, agg) | Some lastResizeTime \<Rightarrow> do {
         t \<leftarrow> now c;
         ret (if t - lastResizeTime < cooldown
              then (True, res_addCondition (Condition ConditionTypeResizing ConditionFalse ReasonPVCResizeCooldown
                     (pvc_name p @ '': cooldown duration has not elapsed yet'')) agg)
              else (False, agg))
       }))"

text \<open>
  The resize. The time it stores in the recommendation is the clock reading; written to the status it is
  rounded down to seconds.
\<close>

definition resizePVC ::
  "'q quantity_ops \<Rightarrow> ('q, 'w) client \<Rightarrow> 'q pvc \<Rightarrow> string \<Rightarrow> 'q \<Rightarrow> 'q VolumeRecommendation \<Rightarrow> resizingConditionAggregator \<Rightarrow>
    ('q, 'w, ('q pvc \<times> 'q VolumeRecommendation \<times> go_error option \<times> resizingConditionAggregator) option) prog" where
  "resizePVC Q c p reason targetSize vr agg = do {
     let currSpecSize = specSize Q p;
     _ \<leftarrow> emit (CounterInc ResizedTotal [pvc_namespace p, pvc_name p]);
     _ \<leftarrow> emit (Eventf (pvc_key p) ''Normal'' ''ResizingStorage''
       (''resizing storage from '' @ QuantityString Q currSpecSize @ '' to '' @ QuantityString Q targetSize));
     let annotated = p\<lparr>pvc_annotations := (pvc_annotations p)(AnnotationPreviousSize \<mapsto> QuantityString Q currSpecSize)\<rparr>;
     case pvc_requests annotated of
       None \<Rightarrow> ret None
     | Some requests \<Rightarrow> do {
         let p' = with_request annotated requests targetSize;
         r \<leftarrow> patch_pvc c False p p';
         case r of
           Inl err \<Rightarrow>
             ret (Some (p', vr, Some err, res_addCondition (Condition ConditionTypeResizing ConditionFalse ReasonReconcile
               (pvc_name p' @ '': could not patch PersistentVolumeClaim with new target size '' @ QuantityString Q targetSize)) agg))
         | Inr p'' \<Rightarrow> do {
             t \<leftarrow> now c;
             ret (Some (p'', vr\<lparr>Target := \<lparr>target_size = Some targetSize\<rparr>, LastResizeTime := Some t\<rparr>, None,
               res_addCondition (Condition ConditionTypeResizing ConditionTrue ReasonReconcile
                 (pvc_name p'' @ '': resizing from '' @ QuantityString Q currSpecSize @ '' to '' @
                  QuantityString Q targetSize @ '' due to '' @ reason)) agg))
           }
       }
   }"

section \<open>The target size is large enough and not too large\<close>

lemma of_int64_exact: "\<bar>n\<bar> \<le> 2 ^ 53 \<Longrightarrow> of_int64 n = of_int n"
  by (simp add: of_int64_def float64_of_int)

text \<open>Up to 4 PiB the byte counts are exact, so a target grows by at least the minimal step.\<close>

lemma targetSizeBytes_grows:
  assumes "0 \<le> spec" "spec \<le> 2 ^ 52" "0 \<le> minStep" "minStep \<le> 2 ^ 52" "0 \<le> step" "step \<le> 100"
  shows "spec + minStep \<le> targetSizeBytes spec step minStep"
    "of_int (targetSizeBytes spec step minStep) <
       of_int spec + max (of_int spec * of_int step / 100) (of_int minStep) + (2 ^ 30 + 2 ^ 10 :: rat)"
proof -
  define r where "r = float64 (of_int64 step / 100)"
  define z where "z = of_int64 spec * r"
  define inc where "inc = resizeIncrement spec step minStep"
  define y where "y = of_int64 spec + inc"
  have ex: "of_int64 spec = of_int spec" "of_int64 minStep = of_int minStep" "of_int64 step = of_int step"
    using assms by (auto intro!: of_int64_exact)
  have b: "0 \<le> (of_int spec :: rat)" "of_int spec \<le> (2 ^ 52 :: rat)" "0 \<le> (of_int minStep :: rat)" "of_int minStep \<le> (2 ^ 52 :: rat)"
    "0 \<le> (of_int step :: rat)" "of_int step \<le> (100 :: rat)"
    using of_int_le_power [OF assms(2)] of_int_le_power [OF assms(4)] assms by simp_all
  have r: "0 \<le> r" "r \<le> of_int step / 100 * (1 + 1 / 2 ^ 53)" "r \<le> 1"
    using b float64_upper [of "of_int step / 100"] f64.le_int [of "of_int step / 100" 1]
    unfolding r_def ex by (simp_all add: float64_nonneg)
  have z: "0 \<le> z" "z \<le> 2 ^ 52"
    using b r mult_mono [of "of_int spec :: rat" "2 ^ 52" r 1] unfolding z_def ex by simp_all
  have z2: "z \<le> of_int spec * (of_int step / 100 * (1 + 1 / 2 ^ 53))"
    unfolding z_def ex by (rule mult_left_mono [OF r(2) b(1)])
  have fz: "0 \<le> float64 z" "float64 z \<le> z + 1" "float64 z \<le> 2 ^ 52"
    using float64_upper [OF z(1)] z(2) float64_nonneg [OF z(1)] float64_mono [OF z(2)] float64_pow2 [of 52] by simp_all
  have inc: "inc = max (float64 z) (of_int minStep)"
    unfolding inc_def resizeIncrement_def z_def r_def ex(2) ..
  have y: "of_int (spec + minStep) \<le> y" "0 \<le> y" "y \<le> 2 ^ 53" using b fz unfolding y_def ex inc by auto
  define x where "x = float64 y"
  have x: "of_int (spec + minStep) \<le> x" "x \<le> 2 ^ 53" "x \<le> y + 1"
    using f64.ge_int [OF y(1)] assms float64_mono [OF y(3)] float64_pow2 [of 53] float64_upper [OF y(2)] y(3)
    unfolding x_def by simp_all
  have x0: "0 \<le> x" unfolding x_def by (rule float64_nonneg [OF y(2)])
  have t: "x \<le> of_int (round_up_gi x)" "of_int (round_up_gi x) < x + 2 ^ 30"
    unfolding x_def by (rule round_up_gi_bounds; use x x0 in \<open>simp add: x_def\<close>)+
  have ts: "targetSizeBytes spec step minStep = round_up_gi x"
    by (simp add: targetSizeBytes_def x_def y_def inc_def)
  have "(of_int (spec + minStep) :: rat) \<le> of_int (round_up_gi x)" using x(1) t(1) by linarith
  then show "spec + minStep \<le> targetSizeBytes spec step minStep" unfolding ts by (simp only: of_int_le_iff)
  have "of_int spec * of_int step / (100 :: rat) \<le> 2 ^ 52"
    using b mult_mono [of "of_int spec :: rat" "2 ^ 52" "of_int step / 100" 1] by simp
  then have "z \<le> of_int spec * of_int step / 100 + 1" using z2 by (simp add: field_simps)
  then have "inc \<le> max (of_int spec * of_int step / 100) (of_int minStep) + 2" using fz unfolding inc by auto
  then show "of_int (targetSizeBytes spec step minStep) <
       of_int spec + max (of_int spec * of_int step / 100) (of_int minStep) + (2 ^ 30 + 2 ^ 10 :: rat)"
    using t(2) x(3) unfolding ts y_def ex by simp
qed

section \<open>Contracts\<close>

text \<open>Effects that only report: events about the claim and counters.\<close>

definition note_effect :: "'q pvc \<Rightarrow> 'q effect \<Rightarrow> bool" where
  "note_effect p e \<longleftrightarrow> well_labelled e \<and> (case e of Eventf k t r m \<Rightarrow> k = pvc_key p | CounterInc m ls \<Rightarrow> True | _ \<Rightarrow> False)"

lemma note_effect_simps [simp]:
  "note_effect p (Eventf k t r m) \<longleftrightarrow> k = pvc_key p"
  "note_effect p (CounterInc m ls) \<longleftrightarrow> well_labelled (CounterInc m ls :: 'q effect)"
  "\<not> note_effect p (PatchPVC l old new)"
  for p :: "'q pvc"
  by (simp_all add: note_effect_def)

text \<open>The scaling rules the runner dereferences are all set.\<close>

definition rules_complete :: "'q VolumePolicy \<Rightarrow> bool" where
  "rules_complete policy \<longleftrightarrow>
     (case ScaleUp policy of None \<Rightarrow> False | Some r \<Rightarrow>
        UtilizationThresholdPercent r \<noteq> None \<and> StepPercent r \<noteq> None \<and> MinStepAbsolute r \<noteq> None)"

text \<open>A size to which a claim may grow.\<close>

definition grown_size :: "'q quantity_ops \<Rightarrow> ('q \<Rightarrow> rat) \<Rightarrow> 'q pvc \<Rightarrow> 'q VolumePolicy \<Rightarrow> 'q \<Rightarrow> bool" where
  "grown_size Q amount p policy q \<longleftrightarrow>
     amount (specSize Q p) < amount q \<and> amount q \<le> of_int (Value Q (MaxCapacity policy)) \<and>
     (q = MaxCapacity policy \<or> (\<exists>k. amount q = of_int (k * ScalingResolutionBytes)))"

lemma valid_record_threshold [vcg]:
  "(\<And>x. R x) \<Longrightarrow> valid (record_threshold p reason threshold vr) (note_effect p) R"
  unfolding record_threshold_def by (intro vcg) simp_all

lemma valid_recordMaxCapacityReached:
  "(\<And>r. (ScaleUp policy \<noteq> None \<Longrightarrow> r \<noteq> None) \<Longrightarrow> R r) \<Longrightarrow>
    valid (recordMaxCapacityReached Q p policy agg) (note_effect p) R"
  unfolding recordMaxCapacityReached_def by (intro vcg) (auto split: option.splits)

lemma isAtMaxCapacity_iff:
  assumes "quantity_laws Q amount" "size_ok amount (specSize Q p)" "size_ok amount (MaxCapacity policy)"
  shows "isAtMaxCapacity Q p policy \<longleftrightarrow> Value Q (MaxCapacity policy) - Value Q (specSize Q p) < ScalingResolutionBytes"
proof -
  note v = Value_size_ok [OF assms(1,2)] and w = Value_size_ok [OF assms(1,3)]
  have "int64 (Value Q (MaxCapacity policy) - Value Q (specSize Q p))"
    using v(2,3) w(2,3) by (simp add: int64_def)
  then show ?thesis by (simp add: isAtMaxCapacity_def wrap64_id)
qed

lemma grown_size_max:
  assumes Q: "quantity_laws Q amount" and s: "size_ok amount (specSize Q p)" and m: "size_ok amount (MaxCapacity policy)"
    and "\<not> isAtMaxCapacity Q p policy"
  shows "grown_size Q amount p policy (MaxCapacity policy)"
proof -
  note v = Value_size_ok [OF Q s] and w = Value_size_ok [OF Q m]
  have "Value Q (specSize Q p) + 2 ^ 30 \<le> Value Q (MaxCapacity policy)"
    using assms(4) by (simp add: isAtMaxCapacity_iff [OF Q s m] ScalingResolutionBytes_def)
  then have "(of_int (Value Q (specSize Q p) + 2 ^ 30) :: rat) \<le> of_int (Value Q (MaxCapacity policy))"
    by (simp only: of_int_le_iff)
  then have "amount (specSize Q p) < amount (MaxCapacity policy)" using v(4) w(5) by simp
  then show ?thesis using w(4) by (simp add: grown_size_def)
qed

lemma Value_target:
  assumes Q: "quantity_laws Q amount" and s: "size_ok amount (specSize Q p)"
    and c: "Cmp Q (NewQuantity Q n) (specSize Q p) \<noteq> 0" "Cmp Q (NewQuantity Q n) (specSize Q p) \<noteq> - 1" and n: "int64 n"
  shows "amount (NewQuantity Q n) = of_int n" "amount (specSize Q p) < of_int n" "Value Q (NewQuantity Q n) = n"
proof -
  show a: "amount (NewQuantity Q n) = of_int n" by (rule quantity_lawsD(5) [OF Q n])
  then show g: "amount (specSize Q p) < of_int n"
    using c quantity_lawsD(2) [OF Q, of "NewQuantity Q n" "specSize Q p"] by (auto split: if_splits)
  have "(of_int n :: rat) \<le> of_int (2 ^ 63 - 1)" using n by (subst of_int_le_iff) (simp add: int64_def)
  then show "Value Q (NewQuantity Q n) = n"
    using quantity_lawsD(1) [OF Q, of "NewQuantity Q n"] g s unfolding a size_ok_def by simp
qed

lemma int64_targetSizeBytes: "int64 (targetSizeBytes a b d)"
  by (simp add: targetSizeBytes_def int64_round_up_gi)

lemma grown_size_target:
  assumes Q: "quantity_laws Q amount" and s: "size_ok amount (specSize Q p)"
    and c: "Cmp Q (NewQuantity Q (targetSizeBytes a b d)) (specSize Q p) \<noteq> 0"
      "Cmp Q (NewQuantity Q (targetSizeBytes a b d)) (specSize Q p) \<noteq> - 1"
    and le: "\<not> Value Q (NewQuantity Q (targetSizeBytes a b d)) > Value Q (MaxCapacity policy)"
  shows "grown_size Q amount p policy (NewQuantity Q (targetSizeBytes a b d))"
proof -
  note t = Value_target [OF Q s c int64_targetSizeBytes]
  have "2 ^ 30 dvd targetSizeBytes a b d" unfolding targetSizeBytes_def by (rule round_up_gi_dvd)
  then have "\<exists>k. targetSizeBytes a b d = k * ScalingResolutionBytes"
    by (auto simp: dvd_def ScalingResolutionBytes_def)
  moreover have "of_int (targetSizeBytes a b d) \<le> (of_int (Value Q (MaxCapacity policy)) :: rat)"
    using le unfolding t(3) by simp
  ultimately show ?thesis using t(2) unfolding grown_size_def t(1) by (metis of_int_eq_iff)
qed

lemma valid_recommendResize:
  assumes "quantity_laws Q amount" "size_ok amount (specSize Q p)" "size_ok amount (MaxCapacity policy)"
  shows "valid (recommendResize Q p reason policy vr agg) (note_effect p)
    (\<lambda>r. (rules_complete policy \<longrightarrow> r \<noteq> None) \<and> (\<forall>t agg'. r = Some (Some t, agg') \<longrightarrow>
       (reason = ScalingReasonSpaceThreshold \<or> reason = ScalingReasonInodesThreshold) \<and> grown_size Q amount p policy t))"
  unfolding recommendResize_def Let_def
  by (intro valid_bind [OF valid_recordMaxCapacityReached [where R = "\<lambda>r. ScaleUp policy \<noteq> None \<longrightarrow> r \<noteq> None"]] vcg)
    (auto simp: rules_complete_def intro: grown_size_max [OF assms] grown_size_target [OF assms(1,2)])

lemma valid_isInCooldown [vcg]:
  "(\<And>b agg'. R (b, agg')) \<Longrightarrow> valid (isInCooldown c p rules vr agg) E R"
  unfolding isInCooldown_def by (intro vcg) auto

lemma valid_validatePVC [vcg]: "(\<And>r. R r) \<Longrightarrow> valid (validatePVC Q c p policy) E R"
  unfolding validatePVC_def Let_def by (intro vcg) auto

text \<open>The claim as \<open>resizePVC\<close> patches it.\<close>

definition resized :: "'q quantity_ops \<Rightarrow> 'q pvc \<Rightarrow> (string \<rightharpoonup> 'q) \<Rightarrow> 'q \<Rightarrow> 'q pvc" where
  "resized Q p m q =
     with_request (p\<lparr>pvc_annotations := (pvc_annotations p)(AnnotationPreviousSize \<mapsto> QuantityString Q (specSize Q p))\<rparr>) m q"

lemma resized_key [simp]: "pvc_key (resized Q p m q) = pvc_key p"
  by (simp add: resized_def) (simp add: pvc_key_def)

definition resize_effect :: "'q quantity_ops \<Rightarrow> 'q pvc \<Rightarrow> 'q \<Rightarrow> 'q effect \<Rightarrow> bool" where
  "resize_effect Q p q e \<longleftrightarrow>
     note_effect p e \<or> (\<exists>m. pvc_requests p = Some m \<and> e = PatchPVC False p (resized Q p m q))"

lemma valid_resizePVC:
  assumes "keeps_identity c"
  shows "valid (resizePVC Q c p reason q vr agg) (resize_effect Q p q)
    (\<lambda>r. (pvc_requests p \<noteq> None \<longrightarrow> r \<noteq> None) \<and> (\<forall>p' vr' err agg'. r = Some (p', vr', err, agg') \<longrightarrow>
       pvc_key p' = pvc_key p \<and> vr_name vr' = vr_name vr \<and> Current vr' = Current vr \<and>
       (if err = None then target_size (Target vr') = Some q else vr' = vr)))"
  unfolding resizePVC_def Let_def resized_def [symmetric]
  by (intro valid_patch_then [OF assms] vcg) (auto simp: resize_effect_def)

section \<open>What the decisions mean\<close>

definition realistic_size :: "('q \<Rightarrow> rat) \<Rightarrow> 'q \<Rightarrow> bool" where
  "realistic_size amount q \<longleftrightarrow> 0 \<le> amount q \<and> amount q \<le> 2 ^ 52"

lemma realistic_size_ok: "realistic_size amount q \<Longrightarrow> size_ok amount q"
  by (simp add: realistic_size_def size_ok_def)

lemma realistic_Value:
  assumes "quantity_laws Q amount" "realistic_size amount q"
  shows "0 \<le> Value Q q" "Value Q q \<le> 2 ^ 52"
  using Value_size_ok [OF assms(1) realistic_size_ok [OF assms(2)]] assms(2)
  by (simp_all add: realistic_size_def ceiling_le_iff)

lemma target_above_spec:
  assumes "quantity_laws Q amount" "realistic_size amount (specSize Q p)" "realistic_size amount minStep"
    and "2 ^ 30 \<le> amount minStep" "0 \<le> step" "step \<le> 100"
  defines "n \<equiv> targetSizeBytes (Value Q (specSize Q p)) step (Value Q minStep)"
  shows "Value Q (specSize Q p) + 2 ^ 30 \<le> n" "amount (specSize Q p) + amount minStep \<le> of_int n"
    "Cmp Q (NewQuantity Q n) (specSize Q p) \<noteq> 0" "Cmp Q (NewQuantity Q n) (specSize Q p) \<noteq> - 1"
proof -
  note v = realistic_Value [OF assms(1,2)] realistic_Value [OF assms(1,3)]
  note a = Value_size_ok(4) [OF assms(1) realistic_size_ok [OF assms(2)]]
    Value_size_ok(4) [OF assms(1) realistic_size_ok [OF assms(3)]]
  have n: "Value Q (specSize Q p) + Value Q minStep \<le> n"
    unfolding n_def by (rule targetSizeBytes_grows(1)) (use v assms in simp_all)
  have "(of_int (2 ^ 30) :: rat) \<le> of_int (Value Q minStep)" using a(2) assms(4) by simp
  then have "2 ^ 30 \<le> Value Q minStep" by (simp only: of_int_le_iff)
  with n show "Value Q (specSize Q p) + 2 ^ 30 \<le> n" by simp
  have "(of_int (Value Q (specSize Q p) + Value Q minStep) :: rat) \<le> of_int n" using n by (simp only: of_int_le_iff)
  then show l: "amount (specSize Q p) + amount minStep \<le> of_int n" using a by simp
  have "amount (NewQuantity Q n) = of_int n"
    unfolding n_def by (rule quantity_lawsD(5) [OF assms(1) int64_targetSizeBytes])
  then have "amount (specSize Q p) < amount (NewQuantity Q n)" using l assms(4) by simp
  then show "Cmp Q (NewQuantity Q n) (specSize Q p) \<noteq> 0" "Cmp Q (NewQuantity Q n) (specSize Q p) \<noteq> - 1"
    by (simp_all add: quantity_lawsD(2) [OF assms(1)])
qed

lemma recommendResize_headroom:
  assumes "quantity_laws Q amount" "realistic_size amount (specSize Q p)" "realistic_size amount (MaxCapacity policy)"
    and "ScaleUp policy = Some rules" "UtilizationThresholdPercent rules = Some threshold"
    and "StepPercent rules = Some step" "0 \<le> step" "step \<le> 100"
    and "MinStepAbsolute rules = Some minStep" "realistic_size amount minStep" "2 ^ 30 \<le> amount minStep"
    and "reason = ScalingReasonSpaceThreshold \<or> reason = ScalingReasonInodesThreshold"
    and "run_state (recommendResize Q p reason policy vr agg) s = (r, s')"
  shows "\<exists>t agg'. r = Some (t, agg') \<and> (t \<noteq> None \<longleftrightarrow> \<not> isAtMaxCapacity Q p policy) \<and>
    (\<forall>q. t = Some q \<longrightarrow> min (amount (specSize Q p) + amount minStep) (amount (MaxCapacity policy)) \<le> amount q \<and>
       amount (specSize Q p) < amount q \<and> amount q \<le> of_int (Value Q (MaxCapacity policy)) \<and>
       (q = MaxCapacity policy \<or> (\<exists>k. amount q = of_int (k * ScalingResolutionBytes))))"
proof -
  note ok = realistic_size_ok [OF assms(2)] realistic_size_ok [OF assms(3)]
  define n where "n = targetSizeBytes (Value Q (specSize Q p)) step (Value Q minStep)"
  note t = target_above_spec [OF assms(1,2,10,11,7,8), folded n_def]
  note v = Value_target [OF assms(1) ok(1) t(3,4) int64_targetSizeBytes [of "Value Q (specSize Q p)" step "Value Q minStep", folded n_def]]
  have h: "\<not> isAtMaxCapacity Q p policy" if "n \<le> Value Q (MaxCapacity policy)"
    using that t(1) by (simp add: isAtMaxCapacity_iff [OF assms(1) ok] ScalingResolutionBytes_def)
  let ?R = "\<lambda>r. \<exists>t agg'. r = Some (t, agg') \<and> (t \<noteq> None \<longleftrightarrow> \<not> isAtMaxCapacity Q p policy) \<and>
    (\<forall>q. t = Some q \<longrightarrow> min (amount (specSize Q p) + amount minStep) (amount (MaxCapacity policy)) \<le> amount q)"
  have "valid (recommendResize Q p reason policy vr agg) (note_effect p) ?R"
    unfolding recommendResize_def Let_def
    by (intro valid_bind [OF valid_recordMaxCapacityReached [where R = "\<lambda>r. r \<noteq> None"]] vcg)
      (use assms(4-6,9,12) t [unfolded n_def] v [unfolded n_def] h [unfolded n_def] in \<open>auto simp: not_less\<close>)
  from validD(1) [OF this assms(13)] validD(1) [OF valid_recommendResize [OF assms(1) ok] assms(13)] show ?thesis
    unfolding grown_size_def by blast
qed

text \<open>
  C10: A claim whose threshold is passed gets a target size if and only if the maximum capacity
  leaves at least 1 GiB above its request (the same test that the gauge \<open>pvc_at_max_capacity\<close>
  exports), for sizes up to 4 PiB and a minimal step of at least 1 GiB. The target then grows
  the request by at least the minimal step or up to the maximum capacity, never beyond it, and is
  a multiple of 1 GiB unless it is the maximum capacity itself.
\<close>

theorem recommend_iff_headroom:
  assumes "quantity_laws Q amount" "realistic_size amount (specSize Q p)" "realistic_size amount (MaxCapacity policy)"
    and "ScaleUp policy = Some rules" "UtilizationThresholdPercent rules = Some threshold"
    and "StepPercent rules = Some step" "0 \<le> step" "step \<le> 100"
    and "MinStepAbsolute rules = Some minStep" "realistic_size amount minStep" "2 ^ 30 \<le> amount minStep"
    and "reason = ScalingReasonSpaceThreshold \<or> reason = ScalingReasonInodesThreshold"
    and "run_state (recommendResize Q p reason policy vr agg) s = (r, s')"
  shows "\<exists>t agg'. r = Some (t, agg') \<and> (t \<noteq> None \<longleftrightarrow> \<not> isAtMaxCapacity Q p policy) \<and>
    (\<forall>q. t = Some q \<longrightarrow> min (amount (specSize Q p) + amount minStep) (amount (MaxCapacity policy)) \<le> amount q \<and>
       amount (specSize Q p) < amount q \<and> amount q \<le> of_int (Value Q (MaxCapacity policy)) \<and>
       (q = MaxCapacity policy \<or> (\<exists>k. amount q = of_int (k * ScalingResolutionBytes))))"
  by (rule recommendResize_headroom [OF assms])

theorem recommend_iff_headroom_witness:
  "\<exists>q agg' s'. run_state (recommendResize byte_quantities (example_pvc (10 * 2 ^ 30)) ScalingReasonSpaceThreshold
      (example_policy ''*'' (2 ^ 40)) (new_VolumeRecommendation ''data'') no_res_conditions)
      (start_state (example_cluster (10 * 2 ^ 30))) = (Some (Some q, agg'), s') \<and> (11 * 2 ^ 30 :: rat) \<le> of_int q"
proof -
  let ?s = "start_state (example_cluster (10 * 2 ^ 30)) :: (int, int cluster) rstate"
  let ?m = "recommendResize byte_quantities (example_pvc (10 * 2 ^ 30)) ScalingReasonSpaceThreshold
      (example_policy ''*'' (2 ^ 40)) (new_VolumeRecommendation ''data'') no_res_conditions"
  obtain r s' where run: "run_state ?m ?s = (r, s')" by fastforce
  have "\<not> isAtMaxCapacity byte_quantities (example_pvc (10 * 2 ^ 30)) (example_policy ''*'' (2 ^ 40))"
    by (simp add: isAtMaxCapacity_def wrap64_def ScalingResolutionBytes_def)
  then obtain q agg' where "r = Some (Some q, agg')" "min (10 * 2 ^ 30 + 2 ^ 30) (2 ^ 40 :: rat) \<le> of_int q"
    using recommend_iff_headroom [OF byte_quantities_laws _ _ _ _ _ _ _ _ _ _ _ run,
        of "example_rules PreferInPlaceVolumeResizeStrategy" 80 10 "2 ^ 30"] by (auto simp: realistic_size_def)
  then show ?thesis using run by auto
qed

text \<open>
  The only patch of a resize, whatever the server answers to it.
\<close>

lemma resizePVC_only_patch:
  assumes "run_state (resizePVC Q c p why q vr agg) s = (x, s')" "pvc_requests p = Some m" "effects s = []"
  shows "filter (\<lambda>e. \<exists>lock old new. e = PatchPVC lock old new) (effects s') = [PatchPVC False p (resized Q p m q)]"
  using assms
  by (auto simp: resizePVC_def resized_def Let_def run_simps patch_pvc_def with_request_def split: prod.splits sum.splits)

lemma progress_by_annotation:
  assumes "quantity_laws Q amount" "pvc_annotations p2 AnnotationPreviousSize = Some (QuantityString Q q)"
  shows "fst (isResizeInProgress Q p2 reason agg) \<longleftrightarrow>
    IsPersistentVolumeClaimConditionTrue p2 PVCResizing \<or> IsPersistentVolumeClaimConditionTrue p2 PVCFileSystemResizePending \<or>
    IsPersistentVolumeClaimConditionTrue p2 PVCVolumeModifyingVolume \<or> amount (statusSize Q p2) = amount q"
proof -
  obtain f where "ParseQuantity Q (QuantityString Q q) = Inr f" "amount f = amount q"
    using quantity_lawsD(8) [OF assms(1)] by blast
  then show ?thesis
    using assms(2) by (auto simp: isResizeInProgress_def Let_def quantity_lawsD(4) [OF assms(1)])
qed

text \<open>
  C28: When the runner considers a claim that it has resized as still being resized. A resize of
  \<open>p\<close>, whatever the server answers, sends exactly one patch of a claim, without lock and of \<open>p\<close>, to a claim \<open>new\<close> with the
  target size as request. Every later version of the claim that still carries the
  annotation of \<open>new\<close> counts as in progress exactly when one of the three resize conditions is true or its capacity
  equals the request that \<open>p\<close> had before the resize. So a claim whose request equalled its
  capacity is not resized again until the capacity changes.
\<close>

theorem resize_in_progress_iff:
  assumes "quantity_laws Q amount" "run_state (resizePVC Q c p why q vr agg) s = (x, s')"
    and "effects s = []" "pvc_requests p \<noteq> None"
  shows "\<exists>new. filter (\<lambda>e. \<exists>lock old new'. e = PatchPVC lock old new') (effects s') = [PatchPVC False p new] \<and>
    specSize Q new = q \<and>
    (\<forall>p2 reason agg'. pvc_annotations p2 AnnotationPreviousSize = pvc_annotations new AnnotationPreviousSize \<longrightarrow>
       (fst (isResizeInProgress Q p2 reason agg') \<longleftrightarrow>
          IsPersistentVolumeClaimConditionTrue p2 PVCResizing \<or> IsPersistentVolumeClaimConditionTrue p2 PVCFileSystemResizePending \<or>
          IsPersistentVolumeClaimConditionTrue p2 PVCVolumeModifyingVolume \<or> amount (statusSize Q p2) = amount (specSize Q p)))"
proof -
  obtain m where m: "pvc_requests p = Some m" using assms(4) by blast
  have new: "specSize Q (resized Q p m q) = q"
      "pvc_annotations (resized Q p m q) AnnotationPreviousSize = Some (QuantityString Q (specSize Q p))"
    by (simp_all add: resized_def)
  from resizePVC_only_patch [OF assms(2) m assms(3)] new progress_by_annotation [OF assms(1)] show ?thesis
    by (intro exI [of _ "resized Q p m q"]) simp
qed

theorem resize_in_progress_iff_witness:
  "\<exists>x s' new. run_state (resizePVC byte_quantities memory_client (example_pvc (10 * 2 ^ 30)) '''' (12 * 2 ^ 30)
      (new_VolumeRecommendation ''data'') no_res_conditions) (start_state (example_cluster (10 * 2 ^ 30))) = (x, s') \<and>
     PatchPVC False (example_pvc (10 * 2 ^ 30)) new \<in> set (effects s') \<and>
     fst (isResizeInProgress byte_quantities (new\<lparr>pvc_conditions := [], pvc_capacity := [ResourceStorage \<mapsto> 10 * 2 ^ 30]\<rparr>) '''' no_res_conditions) \<and>
     \<not> fst (isResizeInProgress byte_quantities (new\<lparr>pvc_conditions := [], pvc_capacity := [ResourceStorage \<mapsto> 12 * 2 ^ 30]\<rparr>) '''' no_res_conditions)"
proof -
  let ?s = "start_state (example_cluster (10 * 2 ^ 30)) :: (int, int cluster) rstate" and ?p = "example_pvc (10 * 2 ^ 30)"
  obtain x s' where run: "run_state (resizePVC byte_quantities memory_client ?p '''' (12 * 2 ^ 30)
      (new_VolumeRecommendation ''data'') no_res_conditions) ?s = (x, s')" by fastforce
  have "effects ?s = []" "pvc_requests ?p \<noteq> None" by (simp_all add: start_state_def example_pvc_def)
  from resize_in_progress_iff [OF byte_quantities_laws run this] obtain new where
    one: "filter (\<lambda>e. \<exists>lock old new'. e = PatchPVC lock old new') (effects s') = [PatchPVC False ?p new]" and
    iff: "\<And>p2 reason agg'. pvc_annotations p2 AnnotationPreviousSize = pvc_annotations new AnnotationPreviousSize \<Longrightarrow>
       fst (isResizeInProgress byte_quantities p2 reason agg') \<longleftrightarrow>
          IsPersistentVolumeClaimConditionTrue p2 PVCResizing \<or> IsPersistentVolumeClaimConditionTrue p2 PVCFileSystemResizePending \<or>
          IsPersistentVolumeClaimConditionTrue p2 PVCVolumeModifyingVolume \<or>
          (of_int (statusSize byte_quantities p2) :: rat) = of_int (specSize byte_quantities ?p)"
    by blast
  from arg_cong [where f = set, OF one] have sent: "PatchPVC False ?p new \<in> set (effects s')" by auto
  have c: "\<not> IsPersistentVolumeClaimConditionTrue (new\<lparr>pvc_conditions := [], pvc_capacity := b\<rparr>) t" for b t
    by (simp add: pvc_condition_defs)
  have "statusSize byte_quantities (new\<lparr>pvc_conditions := [], pvc_capacity := [ResourceStorage \<mapsto> n]\<rparr>) = n" for n
    by (simp add: statusSize_def Storage_def)
  with run sent show ?thesis by (intro exI [of _ x] exI [of _ s'] exI [of _ new]) (simp add: iff c)
qed

text \<open>
  The cooldown holds a claim back exactly when the strategy is not \<open>Off\<close>, a cooldown and
  a last resize are recorded, and less than the cooldown has elapsed since; deciding it has no
  effects, and a condition with the cooldown reason is added exactly then.
\<close>

lemma cooldown_iff:
  "run_state (isInCooldown c p rules vr agg) s =
     (let held = ResizeStrategy rules \<noteq> OffVolumeResizeStrategy \<and>
        (case (CooldownDuration rules, LastResizeTime vr) of
           (Some d, Some t) \<Rightarrow> Now c (world s) < t + d | _ \<Rightarrow> False)
      in (held, if held then res_addCondition (Condition ConditionTypeResizing ConditionFalse ReasonPVCResizeCooldown
            (pvc_name p @ '': cooldown duration has not elapsed yet'')) agg else agg), s)"
  by (auto simp: isInCooldown_def run_simps Let_def split: option.split)

text \<open>
  A claim passes validation exactly when its capacity is known and not above the maximum,
  its storage class exists and allows expansion, its volume mode is a filesystem (or not given)
  and it is bound; validation has no effects.
\<close>

lemma validate_iff:
  "fst (run_state (validatePVC Q c p policy) s) = None \<longleftrightarrow>
     \<not> IsZero Q (statusSize Q p) \<and> Value Q (statusSize Q p) \<le> Value Q (MaxCapacity policy) \<and>
     (\<exists>n sc. pvc_storageClassName p = Some n \<and> n \<noteq> '''' \<and> fst (Get_StorageClass c n (world s)) = Inr sc \<and>
        sc_allowVolumeExpansion sc = Some True) \<and>
     (pvc_volumeMode p = None \<or> pvc_volumeMode p = Some ''Filesystem'') \<and> pvc_phase p = ''Bound''"
  by (auto simp: validatePVC_def Let_def run_simps not_less split: option.splits prod.splits sum.splits if_splits)

end
