(* ===== verification/Expansion_Failure.thy ===== *)
theory Expansion_Failure
  imports Sizes Metrics Example_Cluster
begin

text \<open>
  \<^verbatim>\<open>internal/expansionfailure\<close>: recognising a volume expansion that the storage provider
  refused, and reducing the requested storage to a half step above the current capacity. A
  write to the nil map of requests is the panic \<open>None\<close>. The claim is mutated in place, so
  \<open>Recover\<close> also returns it: the server's answer after a successful patch.
\<close>

definition ReasonResizeFailureRecovery :: string where
  "ReasonResizeFailureRecovery = ''ResizeFailureRecovery''"

definition resizeLimitErrorFragments :: "string list" where
  "resizeLimitErrorFragments =
     [''is out of range. the value must be between'',
      ''is too large for volume type'',
      ''must be less than or equal to'',
      ''volumesizeexceedslimit'',
      ''is larger than maximum allowed limit'']"

definition isResizeInfeasible :: "'q pvc \<Rightarrow> bool" where
  "isResizeInfeasible obj \<longleftrightarrow>
     (case pvc_allocatedResourceStatuses obj ResourceStorage of
        None \<Rightarrow> False
      | Some status \<Rightarrow> status = ControllerResizeInfeasible \<or> status = NodeResizeInfeasible)"

definition hasResizeLimitError :: "'q pvc \<Rightarrow> bool" where
  "hasResizeLimitError obj \<longleftrightarrow>
     (let condition = GetPersistentVolumeClaimCondition obj PVCControllerResizeError
      in if pc_status condition \<noteq> ConditionTrue then False
         else let message = ToLower (pc_message condition)
              in list_ex (\<lambda>fragment. Contains message fragment) resizeLimitErrorFragments)"

definition ShouldRecover :: "'q pvc \<Rightarrow> bool" where
  "ShouldRecover obj \<longleftrightarrow> isResizeInfeasible obj \<or> hasResizeLimitError obj"

section \<open>The reduced size\<close>

definition recoveryIncrement :: "int \<Rightarrow> int" where
  "recoveryIncrement failedStep =
     to_int64 (max (of_int64 ScalingResolutionBytes) (float64 (of_int64 failedStep / 2)))"

definition newTargetBytes :: "int \<Rightarrow> int \<Rightarrow> int" where
  "newTargetBytes statusCapacity currSpec =
     round_up_gi (of_int64 (wrap64 (statusCapacity + recoveryIncrement (wrap64 (currSpec - statusCapacity)))))"

text \<open>The event recorder of a \<^verbatim>\<open>Recoverer\<close> is the effect \<open>Eventf\<close>.\<close>

record ('q, 'w) Recoverer =
  rv_client :: "('q, 'w) client"

definition Recoverer_New :: "('q, 'w) client \<Rightarrow> ('q, 'w) Recoverer" where
  "Recoverer_New c = \<lparr>rv_client = c\<rparr>"

lemma rv_client_New [simp]: "rv_client (Recoverer_New c) = c"
  by (simp add: Recoverer_New_def)

definition Recover ::
  "'q quantity_ops \<Rightarrow> ('q, 'w) Recoverer \<Rightarrow> 'q pvc \<Rightarrow> 'q VolumeRecommendation \<Rightarrow>
    ('q, 'w, ('q pvc \<times> 'q VolumeRecommendation \<times> condition option \<times> go_error option) option) prog" where
  "Recover Q rv p vr = do {
     _ \<leftarrow> emit (CounterInc ResizeFailureRecoveryTotal [pvc_namespace p, pvc_name p]);
     let currSpecSize = specSize Q p;
     let statusCapacitySize = statusSize Q p;
     if IsZero Q statusCapacitySize then ret (Some (p, vr, None, None))
     else do {
       let targetSize = NewQuantity Q (newTargetBytes (Value Q statusCapacitySize) (Value Q currSpecSize));
       if Cmp Q targetSize currSpecSize \<ge> 0 then ret (Some (p, vr, None, None))
       else do {
         let resizeStatus = (case pvc_allocatedResourceStatuses p ResourceStorage of Some s \<Rightarrow> s | None \<Rightarrow> '''');
         _ \<leftarrow> emit (Eventf (pvc_key p) ''Warning'' ''ResizeFailureRecovery''
           (''reducing requested storage from '' @ QuantityString Q currSpecSize @ '' to '' @
            QuantityString Q targetSize @ '' because volume expansion failed: '' @ resizeStatus));
         case pvc_requests p of
           None \<Rightarrow> ret None
         | Some requests \<Rightarrow> do {
             let p' = with_request p requests targetSize;
             r \<leftarrow> patch_pvc (rv_client rv) True p p';
             ret (Some (case r of
               Inl err \<Rightarrow>
                 if IsConflict err then (p', vr, None, None)
                 else (p', vr, Some (Condition ConditionTypeResizing ConditionFalse ReasonResizeFailureRecovery
                   (pvc_name p' @ '': failed to reduce requested storage from '' @ QuantityString Q currSpecSize @
                    '' to '' @ QuantityString Q targetSize @ '' after failed resize: '' @ Error err)), Some err)
             | Inr p'' \<Rightarrow>
                 (p'', vr\<lparr>Target := \<lparr>target_size = Some targetSize\<rparr>\<rparr>,
                  Some (Condition ConditionTypeResizing ConditionTrue ReasonResizeFailureRecovery
                   (pvc_name p'' @ '': reduced requested storage from '' @ QuantityString Q currSpecSize @
                    '' to '' @ QuantityString Q targetSize @ '' after failed resize ('' @ resizeStatus @ '')'')), None)))
           }
       }
     }
   }"

section \<open>The size lies between the capacity and the request\<close>

lemma float64_half: "float64 (float64 x / 2) = float64 x / 2"
  using float64_scale [of "float64 x" "- 1"] by (simp add: float64_idem)

lemma recoveryIncrement_bounds:
  assumes "\<bar>d\<bar> \<le> 2 ^ 62"
  shows "2 ^ 30 \<le> recoveryIncrement d" "recoveryIncrement d \<le> 2 ^ 61"
    "of_int (recoveryIncrement d) \<le> max (2 ^ 30) (of_int d / 2 + 2 ^ 9 :: rat)"
proof -
  define m where "m = max (2 ^ 30) (of_int64 d / 2)"
  have res: "of_int64 ScalingResolutionBytes = 2 ^ 30"
    using float64_pow2 [of 30] by (simp add: of_int64_def ScalingResolutionBytes_def)
  have "of_int d \<le> (2 ^ 62 :: rat)" using assms by (metis abs_le_D1 of_int_le_iff of_int_numeral of_int_power)
  then have "of_int64 d \<le> 2 ^ 62" using float64_mono [of "of_int d" "2 ^ 62"] float64_pow2 [of 62] by (simp add: of_int64_def)
  then have m: "2 ^ 30 \<le> m" "m \<le> 2 ^ 61" by (auto simp: m_def)
  have t: "trunc m = \<lfloor>m\<rfloor>" using m(1) by (simp add: trunc_def)
  have f: "2 ^ 30 \<le> \<lfloor>m\<rfloor>" "\<lfloor>m\<rfloor> \<le> 2 ^ 61" using m by (simp_all add: le_floor_iff floor_le_iff) 
  have "int64 k" if "2 ^ 30 \<le> k" "k \<le> 2 ^ 61" for k using that by (simp add: int64_def)
  from this [OF f] have "int64 \<lfloor>m\<rfloor>" .
  moreover have "max (of_int64 ScalingResolutionBytes) (float64 (of_int64 d / 2)) = m"
    unfolding res m_def by (simp only: of_int64_def float64_half)
  ultimately have i: "recoveryIncrement d = \<lfloor>m\<rfloor>"
    by (simp add: recoveryIncrement_def to_int64_def t)
  show "2 ^ 30 \<le> recoveryIncrement d" "recoveryIncrement d \<le> 2 ^ 61" using f i by simp_all
  have "of_int64 d \<le> of_int d + 2 ^ 10" using of_int64_error [of d] assms by simp
  then have "m \<le> max (2 ^ 30) (of_int d / 2 + 2 ^ 9)" unfolding m_def by (intro max.mono) simp_all
  then show "of_int (recoveryIncrement d) \<le> max (2 ^ 30) (of_int d / 2 + 2 ^ 9 :: rat)"
    using i of_int_floor_le [of m] by (simp del: of_int_floor_le)
qed

lemma newTargetBytes_bounds:
  assumes "0 \<le> c" "c \<le> 2 ^ 62" "0 \<le> s" "s \<le> 2 ^ 62"
  shows "c < newTargetBytes c s" "2 ^ 30 dvd newTargetBytes c s"
    "(of_int (newTargetBytes c s) :: rat) < of_int c + max (2 ^ 30) (of_int (s - c) / 2) + 2 ^ 30 + 2 ^ 11"
proof -
  define i where "i = recoveryIncrement (s - c)"
  have d: "wrap64 (s - c) = s - c" by (rule wrap64_id) (use assms in \<open>simp add: int64_def\<close>)
  note I = recoveryIncrement_bounds [of "s - c", folded i_def]
  have i: "2 ^ 30 \<le> i" "i \<le> 2 ^ 61" "of_int i \<le> max (2 ^ 30) (of_int (s - c) / 2 + 2 ^ 9 :: rat)"
    using I assms by (simp_all add: abs_le_iff)
  have w: "wrap64 (c + i) = c + i" by (rule wrap64_id) (use assms i in \<open>simp add: int64_def\<close>)
  define x where "x = of_int64 (c + i)"
  have t: "newTargetBytes c s = round_up_gi x"
    by (simp add: newTargetBytes_def d i_def [symmetric] w x_def)
  have ci: "(of_int (c + i) :: rat) \<le> 2 ^ 62 + 2 ^ 61" "of_int c + 2 ^ 30 \<le> (of_int (c + i) :: rat)" "0 \<le> (of_int c :: rat)"
  proof -
    have "(of_int (c + i) :: rat) \<le> of_int (2 ^ 62 + 2 ^ 61)" using assms i by (subst of_int_le_iff) simp
    then show "(of_int (c + i) :: rat) \<le> 2 ^ 62 + 2 ^ 61" by simp
    have "(of_int (c + 2 ^ 30) :: rat) \<le> of_int (c + i)" using i by (subst of_int_le_iff) simp
    then show "of_int c + 2 ^ 30 \<le> (of_int (c + i) :: rat)" by simp
  qed (use assms in simp)
  have e: "\<bar>x - of_int (c + i)\<bar> \<le> 2 ^ 10" unfolding x_def by (rule of_int64_error) (use assms i in simp)
  have r: "x \<le> of_int (round_up_gi x)" "of_int (round_up_gi x) < x + 2 ^ 30"
    unfolding x_def of_int64_def
    by (rule round_up_gi_bounds; use e ci in \<open>simp add: x_def of_int64_def\<close>)+
  have "(of_int c :: rat) < of_int (round_up_gi x)" using r(1) e ci by (simp add: abs_le_iff)
  then show "c < newTargetBytes c s" by (simp add: t)
  show "2 ^ 30 dvd newTargetBytes c s" by (simp only: t round_up_gi_dvd)
  define A :: rat where "A = max (2 ^ 30) (of_int (s - c) / 2 + 2 ^ 9)"
  define B :: rat where "B = max (2 ^ 30) (of_int (s - c) / 2)"
  have "A \<le> B + 2 ^ 9" by (auto simp: A_def B_def)
  moreover have "x \<le> of_int c + of_int i + 2 ^ 10" using e by (simp add: abs_le_iff)
  ultimately have "of_int (round_up_gi x) < of_int c + B + 2 ^ 30 + 2 ^ 11"
    using r(2) i(3) [folded A_def] by simp
  then show "(of_int (newTargetBytes c s) :: rat) < of_int c + max (2 ^ 30) (of_int (s - c) / 2) + 2 ^ 30 + 2 ^ 11"
    by (simp only: t B_def)
qed

section \<open>The contract of Recover\<close>

text \<open>
  The effects of a recovery: counters and events, and one patch under optimistic locking that
  changes the storage request only, to a multiple of the resolution strictly between the
  capacity and the request. The recommendation changes in its target only.
\<close>

definition recovered_size :: "'q quantity_ops \<Rightarrow> ('q \<Rightarrow> rat) \<Rightarrow> 'q pvc \<Rightarrow> 'q \<Rightarrow> bool" where
  "recovered_size Q amount p q \<longleftrightarrow>
     amount (statusSize Q p) < amount q \<and> amount q < amount (specSize Q p) \<and>
     (\<exists>k. amount q = of_int (k * ScalingResolutionBytes))"

definition recover_effect :: "'q quantity_ops \<Rightarrow> ('q \<Rightarrow> rat) \<Rightarrow> 'q pvc \<Rightarrow> 'q effect \<Rightarrow> bool" where
  "recover_effect Q amount p e \<longleftrightarrow> well_labelled e \<and>
     (case e of
        PatchPVC lock old new \<Rightarrow>
          lock \<and> old = p \<and> (\<exists>m q. pvc_requests p = Some m \<and> new = with_request p m q \<and> recovered_size Q amount p q)
      | CounterInc m ls \<Rightarrow> True | Eventf k t r m \<Rightarrow> k = pvc_key p | _ \<Rightarrow> False)"

definition recover_result ::
  "'q quantity_ops \<Rightarrow> ('q \<Rightarrow> rat) \<Rightarrow> 'q pvc \<Rightarrow> 'q VolumeRecommendation \<Rightarrow>
    'q pvc \<times> 'q VolumeRecommendation \<times> condition option \<times> go_error option \<Rightarrow> bool" where
  "recover_result Q amount p vr =
     (\<lambda>(p', vr', cond, err). pvc_key p' = pvc_key p \<and>
        (vr' = vr \<and> cond = None \<and> err = None \<or>
         vr' = vr \<and> err \<noteq> None \<and> (\<exists>c. cond = Some c \<and> c_status c = ConditionFalse) \<or>
         err = None \<and> (\<exists>q c. vr' = vr\<lparr>Target := \<lparr>target_size = Some q\<rparr>\<rparr> \<and> recovered_size Q amount p q \<and>
                cond = Some c \<and> c_status c = ConditionTrue)))"

lemma recovered_sizeI:
  assumes "quantity_laws Q amount" "size_ok amount (statusSize Q p)" "size_ok amount (specSize Q p)"
    and "\<not> 0 \<le> Cmp Q (NewQuantity Q (newTargetBytes (Value Q (statusSize Q p)) (Value Q (specSize Q p)))) (specSize Q p)"
  shows "recovered_size Q amount p (NewQuantity Q (newTargetBytes (Value Q (statusSize Q p)) (Value Q (specSize Q p))))"
proof -
  define t where "t = newTargetBytes (Value Q (statusSize Q p)) (Value Q (specSize Q p))"
  note v = Value_size_ok [OF assms(1,2)] and w = Value_size_ok [OF assms(1,3)]
  have t: "Value Q (statusSize Q p) < t" "2 ^ 30 dvd t"
    using newTargetBytes_bounds [of "Value Q (statusSize Q p)" "Value Q (specSize Q p)"] v w by (auto simp: t_def)
  have a: "amount (NewQuantity Q t) = of_int t"
    by (rule quantity_lawsD(5) [OF assms(1)]) (simp add: t_def newTargetBytes_def int64_round_up_gi)
  have "(of_int (Value Q (statusSize Q p)) :: rat) < of_int t" using t(1) by simp
  then have "amount (statusSize Q p) < of_int t" using v(4) by linarith
  moreover from t(2) have "\<exists>k. t = k * ScalingResolutionBytes"
    by (auto simp: dvd_def ScalingResolutionBytes_def)
  ultimately show ?thesis
    using assms(4) a unfolding t_def [symmetric] by (auto simp: recovered_size_def Cmp_ge_iff [OF assms(1)])
qed

text \<open>A claim without storage requests is never recovered, so the write to the nil map cannot happen.\<close>

lemma recovered_size_requests:
  assumes "quantity_laws Q amount" "size_ok amount (statusSize Q p)" "recovered_size Q amount p q"
  shows "\<exists>m. pvc_requests p = Some m"
  using assms by (cases "pvc_requests p")
    (auto simp: recovered_size_def specSize_def Storage_def size_ok_def quantity_lawsD(7) [OF assms(1)])

lemma valid_Recover:
  assumes "quantity_laws Q amount" "size_ok amount (statusSize Q p)" "size_ok amount (specSize Q p)" "keeps_identity c"
  shows "valid (Recover Q (Recoverer_New c) p vr) (recover_effect Q amount p) (\<lambda>r. \<exists>x. r = Some x \<and> recover_result Q amount p vr x)"
proof -
  define t where "t = NewQuantity Q (newTargetBytes (Value Q (statusSize Q p)) (Value Q (specSize Q p)))"
  have r: "recovered_size Q amount p t" if "\<not> 0 \<le> Cmp Q t (specSize Q p)"
    using recovered_sizeI [OF assms(1-3)] that by (simp add: t_def)
  have m: "pvc_requests p \<noteq> None" if "\<not> 0 \<le> Cmp Q t (specSize Q p)"
    using recovered_size_requests [OF assms(1,2) r [OF that]] by auto
  show ?thesis
    unfolding Recover_def Let_def rv_client_New t_def [symmetric]
    by (intro valid_patch_then [OF assms(4)] vcg) (use r m in \<open>auto simp: recover_effect_def recover_result_def\<close>)
qed

text \<open>
  C20: Recovery from a failed expansion is safe: for sizes up to \<^verbatim>\<open>2^62\<close> bytes it never panics,
  and every patch it sends uses optimistic locking, changes nothing but the storage request,
  and sets it to a multiple of 1 GiB strictly between the current capacity and the failed
  request, so it neither shrinks the volume nor repeats the failed size.
\<close>

theorem recover_within_bounds:
  assumes "quantity_laws Q amount" "keeps_identity c"
    and "size_ok amount (statusSize Q p)" "size_ok amount (specSize Q p)"
    and "run_state (Recover Q (Recoverer_New c) p vr) s = (r, s')"
  shows "r \<noteq> None \<and> (\<exists>es. effects s' = effects s @ es \<and>
    (\<forall>lock old new. PatchPVC lock old new \<in> set es \<longrightarrow>
      lock \<and> old = p \<and> (\<exists>m q. pvc_requests p = Some m \<and> new = with_request p m q \<and>
        amount (statusSize Q p) < amount q \<and> amount q < amount (specSize Q p) \<and>
        (\<exists>k. amount q = of_int (k * ScalingResolutionBytes)))))"
proof -
  from validD [OF valid_Recover [OF assms(1,3,4,2)] assms(5)]
  obtain es where "r \<noteq> None" "effects s' = effects s @ es" "list_all (recover_effect Q amount p) es" by blast
  then show ?thesis
    by (intro conjI exI [of _ es]) (auto simp: list_all_iff recover_effect_def recovered_size_def dest!: bspec)
qed

text \<open>A run of the recovery of a claim with 10 GiB capacity.\<close>

lemma example_recovery:
  assumes t: "newTargetBytes (10 * 2 ^ 30) request = target" and less: "target < request"
  shows "\<exists>x s'. run_state (Recover byte_quantities (Recoverer_New memory_client) (example_pvc request) (new_VolumeRecommendation ''data''))
     (start_state (example_cluster request)) = (Some x, s') \<and>
   PatchPVC True (example_pvc request) (example_pvc target) \<in> set (effects s')"
proof -
  have w: "with_request (example_pvc request) [ResourceStorage \<mapsto> request] target = example_pvc target"
    by (simp add: with_request_def example_pvc_def)
  have t': "newTargetBytes 10737418240 request = target" using t by simp
  show ?thesis
    using less by (simp add: Recover_def run_simps Let_def t' w patch_pvc_def start_state_def example_cluster_def)
qed

theorem recover_within_bounds_witness:
  "\<exists>x s' new. run_state (Recover byte_quantities (Recoverer_New memory_client) (example_pvc (20 * 2 ^ 30)) (new_VolumeRecommendation ''data''))
     (start_state (example_cluster (20 * 2 ^ 30))) = (Some x, s') \<and>
   PatchPVC True (example_pvc (20 * 2 ^ 30)) new \<in> set (effects s') \<and>
   10 * 2 ^ 30 < specSize byte_quantities new \<and> specSize byte_quantities new < 20 * 2 ^ 30"
proof -
  have t: "newTargetBytes (10 * 2 ^ 30) (20 * 2 ^ 30) = 15 * 2 ^ 30" by code_simp
  obtain x s' where run: "run_state (Recover byte_quantities (Recoverer_New memory_client) (example_pvc (20 * 2 ^ 30)) (new_VolumeRecommendation ''data''))
     (start_state (example_cluster (20 * 2 ^ 30))) = (Some x, s')"
    and p: "PatchPVC True (example_pvc (20 * 2 ^ 30)) (example_pvc (15 * 2 ^ 30)) \<in> set (effects s')"
    using example_recovery [OF t] by auto
  have size: "size_ok of_int (statusSize byte_quantities (example_pvc (20 * 2 ^ 30)))"
    "size_ok of_int (specSize byte_quantities (example_pvc (20 * 2 ^ 30)))" by (simp_all add: size_ok_def)
  from recover_within_bounds [OF byte_quantities_laws memory_client_identity size run] p obtain q where
    "specSize byte_quantities (example_pvc (15 * 2 ^ 30)) = q" "(of_int (10 * 2 ^ 30) :: rat) < of_int q" "(of_int q :: rat) < of_int (20 * 2 ^ 30)"
    unfolding start_state_def example_sizes by (metis append_Nil rstate.select_convs(2) with_request_simps(1) example_sizes(1))
  with run p show ?thesis unfolding of_int_less_iff by blast
qed

text \<open>
  C22: The retry is a half step: the new request exceeds the capacity by less than half of the
  failed step (or 1 GiB when that is more), up to one unit of the resolution and the rounding of
  \<open>float64\<close>.
\<close>

theorem recovery_halves_step:
  assumes "0 \<le> capacity" "capacity \<le> 2 ^ 62" "0 \<le> request" "request \<le> 2 ^ 62"
  shows "capacity < newTargetBytes capacity request \<and> 2 ^ 30 dvd newTargetBytes capacity request \<and>
    (of_int (newTargetBytes capacity request - capacity) :: rat)
      < max (2 ^ 30) (of_int (request - capacity) / 2) + 2 ^ 30 + 2 ^ 11"
  using newTargetBytes_bounds [OF assms] by simp

theorem recovery_halves_step_witness:
  "newTargetBytes (10 * 2 ^ 30) (20 * 2 ^ 30) = 15 * 2 ^ 30 \<and> (10 * 2 ^ 30 :: int) < newTargetBytes (10 * 2 ^ 30) (20 * 2 ^ 30)"
proof -
  have "newTargetBytes (10 * 2 ^ 30) (20 * 2 ^ 30) = 15 * 2 ^ 30" by code_simp
  then show ?thesis using recovery_halves_step [of "10 * 2 ^ 30" "20 * 2 ^ 30"] by simp
qed

lemma recovery_chain_step:
  assumes "quantity_laws Q amount" "keeps_identity c" "size_ok amount (statusSize Q p)" "size_ok amount (specSize Q p)"
    and "run_state (Recover Q (Recoverer_New c) p vr) s = (r, s')" "effects s = []" "PatchPVC True old new \<in> set (effects s')"
  shows "old = p \<and> statusSize Q new = statusSize Q p \<and> amount (statusSize Q p) < amount (specSize Q new) \<and>
    amount (specSize Q new) < amount (specSize Q p) \<and> (\<exists>k. amount (specSize Q new) = of_int (k * ScalingResolutionBytes))"
proof -
  have "recover_effect Q amount p (PatchPVC True old new)"
    using valid_effects [OF valid_Recover [OF assms(1,3,4,2)] assms(5,7)] assms(6) by simp
  then show ?thesis by (auto simp: recover_effect_def recovered_size_def)
qed

text \<open>
  C21: Recovery ends. When each of \<open>n\<close> runs of \<open>Recover\<close> on a claim sends a patch and the next run
  starts from the patched claim (the capacity stays the same meanwhile), then \<open>n\<close> is at most the
  difference of the first request and the capacity in whole GiB plus one; after that \<open>Recover\<close>
  leaves the claim alone.
\<close>

theorem recovery_terminates:
  assumes "quantity_laws Q amount" "keeps_identity c"
    and "\<forall>i \<le> n. size_ok amount (statusSize Q (p i)) \<and> size_ok amount (specSize Q (p i))"
    and "\<forall>i < n. \<exists>vr s r s'. run_state (Recover Q (Recoverer_New c) (p i) vr) s = (r, s') \<and> effects s = [] \<and>
      PatchPVC True (p i) (p (Suc i)) \<in> set (effects s')"
  shows "int n \<le> max 0 (\<lfloor>(amount (specSize Q (p 0)) - amount (statusSize Q (p 0))) / 2 ^ 30\<rfloor> + 1)"
proof (cases n)
  case (Suc m)
  have step: "statusSize Q (p (Suc i)) = statusSize Q (p i) \<and> amount (statusSize Q (p i)) < amount (specSize Q (p (Suc i))) \<and>
      amount (specSize Q (p (Suc i))) < amount (specSize Q (p i)) \<and> (\<exists>k. amount (specSize Q (p (Suc i))) = of_int (k * ScalingResolutionBytes))"
    if i: "i < n" for i
  proof -
    obtain vr s r s' where "run_state (Recover Q (Recoverer_New c) (p i) vr) s = (r, s')" "effects s = []"
      "PatchPVC True (p i) (p (Suc i)) \<in> set (effects s')" using assms(4) i by blast
    with recovery_chain_step [OF assms(1,2)] assms(3) i show ?thesis by (meson less_imp_le)
  qed
  have "statusSize Q (p (Suc i)) = statusSize Q (p 0) \<and> amount (specSize Q (p (Suc i))) + of_nat i * 2 ^ 30 \<le> amount (specSize Q (p 1))"
    if "i < n" for i
    using that
  proof (induction i)
    case (Suc i)
    then obtain k l where kl: "amount (specSize Q (p (Suc (Suc i)))) = of_int (k * 2 ^ 30)" "amount (specSize Q (p (Suc i))) = of_int (l * 2 ^ 30)"
      using step [of i] step [of "Suc i"] by (auto simp: ScalingResolutionBytes_def)
    with step [OF Suc.prems] have "k * 2 ^ 30 < l * 2 ^ 30" by (metis of_int_less_iff)
    then have "k * 2 ^ 30 + 2 ^ 30 \<le> l * (2 ^ 30 :: int)" by simp
    then have "(of_int (k * 2 ^ 30 + 2 ^ 30) :: rat) \<le> of_int (l * 2 ^ 30)" by (simp only: of_int_le_iff)
    with Suc step [OF Suc.prems] kl show ?case by (simp add: algebra_simps)
  qed (use step [of 0] Suc in simp)
  from this [of m] Suc have "statusSize Q (p (Suc m)) = statusSize Q (p 0)" "amount (specSize Q (p (Suc m))) + of_nat m * 2 ^ 30 \<le> amount (specSize Q (p 1))"
    by simp_all
  with step [of m] step [of 0] Suc have "of_nat m * 2 ^ 30 < amount (specSize Q (p 0)) - amount (statusSize Q (p 0))" by simp
  then have "of_int (int m) \<le> (amount (specSize Q (p 0)) - amount (statusSize Q (p 0))) / 2 ^ 30" by (simp add: field_simps)
  then have "int m \<le> \<lfloor>(amount (specSize Q (p 0)) - amount (statusSize Q (p 0))) / 2 ^ 30\<rfloor>" by (simp only: le_floor_iff)
  then show ?thesis using Suc by simp
qed simp

theorem recovery_terminates_witness:
  "int 2 \<le> max 0 (\<lfloor>(of_int (specSize byte_quantities (example_pvc (20 * 2 ^ 30))) -
     of_int (statusSize byte_quantities (example_pvc (20 * 2 ^ 30)))) / (2 ^ 30 :: rat)\<rfloor> + 1)"
proof -
  let ?p = "\<lambda>i. example_pvc ([20 * 2 ^ 30, 15 * 2 ^ 30, 13 * 2 ^ 30] ! i)"
  have t: "newTargetBytes (10 * 2 ^ 30) (20 * 2 ^ 30) = 15 * 2 ^ 30" "newTargetBytes (10 * 2 ^ 30) (15 * 2 ^ 30) = 13 * 2 ^ 30"
    by code_simp+
  have "\<exists>vr s r s'. run_state (Recover byte_quantities (Recoverer_New memory_client) (?p i) vr) s = (r, s') \<and> effects s = [] \<and>
      PatchPVC True (?p i) (?p (Suc i)) \<in> set (effects s')" if "i < 2" for i
    using that example_recovery [OF t(1)] example_recovery [OF t(2)] by (fastforce simp: less_Suc_eq numeral_2_eq_2 start_state_def)
  then show ?thesis
    using recovery_terminates [OF byte_quantities_laws memory_client_identity, of 2 ?p]
    by (auto simp: size_ok_def le_Suc_eq numeral_2_eq_2)
qed

end
