(* ===== verification/Fetchers.thy ===== *)
theory Fetchers
  imports Kube_Client Example_Cluster
begin

text \<open>
  \<^verbatim>\<open>internal/target\<close>: finding the PVCs an autoscaler manages. \<^verbatim>\<open>selectorfetcher\<close> asks
  the scale subresource of the target for its label selector, \<^verbatim>\<open>pvcfetcher\<close> lists the pods
  of that selector and collects the claims they mount. The scale client, the REST mapper and
  the two parsers are parameters; a Go map is an association list, and \<open>order\<close> is the order in
  which it is iterated. The locale \<open>pvc_fetcher\<close> is the contract of the \<^verbatim>\<open>Fetcher\<close>
  interface on which the runner relies.
\<close>

section \<open>The selector of a scale target\<close>

type_synonym 'w scale_getter = "string \<Rightarrow> string \<Rightarrow> string \<Rightarrow> 'w \<Rightarrow> (go_error + string) \<times> 'w"
type_synonym rest_mapper = "string \<times> string \<Rightarrow> go_error + string list"

record 'w selectorFetcher =
  sf_scaleClient :: "'w scale_getter option"
  sf_restMapper :: "rest_mapper option"

definition WithScaleClient :: "'w scale_getter \<Rightarrow> 'w selectorFetcher \<Rightarrow> 'w selectorFetcher" where
  "WithScaleClient sc f = f\<lparr>sf_scaleClient := Some sc\<rparr>"

definition WithRESTMapper :: "rest_mapper \<Rightarrow> 'w selectorFetcher \<Rightarrow> 'w selectorFetcher" where
  "WithRESTMapper rm f = f\<lparr>sf_restMapper := Some rm\<rparr>"

definition selectorFetcher_New ::
  "('w selectorFetcher \<Rightarrow> 'w selectorFetcher) list \<Rightarrow> go_error + 'w selectorFetcher" where
  "selectorFetcher_New opts =
     (let f = fold (\<lambda>opt f. opt f) opts \<lparr>sf_scaleClient = None, sf_restMapper = None\<rparr>
      in if sf_scaleClient f = None then Inl (Sentinel ErrNoScaleClient)
         else if sf_restMapper f = None then Inl (Sentinel ErrNoRESTMapper)
         else Inr f)"

text \<open>The first mapping whose scale subresource can be read; all errors otherwise.\<close>

fun scale_loop ::
  "'w scale_getter \<Rightarrow> string \<Rightarrow> string \<Rightarrow> string list \<Rightarrow> go_error list \<Rightarrow> ('q, 'w, go_error + string) prog" where
  "scale_loop Scales namespace name [] errs = ret (Inl (Joined errs))"
| "scale_loop Scales namespace name (targetGR # mappings) errs = do {
     r \<leftarrow> api (Scales namespace targetGR name);
     case r of
       Inr selector \<Rightarrow> ret (Inr selector)
     | Inl err \<Rightarrow> scale_loop Scales namespace name mappings (errs @ [err])
   }"

definition scaleForResourceMappings ::
  "'w scale_getter \<Rightarrow> string \<Rightarrow> string \<Rightarrow> string list \<Rightarrow> ('q, 'w, go_error + string) prog" where
  "scaleForResourceMappings Scales namespace name mappings =
     (if mappings = [] then ret (Inl (ErrorString ''unrecognized resource''))
      else scale_loop Scales namespace name mappings [])"

record parsers =
  ParseGroupVersion :: "string \<Rightarrow> go_error + string"
  ParseSelector :: "string \<Rightarrow> go_error + string"
  ref_String :: "CrossVersionObjectReference \<Rightarrow> string"

text \<open>\<open>None\<close> is the panic of a fetcher that was not made by \<open>New\<close>.\<close>

definition selector_Fetch ::
  "parsers \<Rightarrow> 'w selectorFetcher \<Rightarrow> string \<Rightarrow> CrossVersionObjectReference \<Rightarrow>
    ('q, 'w, (go_error + string) option) prog" where
  "selector_Fetch P f namespace targetRef =
     (case ParseGroupVersion P (ref_apiVersion targetRef) of
        Inl err \<Rightarrow> ret (Some (Inl (Wrapped ''invalid API version in target reference'' err)))
      | Inr gr \<Rightarrow>
        (case sf_restMapper f of None \<Rightarrow> ret None | Some RESTMappings \<Rightarrow>
        (case RESTMappings (gr, ref_kind targetRef) of
           Inl err \<Rightarrow> ret (Some (Inl (Wrapped ''unable to determine resource for scale target reference'' err)))
         | Inr mappings \<Rightarrow>
           (case sf_scaleClient f of
              None \<Rightarrow> (if mappings = []
                then ret (Some (Inl (Wrapped (''could not get scale subresource for target '' @ ref_String P targetRef)
                       (ErrorString ''unrecognized resource'')))) else ret None)
            | Some Scales \<Rightarrow> do {
                r \<leftarrow> scaleForResourceMappings Scales namespace (ref_name targetRef) mappings;
                ret (Some (case r of
                  Inl err \<Rightarrow> Inl (Wrapped (''could not get scale subresource for target '' @ ref_String P targetRef) err)
                | Inr selector \<Rightarrow>
                    (case ParseSelector P selector of
                       Inl err \<Rightarrow> Inl (Wrapped (''could not parse label selector for target '' @ ref_String P targetRef) err)
                     | Inr labelSelector \<Rightarrow> Inr labelSelector)))
              }))))"

lemma valid_scale_loop: "(\<And>r. R r) \<Longrightarrow> valid (scale_loop Scales ns n ms errs) E R"
  by (induction ms arbitrary: errs) (auto intro!: vcg)

lemma valid_scaleForResourceMappings [vcg]: "(\<And>r. R r) \<Longrightarrow> valid (scaleForResourceMappings Scales ns n ms) E R"
  by (simp add: scaleForResourceMappings_def valid_scale_loop valid_ret)

text \<open>A fetcher that \<open>New\<close> accepted does not panic.\<close>

lemma valid_selector_Fetch:
  assumes "selectorFetcher_New opts = Inr f"
  shows "valid (selector_Fetch P f ns ref) (\<lambda>_. False) (\<lambda>r. \<exists>x. r = Some x)"
  using assms unfolding selector_Fetch_def selectorFetcher_New_def Let_def
  by (intro vcg) (auto split: if_splits)

section \<open>The claims of the target\<close>

type_synonym ('q, 'w) selector_fetch =
  "string \<Rightarrow> CrossVersionObjectReference \<Rightarrow> ('q, 'w, (go_error + string) option) prog"

record ('q, 'w) pvcFetcher =
  pf_client :: "('q, 'w) client option"
  pf_selectorFetcher :: "('q, 'w) selector_fetch option"

definition pvcFetcher_WithClient :: "('q, 'w) client \<Rightarrow> ('q, 'w) pvcFetcher \<Rightarrow> ('q, 'w) pvcFetcher" where
  "pvcFetcher_WithClient c f = f\<lparr>pf_client := Some c\<rparr>"

definition WithSelectorFetcher :: "('q, 'w) selector_fetch \<Rightarrow> ('q, 'w) pvcFetcher \<Rightarrow> ('q, 'w) pvcFetcher" where
  "WithSelectorFetcher sf f = f\<lparr>pf_selectorFetcher := Some sf\<rparr>"

definition pvcFetcher_New ::
  "(('q, 'w) pvcFetcher \<Rightarrow> ('q, 'w) pvcFetcher) list \<Rightarrow> go_error + ('q, 'w) pvcFetcher" where
  "pvcFetcher_New opts =
     (let f = fold (\<lambda>opt f. opt f) opts \<lparr>pf_client = None, pf_selectorFetcher = None\<rparr>
      in if pf_client f = None then Inl (Sentinel ErrNoClient)
         else if pf_selectorFetcher f = None then Inl (Sentinel ErrNoSelectorFetcher)
         else Inr f)"

text \<open>The two nested loops over the pods and their volumes, left with the first error.\<close>

type_synonym 'q pvc_map = "(string \<times> 'q pvc) list"

fun volumes_loop :: "('q, 'w) client \<Rightarrow> pod \<Rightarrow> volume list \<Rightarrow> 'q pvc_map \<Rightarrow> ('q, 'w, go_error + 'q pvc_map) prog" where
  "volumes_loop c pod [] pvcMap = ret (Inr pvcMap)"
| "volumes_loop c pod (None # volumes) pvcMap = volumes_loop c pod volumes pvcMap"
| "volumes_loop c pod (Some claimName # volumes) pvcMap =
     (let pvcKey = (pod_namespace pod, claimName) in
      if map_of pvcMap (NamespacedName_String pvcKey) \<noteq> None then volumes_loop c pod volumes pvcMap
      else do {
        r \<leftarrow> api (Get_PVC c pvcKey);
        case r of
          Inl err \<Rightarrow> ret (Inl (Wrapped (''failed to get PersistentVolumeClaim '' @ NamespacedName_String pvcKey @
            '' referenced by Pod '' @ NamespacedName_String (pod_key pod)) err))
        | Inr pvc \<Rightarrow> volumes_loop c pod volumes (pvcMap @ [(NamespacedName_String pvcKey, pvc)])
      })"

fun pods_loop :: "('q, 'w) client \<Rightarrow> pod list \<Rightarrow> 'q pvc_map \<Rightarrow> ('q, 'w, go_error + 'q pvc_map) prog" where
  "pods_loop c [] pvcMap = ret (Inr pvcMap)"
| "pods_loop c (pod # pods) pvcMap = do {
     r \<leftarrow> volumes_loop c pod (pod_volumes pod) pvcMap;
     case r of Inl err \<Rightarrow> ret (Inl err) | Inr pvcMap' \<Rightarrow> pods_loop c pods pvcMap'
   }"

definition getPVCsFromPods ::
  "('q, 'w) client \<Rightarrow> ('q pvc_map \<Rightarrow> 'q pvc_map) \<Rightarrow> pod list \<Rightarrow> ('q, 'w, go_error + 'q pvc list) prog" where
  "getPVCsFromPods c order pods = do {
     r \<leftarrow> pods_loop c pods [];
     ret (case r of Inl err \<Rightarrow> Inl err | Inr pvcMap \<Rightarrow> Inr (map snd (order pvcMap)))
   }"

text \<open>\<open>None\<close> is a panic of a fetcher with a missing part.\<close>

definition pvc_Fetch ::
  "(CrossVersionObjectReference \<Rightarrow> string) \<Rightarrow> ('q pvc_map \<Rightarrow> 'q pvc_map) \<Rightarrow> ('q, 'w) pvcFetcher \<Rightarrow> 'q pvca \<Rightarrow>
    ('q, 'w, (go_error + 'q pvc list) option) prog" where
  "pvc_Fetch refString order f pvca =
     (case pf_client f of None \<Rightarrow> ret None | Some c \<Rightarrow>
      if ref_kind (TargetRef (Spec pvca)) = ''PersistentVolumeClaim'' then do {
        let key = (pvca_namespace pvca, ref_name (TargetRef (Spec pvca)));
        r \<leftarrow> api (Get_PVC c key);
        ret (Some (case r of
          Inl err \<Rightarrow> Inl (Wrapped (''failed to get PersistentVolumeClaim '' @ NamespacedName_String key) err)
        | Inr pvc \<Rightarrow> Inr [pvc]))
      }
      else (case pf_selectorFetcher f of None \<Rightarrow> ret None | Some selectorFetch \<Rightarrow> do {
        r \<leftarrow> selectorFetch (pvca_namespace pvca) (TargetRef (Spec pvca));
        case r of
          None \<Rightarrow> ret None
        | Some (Inl err) \<Rightarrow> ret (Some (Inl (Wrapped (''failed to fetch selector for target '' @ refString (TargetRef (Spec pvca))) err)))
        | Some (Inr selector) \<Rightarrow> do {
            l \<leftarrow> api (List_Pods c (pvca_namespace pvca) (Some selector));
            case l of
              Inl err \<Rightarrow> ret (Some (Inl (Wrapped ''failed to list Pods'' err)))
            | Inr pods \<Rightarrow>
                if pods = [] then ret (Some (Inl (Sentinel ErrNoPodsFound)))
                else do {
                  g \<leftarrow> getPVCsFromPods c order pods;
                  ret (Some (case g of
                    Inl err \<Rightarrow> Inl (Wrapped ''could not get all PersistentVolumeClaims'' err)
                  | Inr pvcs \<Rightarrow> if pvcs = [] then Inl (Sentinel ErrNoPVCsFound) else Inr pvcs))
                }
          }
      }))"

section \<open>What Fetch returns\<close>

text \<open>The claims that the volumes of a list of pods reference.\<close>

definition mounted :: "pod list \<Rightarrow> key set" where
  "mounted pods = {(pod_namespace p, n) | p n. p \<in> set pods \<and> Some n \<in> set (pod_volumes p)}"

definition pod_mounts :: "pod \<Rightarrow> volume list \<Rightarrow> key set" where
  "pod_mounts pod vs = {(pod_namespace pod, n) | n. Some n \<in> set vs}"

lemma pod_mounts_simps [simp]:
  "pod_mounts pod [] = {}" "pod_mounts pod (None # vs) = pod_mounts pod vs"
  "pod_mounts pod (Some n # vs) = insert (pod_namespace pod, n) (pod_mounts pod vs)"
  by (auto simp: pod_mounts_def)

lemma mounted_simps [simp]:
  "mounted [] = {}" "mounted (p # ps) = pod_mounts p (pod_volumes p) \<union> mounted ps"
  by (auto simp: mounted_def pod_mounts_def)

text \<open>The map of claims: one entry per key string, each holding the claim of that key.\<close>

definition pvc_map_ok :: "'q pvc_map \<Rightarrow> bool" where
  "pvc_map_ok m \<longleftrightarrow> distinct (map fst m) \<and> (\<forall>(k, p) \<in> set m. k = NamespacedName_String (pvc_key p))"

definition grown :: "'q pvc_map \<Rightarrow> key set \<Rightarrow> go_error + 'q pvc_map \<Rightarrow> bool" where
  "grown m K r \<longleftrightarrow> (\<forall>m'. r = Inr m' \<longrightarrow> pvc_map_ok m' \<and>
     fst ` set m' = fst ` set m \<union> NamespacedName_String ` K \<and>
     (pvc_key \<circ> snd) ` set m' \<subseteq> (pvc_key \<circ> snd) ` set m \<union> K)"

lemma grown_present: "NamespacedName_String k \<in> fst ` set m \<Longrightarrow> grown m K r \<Longrightarrow> grown m (insert k K) r"
  unfolding grown_def by (simp add: insert_absorb) blast

lemma grown_add: "pvc_key p = k \<Longrightarrow> grown (m @ [(NamespacedName_String k, p)]) K = grown m (insert k K)"
  by (simp add: grown_def fun_eq_iff)

lemma grown_trans:
  assumes "grown m K (Inr m')" "grown m' L r"
  shows "grown m (K \<union> L) r"
  unfolding grown_def
proof (intro allI impI)
  fix n assume "r = Inr n"
  with assms(2) have 1: "pvc_map_ok n" "fst ` set n = fst ` set m' \<union> NamespacedName_String ` L"
    "(pvc_key \<circ> snd) ` set n \<subseteq> (pvc_key \<circ> snd) ` set m' \<union> L" unfolding grown_def by blast+
  from assms(1) have 2: "fst ` set m' = fst ` set m \<union> NamespacedName_String ` K"
    "(pvc_key \<circ> snd) ` set m' \<subseteq> (pvc_key \<circ> snd) ` set m \<union> K" unfolding grown_def by blast+
  show "pvc_map_ok n \<and> fst ` set n = fst ` set m \<union> NamespacedName_String ` (K \<union> L) \<and>
      (pvc_key \<circ> snd) ` set n \<subseteq> (pvc_key \<circ> snd) ` set m \<union> (K \<union> L)"
    unfolding 1(2) 2(1) image_Un Un_assoc using 1(1,3) 2(2) by blast
qed

lemma valid_volumes_loop:
  assumes "keeps_identity c" "pvc_map_ok m"
  shows "valid (volumes_loop c pod vs m) (\<lambda>_. False) (grown m (pod_mounts pod vs))"
  using assms
proof (induction c pod vs m rule: volumes_loop.induct)
  case (3 c pod n vs m)
  let ?k = "(pod_namespace pod, n)"
  show ?case
  proof (cases "map_of m (NamespacedName_String ?k)")
    case None
    then have new: "NamespacedName_String ?k \<notin> fst ` set m" by (simp add: map_of_eq_None_iff)
    have step: "valid (volumes_loop c pod vs (m @ [(NamespacedName_String ?k, p)])) (\<lambda>_. False)
        (grown m (pod_mounts pod (Some n # vs)))" if "pvc_key p = ?k" for p
    proof -
      have "pvc_map_ok (m @ [(NamespacedName_String ?k, p)])"
        using "3.prems" new that by (auto simp: pvc_map_ok_def)
      with "3.IH"(2) "3.prems" None
      have "valid (volumes_loop c pod vs (m @ [(NamespacedName_String ?k, p)])) (\<lambda>_. False)
          (grown (m @ [(NamespacedName_String ?k, p)]) (pod_mounts pod vs))" by simp
      then show ?thesis using grown_add [OF that] by simp
    qed
    have "valid (ret (Inl e)) (\<lambda>_. False) (grown m K)" for e K by (simp add: grown_def valid_ret)
    then show ?thesis using None step
      by (auto simp: Let_def intro!: valid_get_then [OF "3.prems"(1)])
  next
    case (Some p)
    then have "NamespacedName_String ?k \<in> fst ` set m" by (metis domI dom_map_of_conv_image_fst)
    with "3.IH"(1) "3.prems" Some show ?thesis
      by (auto elim!: valid_weaken intro: grown_present)
  qed
qed (auto intro!: vcg simp: grown_def)

lemma valid_pods_loop:
  assumes "keeps_identity c" "pvc_map_ok m"
  shows "valid (pods_loop c pods m) (\<lambda>_. False) (grown m (mounted pods))"
  using assms(2)
proof (induction pods arbitrary: m)
  case (Cons pod pods)
  show ?case unfolding pods_loop.simps
  proof (rule valid_bind [OF valid_volumes_loop [OF assms(1) Cons.prems]])
    fix r assume r: "grown m (pod_mounts pod (pod_volumes pod)) r"
    show "valid (case r of Inl err \<Rightarrow> ret (Inl err) | Inr m' \<Rightarrow> pods_loop c pods m') (\<lambda>_. False)
        (grown m (mounted (pod # pods)))"
    proof (cases r)
      case (Inr m')
      with r have "pvc_map_ok m'" by (simp add: grown_def)
      from Cons.IH [OF this] show ?thesis using Inr r
        by (auto elim!: valid_weaken intro: grown_trans)
    qed (simp add: grown_def valid_ret)
  qed
qed (simp add: grown_def valid_ret)

text \<open>Pods listed for a namespace are of that namespace.\<close>

definition lists_namespace :: "('q, 'w) client \<Rightarrow> bool" where
  "lists_namespace c \<longleftrightarrow>
     (\<forall>ns sel w pods w'. List_Pods c ns sel w = (Inr pods, w') \<longrightarrow> (\<forall>p \<in> set pods. pod_namespace p = ns))"

lemma memory_client_lists: "lists_namespace memory_client"
  by (auto simp: lists_namespace_def)

text \<open>
  What the result of \<open>Fetch\<close> promises: at least one claim, no claim twice, only claims of the
  namespace of the autoscaler, and either the one claim the target names or exactly the claims
  that the pods of the target mount.
\<close>

definition fetched :: "'q pvca \<Rightarrow> go_error + 'q pvc list \<Rightarrow> bool" where
  "fetched a r \<longleftrightarrow>
     (\<forall>ps. r = Inr ps \<longrightarrow> ps \<noteq> [] \<and> distinct (map pvc_key ps) \<and> (\<forall>p \<in> set ps. pvc_namespace p = pvca_namespace a))"

definition fetched_from :: "('q, 'w) client \<Rightarrow> 'q pvca \<Rightarrow> go_error + 'q pvc list \<Rightarrow> bool" where
  "fetched_from c a r \<longleftrightarrow>
     (\<forall>ps. r = Inr ps \<longrightarrow>
        (if ref_kind (TargetRef (Spec a)) = ''PersistentVolumeClaim''
         then map pvc_key ps = [(pvca_namespace a, ref_name (TargetRef (Spec a)))]
         else \<exists>sel w pods w'. List_Pods c (pvca_namespace a) (Some sel) w = (Inr pods, w') \<and>
                pvc_key ` set ps = mounted pods))"

lemma NamespacedName_String_inj: "inj_on NamespacedName_String {k. fst k = ns}"
  by (auto simp: inj_on_def NamespacedName_String_def)

lemma fetched_pods:
  assumes ok: "pvc_map_ok m'" and keys: "fst ` set m' = NamespacedName_String ` mounted pods"
    and sub: "(pvc_key \<circ> snd) ` set m' \<subseteq> mounted pods" and m: "mset m = mset m'"
    and ns: "\<forall>p \<in> set pods. pod_namespace p = ns"
  shows "distinct (map pvc_key (map snd m))" "pvc_key ` set (map snd m) = mounted pods"
    "\<forall>p \<in> set (map snd m). pvc_namespace p = ns"
proof -
  have s: "set m = set m'" using m by (rule mset_eq_setD)
  have d: "distinct (map fst m)"
    using ok m unfolding pvc_map_ok_def by (metis mset_eq_imp_distinct_iff mset_map)
  have f: "map fst m = map (NamespacedName_String \<circ> pvc_key \<circ> snd) m"
    using ok s by (auto simp: pvc_map_ok_def)
  show "distinct (map pvc_key (map snd m))"
    using d unfolding f by (auto simp: distinct_map inj_on_def)
  have n: "\<And>k. k \<in> mounted pods \<Longrightarrow> fst k = ns" using ns by (auto simp: mounted_def)
  have "fst ` set m' = NamespacedName_String ` (pvc_key \<circ> snd) ` set m'"
    using arg_cong [OF f, of set] s by (simp add: image_comp)
  then have "NamespacedName_String ` (pvc_key \<circ> snd) ` set m' = NamespacedName_String ` mounted pods"
    using keys by simp
  moreover have "mounted pods \<subseteq> {k. fst k = ns}" using n by auto
  ultimately have "(pvc_key \<circ> snd) ` set m' = mounted pods"
    using sub inj_on_image_eq_iff [OF NamespacedName_String_inj, of "(pvc_key \<circ> snd) ` set m'" ns "mounted pods"]
    by blast
  then show "pvc_key ` set (map snd m) = mounted pods" using s by (simp add: image_comp)
  then show "\<forall>p \<in> set (map snd m). pvc_namespace p = ns" using n by (fastforce simp: pvc_key_def)
qed

text \<open>The parts of a fetcher and their laws.\<close>

record ('q, 'w) fetch_env =
  fe_refString :: "CrossVersionObjectReference \<Rightarrow> string"
  fe_order :: "'q pvc_map \<Rightarrow> 'q pvc_map"
  fe_fetcher :: "('q, 'w) pvcFetcher"
  fe_client :: "('q, 'w) client"

definition fetch_env_ok :: "('q, 'w) fetch_env \<Rightarrow> bool" where
  "fetch_env_ok e \<longleftrightarrow>
     (\<exists>sf. fe_fetcher e = \<lparr>pf_client = Some (fe_client e), pf_selectorFetcher = Some sf\<rparr> \<and>
        (\<forall>ns ref. valid (sf ns ref) (\<lambda>_. False) (\<lambda>r. r \<noteq> None))) \<and>
     keeps_identity (fe_client e) \<and> lists_namespace (fe_client e) \<and> (\<forall>m. mset (fe_order e m) = mset m)"

lemma valid_getPVCsFromPods:
  assumes "keeps_identity c" "\<forall>m. mset (order m) = mset m" "\<forall>p \<in> set pods. pod_namespace p = ns"
  shows "valid (getPVCsFromPods c order pods) (\<lambda>_. False)
    (\<lambda>r. \<forall>ps. r = Inr ps \<longrightarrow> distinct (map pvc_key ps) \<and> pvc_key ` set ps = mounted pods \<and>
       (\<forall>p \<in> set ps. pvc_namespace p = ns))"
  unfolding getPVCsFromPods_def
proof (rule valid_bind [OF valid_pods_loop [OF assms(1)]])
  show "pvc_map_ok []" by (simp add: pvc_map_ok_def)
  fix r :: "go_error + 'a pvc_map"
  assume g: "grown [] (mounted pods) r"
  have "distinct (map pvc_key (map snd (order m'))) \<and>
      pvc_key ` set (map snd (order m')) = mounted pods \<and> (\<forall>p \<in> set (map snd (order m')). pvc_namespace p = ns)"
    if "r = Inr m'" for m'
  proof -
    from g that have "pvc_map_ok m'" "fst ` set m' = NamespacedName_String ` mounted pods"
      "(pvc_key \<circ> snd) ` set m' \<subseteq> mounted pods" by (simp_all add: grown_def)
    from fetched_pods [OF this _ assms(3), of "order m'"] assms(2) show ?thesis by blast
  qed
  then show "valid (ret (case r of Inl err \<Rightarrow> Inl err | Inr pvcMap \<Rightarrow> Inr (map snd (order pvcMap)))) (\<lambda>_. False)
    (\<lambda>r. \<forall>ps. r = Inr ps \<longrightarrow> distinct (map pvc_key ps) \<and> pvc_key ` set ps = mounted pods \<and>
       (\<forall>p \<in> set ps. pvc_namespace p = ns))"
    by (intro valid_ret) (cases r; simp)
qed

lemma valid_list_then:
  assumes "lists_namespace c" "\<And>e. valid (f (Inl e)) E Q"
    and "\<And>pods w w'. List_Pods c ns sel w = (Inr pods, w') \<Longrightarrow> \<forall>p \<in> set pods. pod_namespace p = ns \<Longrightarrow>
      valid (f (Inr pods)) E Q"
  shows "valid (api (List_Pods c ns sel) \<bind> f) E Q"
proof (rule valid_bind [where R = "\<lambda>r. valid (f r) E Q"], rule valid_api)
  fix w
  obtain r w' where e: "List_Pods c ns sel w = (r, w')" by fastforce
  show "valid (f (fst (List_Pods c ns sel w))) E Q"
  proof (cases r)
    case (Inr pods)
    then have "\<forall>p \<in> set pods. pod_namespace p = ns" using assms(1) e unfolding lists_namespace_def by blast
    then show ?thesis using assms(3) e Inr by simp
  qed (simp add: e assms(2))
qed

lemma valid_pvc_Fetch:
  fixes e :: "('q, 'w) fetch_env"
  assumes "fetch_env_ok e"
  shows "valid (pvc_Fetch (fe_refString e) (fe_order e) (fe_fetcher e) a) (\<lambda>_. False)
    (\<lambda>r. \<exists>x. r = Some x \<and> fetched a x \<and> fetched_from (fe_client e) a x)"
    (is "valid _ _ ?R")
proof -
  let ?c = "fe_client e" and ?ns = "pvca_namespace a"
  obtain sf where f: "fe_fetcher e = \<lparr>pf_client = Some ?c, pf_selectorFetcher = Some sf\<rparr>"
    and sf: "\<And>ns ref. valid (sf ns ref) (\<lambda>_. False) (\<lambda>r. r \<noteq> None)"
    and id: "keeps_identity ?c" and ln: "lists_namespace ?c" and ord: "\<forall>m. mset (fe_order e m) = mset m"
    using assms by (auto simp: fetch_env_ok_def)
  have err: "?R (Some (Inl x))" for x by (simp add: fetched_def fetched_from_def)
  show ?thesis
  proof (cases "ref_kind (TargetRef (Spec a)) = ''PersistentVolumeClaim''")
    case True
    then show ?thesis
      unfolding pvc_Fetch_def f Let_def
      by (auto intro!: valid_get_then [OF id] valid_ret simp: fetched_def fetched_from_def pvc_key_def)
  next
    case False
    have pods: "valid (do { g \<leftarrow> getPVCsFromPods ?c (fe_order e) pods;
          ret (Some (case g of Inl err \<Rightarrow> Inl (Wrapped ''could not get all PersistentVolumeClaims'' err)
            | Inr pvcs \<Rightarrow> if pvcs = [] then Inl (Sentinel ErrNoPVCsFound) else Inr pvcs)) }) (\<lambda>_. False) ?R"
      if l: "List_Pods ?c ?ns (Some sel) w = (Inr pods, w')" "\<forall>p \<in> set pods. pod_namespace p = ?ns" for pods sel w w'
    proof (intro valid_bind [OF valid_getPVCsFromPods [OF id ord l(2)]] valid_ret)
      fix g :: "go_error + 'q pvc list"
      assume "\<forall>ps. g = Inr ps \<longrightarrow> distinct (map pvc_key ps) \<and> pvc_key ` set ps = mounted pods \<and>
         (\<forall>p \<in> set ps. pvc_namespace p = ?ns)"
      then show "?R (Some (case g of Inl err \<Rightarrow> Inl (Wrapped ''could not get all PersistentVolumeClaims'' err)
            | Inr pvcs \<Rightarrow> if pvcs = [] then Inl (Sentinel ErrNoPVCsFound) else Inr pvcs))"
        using l(1) False by (auto simp: fetched_def fetched_from_def split: sum.splits)
    qed
    show ?thesis
      unfolding pvc_Fetch_def f using False
      by (auto intro!: valid_bind [OF sf] valid_list_then [OF ln] valid_ret err pods split: sum.split)
  qed
qed

section \<open>The Fetcher interface\<close>

text \<open>
  The contract the runner relies on: fetching writes nothing, does not panic, and a result has
  no claim twice and only claims of the namespace of the autoscaler.
\<close>

locale pvc_fetcher =
  fixes ok :: "'e \<Rightarrow> bool" and fetch :: "'e \<Rightarrow> 'q pvca \<Rightarrow> ('q, 'w, (go_error + 'q pvc list) option) prog"
  assumes fetch_contract: "ok e \<Longrightarrow> valid (fetch e a) (\<lambda>_. False) (\<lambda>r. \<exists>x. r = Some x \<and> fetched a x)"
begin

lemma fetch_no_effects: "ok e \<Longrightarrow> run_state (fetch e a) s = (r, s') \<Longrightarrow> effects s' = effects s"
  using validD(2) [OF fetch_contract] by (metis append_Nil2 list.pred_inject(2) neq_Nil_conv)

lemma fetch_returns: "ok e \<Longrightarrow> run_state (fetch e a) s = (r, s') \<Longrightarrow> \<exists>x. r = Some x \<and> fetched a x"
  using validD(1) [OF fetch_contract] by blast

end

definition env_Fetch :: "('q, 'w) fetch_env \<Rightarrow> 'q pvca \<Rightarrow> ('q, 'w, (go_error + 'q pvc list) option) prog" where
  "env_Fetch e a = pvc_Fetch (fe_refString e) (fe_order e) (fe_fetcher e) a"

interpretation pf: pvc_fetcher fetch_env_ok env_Fetch
proof unfold_locales
  fix e :: "('q, 'w) fetch_env" and a :: "'q pvca"
  assume "fetch_env_ok e"
  from valid_pvc_Fetch [OF this, of a]
  show "valid (env_Fetch e a) (\<lambda>_. False) (\<lambda>r. \<exists>x. r = Some x \<and> fetched a x)"
    unfolding env_Fetch_def by (rule valid_weaken) auto
qed

text \<open>
  C19: Fetching the claims of an autoscaler is right: it changes nothing, does not panic, and a
  result holds at least one claim, no claim twice and only claims of the namespace of the
  autoscaler, namely the claim the target reference names when it is a claim, and otherwise
  exactly the claims mounted by the pods that the API server listed for the target's selector,
  in whatever order Go iterates over the map.
\<close>

theorem fetch_correct:
  assumes "fetch_env_ok e" "run_state (env_Fetch e a) s = (r, s')"
  shows "effects s' = effects s \<and> (\<exists>x. r = Some x \<and> (\<forall>ps. x = Inr ps \<longrightarrow>
    ps \<noteq> [] \<and> distinct (map pvc_key ps) \<and> (\<forall>p \<in> set ps. pvc_namespace p = pvca_namespace a) \<and>
    (if ref_kind (TargetRef (Spec a)) = ''PersistentVolumeClaim''
     then map pvc_key ps = [(pvca_namespace a, ref_name (TargetRef (Spec a)))]
     else \<exists>sel w pods w'. List_Pods (fe_client e) (pvca_namespace a) (Some sel) w = (Inr pods, w') \<and>
            pvc_key ` set ps = mounted pods)))"
  using pf.fetch_no_effects [OF assms] validD(1) [OF valid_pvc_Fetch [OF assms(1)] assms(2) [unfolded env_Fetch_def]]
  by (auto simp: fetched_def fetched_from_def)

definition example_pod :: "string \<Rightarrow> volume list \<Rightarrow> pod" where
  "example_pod n vs = \<lparr>pod_namespace = ''ns'', pod_name = n, pod_volumes = vs, pod_schedulingGates = [],
     pod_phase = ''Running'', pod_deletionTimestamp = None, pod_ownerReferences = []\<rparr>"

definition example_pvca :: "int VolumePolicy list \<Rightarrow> int pvca" where
  "example_pvca policies = \<lparr>pvca_namespace = ''ns'', pvca_name = ''pvca'',
     Spec = \<lparr>AutoscalerName = '''', TargetRef = \<lparr>ref_kind = ''StatefulSet'', ref_name = ''db'', ref_apiVersion = ''apps/v1''\<rparr>,
       VolumePolicies = policies\<rparr>,
     Status = \<lparr>VolumeRecommendations = [], Conditions = []\<rparr>\<rparr>"

definition example_env :: "(int, int cluster) fetch_env" where
  "example_env = \<lparr>fe_refString = ref_name, fe_order = rev,
     fe_fetcher = \<lparr>pf_client = Some memory_client, pf_selectorFetcher = Some (\<lambda>ns ref. ret (Some (Inr ''app=db'')))\<rparr>,
     fe_client = memory_client\<rparr>"

lemma example_env_ok: "fetch_env_ok example_env"
  by (auto simp: fetch_env_ok_def example_env_def memory_client_identity memory_client_lists intro: valid_ret)

text \<open>Two pods mount the same claim: it is returned once.\<close>

theorem fetch_correct_witness:
  "\<exists>s'. run_state (env_Fetch example_env (example_pvca []))
      (start_state ((example_cluster (10 * 2 ^ 30))\<lparr>cl_pods := [example_pod ''db-0'' [Some ''data'', None], example_pod ''db-1'' [Some ''data'']]\<rparr>))
    = (Some (Inr [example_pvc (10 * 2 ^ 30)]), s') \<and> effects s' = []"
proof -
  let ?s = "start_state ((example_cluster (10 * 2 ^ 30))\<lparr>cl_pods := [example_pod ''db-0'' [Some ''data'', None], example_pod ''db-1'' [Some ''data'']]\<rparr>)
    :: (int, int cluster) rstate"
  obtain r s' where run: "run_state (env_Fetch example_env (example_pvca [])) ?s = (r, s')" by fastforce
  have "r = Some (Inr [example_pvc (10 * 2 ^ 30)])"
    using run by (simp add: env_Fetch_def pvc_Fetch_def example_env_def example_pvca_def run_simps getPVCsFromPods_def
      start_state_def example_cluster_def example_pod_def NamespacedName_String_def)
  moreover have "effects s' = []"
    using fetch_correct [OF example_env_ok run] by (simp add: start_state_def)
  ultimately show ?thesis using run by simp
qed

end
