(* ===== verification/Version.thy ===== *)
theory Version
  imports Go_Prelude
begin

text \<open>
  \<^verbatim>\<open>internal/version\<close>: normalising the version string of the API server and comparing it
  with 1.34. The semantic-version library is a parameter: \<open>NewVersion\<close> parses a string,
  \<open>NewConstraint\<close> a constraint, and \<open>Check\<close> is the check of the constraint \<^verbatim>\<open>>= 1.34-0\<close>, which is
  parsed when the program starts; a constraint that does not parse is a panic (\<open>None\<close>).
\<close>

definition mustNewConstraint :: "(string \<Rightarrow> go_error + 'c) \<Rightarrow> string \<Rightarrow> 'c option" where
  "mustNewConstraint NewConstraint c = (case NewConstraint c of Inl err \<Rightarrow> None | Inr x \<Rightarrow> Some x)"

definition constraintGreaterEqual134 :: "(string \<Rightarrow> go_error + 'c) \<Rightarrow> 'c option" where
  "constraintGreaterEqual134 NewConstraint = mustNewConstraint NewConstraint ''>= 1.34-0''"

definition normalize :: "string \<Rightarrow> string" where
  "normalize version = takeWhile (\<lambda>c. c \<noteq> CHR ''-'' \<and> c \<noteq> CHR ''+'') (ReplaceAll version (CHR ''v'') '''')"

definition IsKubernetesVersionGreaterEqual134 ::
  "(string \<Rightarrow> go_error + 'v) \<Rightarrow> ('v \<Rightarrow> bool) \<Rightarrow> string \<Rightarrow> bool" where
  "IsKubernetesVersionGreaterEqual134 NewVersion Check version =
     (case NewVersion (normalize version) of Inl e \<Rightarrow> False | Inr v \<Rightarrow> Check v)"

lemma ReplaceAll_none: "c \<notin> set s \<Longrightarrow> ReplaceAll s c r = s"
  by (induction s) (auto simp: ReplaceAll_def)

lemma set_ReplaceAll_empty: "set (ReplaceAll s c '''') = set s - {c}"
  by (induction s) (auto simp: ReplaceAll_def)

lemma normalize_chars: "set (normalize s) \<inter> {CHR ''v'', CHR ''-'', CHR ''+''} = {}"
  by (auto simp: normalize_def set_ReplaceAll_empty dest: set_takeWhileD)

lemma normalize_idem: "normalize (normalize s) = normalize s"
proof -
  have "CHR ''v'' \<notin> set (normalize s)" "\<And>c. c \<in> set (normalize s) \<Longrightarrow> c \<noteq> CHR ''-'' \<and> c \<noteq> CHR ''+''"
    using normalize_chars [of s] by auto
  then show ?thesis by (simp add: normalize_def [of "normalize s"] ReplaceAll_none takeWhile_eq_all_conv)
qed

lemma normalize_suffix:
  assumes "set v \<inter> {CHR ''v'', CHR ''-'', CHR ''+''} = {}" "c = CHR ''-'' \<or> c = CHR ''+''"
  shows "normalize (CHR ''v'' # v @ c # rest) = v"
proof -
  have "ReplaceAll (CHR ''v'' # v @ c # rest) (CHR ''v'') '''' = v @ c # ReplaceAll rest (CHR ''v'') ''''"
    using assms ReplaceAll_none [of "CHR ''v''" v "[]"] by (auto simp: ReplaceAll_def)
  moreover have "takeWhile (\<lambda>c. c \<noteq> CHR ''-'' \<and> c \<noteq> CHR ''+'') (v @ c # r) = v" for r
    using assms by (subst takeWhile_append2) auto
  ultimately show ?thesis by (simp add: normalize_def)
qed

text \<open>
  C37: The suffix of a version string does not matter: a pre-release or vendor build of a
  version (\<^verbatim>\<open>v1.34.0-rc.1\<close>, \<^verbatim>\<open>v1.34.0+k3s1\<close>) is treated as that version, so the gate on
  recovery opens for exactly the same base versions.
\<close>

theorem version_gate_ignores_suffix:
  assumes "set v \<inter> {CHR ''v'', CHR ''-'', CHR ''+''} = {}" "c = CHR ''-'' \<or> c = CHR ''+''"
  shows "IsKubernetesVersionGreaterEqual134 NewVersion Check (CHR ''v'' # v @ c # rest) \<longleftrightarrow>
    IsKubernetesVersionGreaterEqual134 NewVersion Check v"
proof -
  have v: "CHR ''v'' \<notin> set v" "\<And>c. c \<in> set v \<Longrightarrow> c \<noteq> CHR ''-'' \<and> c \<noteq> CHR ''+''" using assms(1) by auto
  have "normalize v = v" by (simp add: normalize_def ReplaceAll_none v takeWhile_eq_all_conv)
  with normalize_suffix [OF assms] show ?thesis by (simp add: IsKubernetesVersionGreaterEqual134_def)
qed

theorem version_gate_ignores_suffix_witness:
  "IsKubernetesVersionGreaterEqual134 (\<lambda>s. Inr s) (\<lambda>s. s = ''1.34.0'') ''v1.34.0-rc.1''"
  using version_gate_ignores_suffix
    [of "''1.34.0''" "CHR ''-''" "\<lambda>s. Inr s" "\<lambda>s. s = ''1.34.0''" "''rc.1''"]
  by (simp add: IsKubernetesVersionGreaterEqual134_def normalize_def ReplaceAll_def)

end
