(* ===== verification/Heartbeat.thy ===== *)
theory Heartbeat
  imports Go_Prelude
begin

text \<open>
  \<^verbatim>\<open>internal/healthcheck\<close>: the activity monitor behind the \<^verbatim>\<open>/healthz\<close> endpoint. Times and
  durations are in nanoseconds; the clock reading is an argument of each operation and the
  rendering of a duration (\<^verbatim>\<open>%s\<close>) a parameter of \<open>Check\<close>. Every method is one step
  (\<open>heartbeat_step\<close>); that the mutex justifies this is proved in \<open>Heartbeat_Concurrency\<close>.
\<close>

record heartbeat =
  activityTimeout :: int
  checkTimeout :: bool
  lastActivity :: int

definition NewHeartbeat :: "int \<Rightarrow> int \<Rightarrow> heartbeat" where
  "NewHeartbeat timeout clk = \<lparr>activityTimeout = timeout, checkTimeout = False, lastActivity = clk\<rparr>"

definition StartMonitoring :: "int \<Rightarrow> heartbeat \<Rightarrow> heartbeat" where
  "StartMonitoring clk h = h\<lparr>checkTimeout := True, lastActivity := clk\<rparr>"

definition UpdateLastActivity :: "int \<Rightarrow> heartbeat \<Rightarrow> heartbeat" where
  "UpdateLastActivity clk h = h\<lparr>lastActivity := clk\<rparr>"

definition Check :: "(int \<Rightarrow> string) \<Rightarrow> int \<Rightarrow> heartbeat \<Rightarrow> go_error option" where
  "Check duration clk h =
     (if \<not> checkTimeout h then None
      else let ago = clk - lastActivity h
        in if clk > lastActivity h + activityTimeout h
           then Some (ErrorString (''last activity more than '' @ duration ago @ '' ago''))
           else None)"

text \<open>The operations of the runner on the monitor at given times: start, then a beat per pass.\<close>

datatype beat = Start int | Beat int

fun beat_time :: "beat \<Rightarrow> int" where
  "beat_time (Start t) = t"
| "beat_time (Beat t) = t"

fun heartbeat_step :: "beat \<Rightarrow> heartbeat \<Rightarrow> heartbeat" where
  "heartbeat_step (Start t) h = StartMonitoring t h"
| "heartbeat_step (Beat t) h = UpdateLastActivity t h"

definition heartbeat_run :: "beat list \<Rightarrow> heartbeat \<Rightarrow> heartbeat" where
  "heartbeat_run = fold heartbeat_step"

lemma heartbeat_run_simps [simp]:
  "heartbeat_run [] h = h" "heartbeat_run (b # bs) h = heartbeat_run bs (heartbeat_step b h)"
  "heartbeat_run (bs @ cs) h = heartbeat_run cs (heartbeat_run bs h)"
  by (simp_all add: heartbeat_run_def)

lemma heartbeat_run_timeout [simp]: "activityTimeout (heartbeat_run bs h) = activityTimeout h"
proof (induction bs arbitrary: h)
  case (Cons b bs)
  then show ?case by (cases b) (simp_all add: StartMonitoring_def UpdateLastActivity_def)
qed simp

lemma heartbeat_run_check:
  "checkTimeout (heartbeat_run bs h) \<longleftrightarrow> checkTimeout h \<or> (\<exists>t. Start t \<in> set bs)"
proof (induction bs arbitrary: h)
  case (Cons b bs)
  then show ?case by (cases b) (auto simp: StartMonitoring_def UpdateLastActivity_def)
qed simp

lemma heartbeat_run_last: "lastActivity (heartbeat_run (bs @ [b]) h) = beat_time b"
  by (cases b) (simp_all add: StartMonitoring_def UpdateLastActivity_def)

text \<open>
  Once monitoring has started, the health check fails exactly when more than the timeout has
  passed since the last activity: after any sequence of activities ending at time \<open>t\<close> the
  check at a later time reports an error iff \<open>t + timeout\<close> is over, whatever happened
  before; without a start it never fails.
\<close>

lemma heartbeat_detects_stall:
  "Check dur clk (heartbeat_run (bs @ [b]) (NewHeartbeat timeout t0)) \<noteq> None \<longleftrightarrow>
     (\<exists>t. Start t \<in> set (bs @ [b])) \<and> beat_time b + timeout < clk"
  using heartbeat_run_last [of bs b "NewHeartbeat timeout t0"]
    heartbeat_run_check [of "bs @ [b]" "NewHeartbeat timeout t0"]
    heartbeat_run_timeout [of "bs @ [b]" "NewHeartbeat timeout t0"]
  by (simp add: Check_def Let_def NewHeartbeat_def del: heartbeat_run_simps(3))

end
