(* ===== verification/Runner.thy ===== *)
theory Runner
  imports Recommendations Scaling Expansion_Failure Fetchers Version Heartbeat
begin

text \<open>
  The periodic runner (\<^verbatim>\<open>internal/periodic/periodic.go\<close>): construction, one pass over all
  autoscalers, one autoscaler, one claim, and the status update. \<open>New\<close> turns a configuration
  whose parts may be missing into a \<open>runner\<close> that has all of them. The functions of
  \<^verbatim>\<open>k8s.io/apimachinery\<close> on status conditions, the semantic equality of statuses and the
  version library are the parameters \<open>'q libs\<close>; the order in which Go iterates over the map of
  autoscalers is \<open>lb_order\<close>. \<open>None\<close> is a panic.
\<close>

section \<open>Construction\<close>

type_synonym ('q, 'w) fetch = "'q pvca \<Rightarrow> ('q, 'w, (go_error + 'q pvc list) option) prog"

record ('q, 'w) runner_config =
  cfg_client :: "('q, 'w) client option"
  cfg_interval :: int
  cfg_metricsSource :: "('w \<Rightarrow> (go_error + Metrics) \<times> 'w) option"
  cfg_eventRecorder :: "unit option"
  cfg_pvcFetcher :: "('q, 'w) fetch option"
  cfg_heartbeat :: bool
  cfg_autoscalerName :: string
  cfg_kubernetesVersion :: string

record ('q, 'w) runner =
  rn_client :: "('q, 'w) client"
  rn_interval :: int
  rn_metricsSource :: "'w \<Rightarrow> (go_error + Metrics) \<times> 'w"
  rn_pvcFetcher :: "('q, 'w) fetch"
  rn_heartbeat :: bool
  rn_autoscalerName :: string
  rn_kubernetesVersion :: string

text \<open>The recoverer is made from the client and the event recorder of the runner.\<close>

abbreviation rn_recoverer :: "('q, 'w) runner \<Rightarrow> ('q, 'w) Recoverer" where
  "rn_recoverer r \<equiv> Recoverer_New (rn_client r)"

type_synonym ('q, 'w) runner_option = "('q, 'w) runner_config \<Rightarrow> ('q, 'w) runner_config"

definition Runner_WithClient :: "('q, 'w) client \<Rightarrow> ('q, 'w) runner_option" where
  "Runner_WithClient c r = r\<lparr>cfg_client := Some c\<rparr>"

definition Runner_WithInterval :: "int \<Rightarrow> ('q, 'w) runner_option" where
  "Runner_WithInterval interval r = r\<lparr>cfg_interval := interval\<rparr>"

definition WithMetricsSource :: "('w \<Rightarrow> (go_error + Metrics) \<times> 'w) \<Rightarrow> ('q, 'w) runner_option" where
  "WithMetricsSource src r = r\<lparr>cfg_metricsSource := Some src\<rparr>"

definition Runner_WithEventRecorder :: "('q, 'w) runner_option" where
  "Runner_WithEventRecorder r = r\<lparr>cfg_eventRecorder := Some ()\<rparr>"

definition WithPVCFetcher :: "('q, 'w) fetch \<Rightarrow> ('q, 'w) runner_option" where
  "WithPVCFetcher f r = r\<lparr>cfg_pvcFetcher := Some f\<rparr>"

definition WithHeartbeat :: "bool \<Rightarrow> ('q, 'w) runner_option" where
  "WithHeartbeat h r = r\<lparr>cfg_heartbeat := h\<rparr>"

definition Runner_WithAutoscalerName :: "string \<Rightarrow> ('q, 'w) runner_option" where
  "Runner_WithAutoscalerName name r = r\<lparr>cfg_autoscalerName := name\<rparr>"

definition WithKubernetesVersion :: "string \<Rightarrow> ('q, 'w) runner_option" where
  "WithKubernetesVersion v r = r\<lparr>cfg_kubernetesVersion := v\<rparr>"

definition empty_config :: "('q, 'w) runner_config" where
  "empty_config = \<lparr>cfg_client = None, cfg_interval = 0, cfg_metricsSource = None, cfg_eventRecorder = None,
     cfg_pvcFetcher = None, cfg_heartbeat = False, cfg_autoscalerName = '''', cfg_kubernetesVersion = ''''\<rparr>"

definition Runner_New :: "('q, 'w) runner_option list \<Rightarrow> go_error + ('q, 'w) runner" where
  "Runner_New opts =
     (let r = fold (\<lambda>opt r. opt r) opts empty_config in
      case cfg_metricsSource r of None \<Rightarrow> Inl (Sentinel ErrNoMetricsSource) | Some src \<Rightarrow>
      (case cfg_eventRecorder r of None \<Rightarrow> Inl (Sentinel ErrNoEventRecorder) | Some _ \<Rightarrow>
      (case cfg_client r of None \<Rightarrow> Inl (Sentinel ErrNoClient) | Some c \<Rightarrow>
      (case cfg_pvcFetcher r of None \<Rightarrow> Inl (Sentinel ErrNoPVCFetcher) | Some f \<Rightarrow>
       Inr \<lparr>rn_client = c, rn_interval = cfg_interval r, rn_metricsSource = src, rn_pvcFetcher = f,
            rn_heartbeat = cfg_heartbeat r, rn_autoscalerName = cfg_autoscalerName r,
            rn_kubernetesVersion = cfg_kubernetesVersion r\<rparr>))))"

record 'q libs =
  lb_quantity :: "'q quantity_ops"
  lb_quote :: "string \<Rightarrow> string"
  SetStatusCondition :: "int \<Rightarrow> condition list \<Rightarrow> condition \<Rightarrow> condition list"
  RemoveStatusCondition :: "condition list \<Rightarrow> string \<Rightarrow> condition list"
  FindStatusCondition :: "condition list \<Rightarrow> string \<Rightarrow> condition option"
  StatusEqual :: "'q PVCAStatus \<Rightarrow> 'q PVCAStatus \<Rightarrow> bool"
  lb_NewVersion :: "string \<Rightarrow> go_error + string"
  lb_Check :: "string \<Rightarrow> bool"
  lb_order :: "('q pvca \<times> 'q pvc list) list \<Rightarrow> ('q pvca \<times> 'q pvc list) list"

section \<open>The status of an autoscaler\<close>

definition status_condition_step :: "'q libs \<Rightarrow> int \<Rightarrow> condition \<Rightarrow> condition list \<Rightarrow> condition list" where
  "status_condition_step L t cond conds =
     (if c_message cond = '''' then RemoveStatusCondition L conds (c_type cond) else SetStatusCondition L t conds cond)"

text \<open>
  \<^verbatim>\<open>slices.SortFunc\<close> is not stable; the names are distinct (the statuses written keep them so), and
  then the sorted list is unique. An empty message stands for removing the condition.
\<close>

definition setStatus ::
  "'q libs \<Rightarrow> ('q, 'w) client \<Rightarrow> 'q pvca \<Rightarrow> condition \<Rightarrow> condition \<Rightarrow> 'q VolumeRecommendation list \<Rightarrow>
    ('q, 'w, go_error option) prog" where
  "setStatus L c pvca recommendationsCondition resizingCondition volumeRecommendations = do {
     t \<leftarrow> now c;
     let conditions = fold (status_condition_step L t) [resizingCondition, recommendationsCondition] (Conditions (Status pvca));
     let pvca' = pvca\<lparr>Status := \<lparr>VolumeRecommendations = sort_key vr_name volumeRecommendations, Conditions = conditions\<rparr>\<rparr>;
     if StatusEqual L (Status pvca) (Status pvca') then ret None
     else patch_pvca_status c pvca pvca'
   }"

text \<open>
  The two methods of the API type that set and remove one condition. Unlike \<open>setStatus\<close> they
  always send the patch.
\<close>

definition SetCondition :: "'q libs \<Rightarrow> ('q, 'w) client \<Rightarrow> 'q pvca \<Rightarrow> condition \<Rightarrow> ('q, 'w, 'q pvca \<times> go_error option) prog" where
  "SetCondition L c obj cond = do {
     t \<leftarrow> now c;
     let obj' = obj\<lparr>Status := (Status obj)\<lparr>Conditions := SetStatusCondition L t (Conditions (Status obj)) cond\<rparr>\<rparr>;
     err \<leftarrow> patch_pvca_status c obj obj';
     ret (obj', err)
   }"

definition RemoveCondition :: "'q libs \<Rightarrow> ('q, 'w) client \<Rightarrow> 'q pvca \<Rightarrow> string \<Rightarrow> ('q, 'w, 'q pvca \<times> go_error option) prog" where
  "RemoveCondition L c obj conditionType = do {
     let obj' = obj\<lparr>Status := (Status obj)\<lparr>Conditions := RemoveStatusCondition L (Conditions (Status obj)) conditionType\<rparr>\<rparr>;
     err \<leftarrow> patch_pvca_status c obj obj';
     ret (obj', err)
   }"

section \<open>The claims of all autoscalers\<close>

type_synonym owners = "string \<Rightarrow> string list"

record 'q fetch_acc =
  fa_pvcas :: "('q pvca \<times> 'q pvc list) list"
  fa_owners :: owners

definition add_owner :: "string \<Rightarrow> 'q pvc \<Rightarrow> owners \<Rightarrow> owners" where
  "add_owner pvcaKey p owners =
     (let key = NamespacedName_String (pvc_key p) in owners(key := owners key @ [pvcaKey]))"

text \<open>The two conditions an autoscaler gets when its claims cannot be fetched.\<close>

definition fetch_error_conditions :: "'q libs \<Rightarrow> 'q pvca \<Rightarrow> go_error \<Rightarrow> condition \<times> condition" where
  "fetch_error_conditions L pvca err =
     (let none = errors_Is err ErrNoPodsFound \<or> errors_Is err ErrNoPVCsFound;
          reason = (if none then ReasonNoPVCsMatched else ReasonPVCFetchError);
          message = (if none then ''No PersistentVolumeClaims found for PersistentVolumeClaimAutoscaler: '' @ Error err
                     else ''Failed to fetch PersistentVolumeClaims for PersistentVolumeClaimAutoscaler: '' @ Error err)
      in (Condition ConditionTypeRecommendationAvailable ConditionFalse reason message,
          case FindStatusCondition L (Conditions (Status pvca)) ConditionTypeResizing of
            None \<Rightarrow> Condition ConditionTypeResizing '''' '''' ''''
          | Some _ \<Rightarrow> Condition ConditionTypeResizing ConditionUnknown reason (''Resizing state is unknown: '' @ message)))"

definition fetch_step ::
  "'q libs \<Rightarrow> ('q, 'w) client \<Rightarrow> ('q, 'w) fetch \<Rightarrow> 'q fetch_acc \<Rightarrow> 'q pvca \<Rightarrow> ('q, 'w, 'q fetch_acc option) prog" where
  "fetch_step L c fetch acc pvca = do {
     r \<leftarrow> fetch pvca;
     case r of
       None \<Rightarrow> ret None
     | Some (Inl err) \<Rightarrow> do {
         let conds = fetch_error_conditions L pvca err;
         _ \<leftarrow> setStatus L c pvca (fst conds) (snd conds) [];
         ret (Some acc)
       }
     | Some (Inr pvcs) \<Rightarrow>
         ret (Some \<lparr>fa_pvcas = fa_pvcas acc @ [(pvca, pvcs)],
                    fa_owners = fold (add_owner (NamespacedName_String (pvca_key pvca))) pvcs (fa_owners acc)\<rparr>)
   }"

definition fetchPVCsForPVCAs ::
  "'q libs \<Rightarrow> ('q, 'w) client \<Rightarrow> ('q, 'w) fetch \<Rightarrow> 'q pvca list \<Rightarrow> ('q, 'w, 'q fetch_acc option) prog" where
  "fetchPVCsForPVCAs L c fetch pvcas = foldM (fetch_step L c fetch) pvcas \<lparr>fa_pvcas = [], fa_owners = (\<lambda>_. [])\<rparr>"

section \<open>One claim\<close>

text \<open>What the loop over the claims of an autoscaler carries along.\<close>

record 'q acc =
  ac_recs :: "'q VolumeRecommendation list"
  ac_resizing :: resizingConditionAggregator
  ac_recommendation :: recommendationsConditionAggregator

definition fail_recommendation :: "string \<Rightarrow> string \<Rightarrow> 'q acc \<Rightarrow> 'q acc" where
  "fail_recommendation reason message a =
     a\<lparr>ac_recommendation := rec_addCondition
        (Condition ConditionTypeRecommendationAvailable ConditionFalse reason message) (ac_recommendation a)\<rparr>"

definition set_recommendation :: "string \<Rightarrow> 'q VolumeRecommendation \<Rightarrow> 'q acc \<Rightarrow> 'q acc" where
  "set_recommendation n vr a = a\<lparr>ac_recs := setVolumeRecommendationForPVC (ac_recs a) n vr\<rparr>"

fun strings_Join :: "string list \<Rightarrow> string \<Rightarrow> string" where
  "strings_Join [] sep = ''''"
| "strings_Join [s] sep = s"
| "strings_Join (s # t # ts) sep = s @ sep @ strings_Join (t # ts) sep"

text \<open>From the decision to grow on: strategy, cooldown, resize.\<close>

definition resize_step ::
  "'q libs \<Rightarrow> ('q, 'w) client \<Rightarrow> 'q pvc \<Rightarrow> 'q VolumePolicy \<Rightarrow> string \<Rightarrow> 'q \<Rightarrow> 'q VolumeRecommendation \<Rightarrow> 'q acc \<Rightarrow>
    ('q, 'w, 'q acc option) prog" where
  "resize_step L c p policy reason targetSize vr a =
     (case ScaleUp policy of None \<Rightarrow> ret None | Some rules \<Rightarrow>
      if ResizeStrategy rules = OffVolumeResizeStrategy
      then ret (Some (set_recommendation (pvc_name p) (vr\<lparr>Target := \<lparr>target_size = Some targetSize\<rparr>\<rparr>) a))
      else do {
        cd \<leftarrow> isInCooldown c p rules vr (ac_resizing a);
        let a1 = a\<lparr>ac_resizing := snd cd\<rparr>;
        if fst cd then ret (Some (set_recommendation (pvc_name p) vr a1))
        else do {
          r \<leftarrow> resizePVC (lb_quantity L) c p reason targetSize vr (ac_resizing a1);
          ret (map_option (\<lambda>(p', vr', err, agg). set_recommendation (pvc_name p') vr' (a1\<lparr>ac_resizing := agg\<rparr>)) r)
        }
      })"

text \<open>The target size and what follows from it.\<close>

definition grow_step ::
  "'q libs \<Rightarrow> ('q, 'w) client \<Rightarrow> 'q pvc \<Rightarrow> 'q VolumePolicy \<Rightarrow> string \<Rightarrow> 'q VolumeRecommendation \<Rightarrow> 'q acc \<Rightarrow>
    ('q, 'w, 'q acc option) prog" where
  "grow_step L c p policy reason vr a = do {
     t \<leftarrow> recommendResize (lb_quantity L) p reason policy vr (ac_resizing a);
     case t of
       None \<Rightarrow> ret None
     | Some (target, agg) \<Rightarrow>
         (case target of
            None \<Rightarrow> ret (Some (set_recommendation (pvc_name p) vr (a\<lparr>ac_resizing := agg\<rparr>)))
          | Some targetSize \<Rightarrow> resize_step L c p policy reason targetSize vr (a\<lparr>ac_resizing := agg\<rparr>))
   }"

text \<open>From a refreshed recommendation on: recovery, or deciding about growth.\<close>

definition scale_step ::
  "'q libs \<Rightarrow> ('q, 'w) runner \<Rightarrow> 'q pvca \<Rightarrow> 'q pvc \<Rightarrow> 'q VolumePolicy \<Rightarrow> 'q VolumeRecommendation \<Rightarrow> 'q acc \<Rightarrow>
    ('q, 'w, 'q acc option) prog" where
  "scale_step L r pvca p policy vr a =
     (if ShouldRecover p then
        (if \<not> IsKubernetesVersionGreaterEqual134 (lb_NewVersion L) (lb_Check L) (rn_kubernetesVersion r)
         then ret (Some (set_recommendation (pvc_name p) vr a))
         else do {
           x \<leftarrow> Recover (lb_quantity L) (rn_recoverer r) p vr;
           ret (map_option (\<lambda>(p', vr', cond, err).
             set_recommendation (pvc_name p') vr'
               (case cond of None \<Rightarrow> a | Some cd \<Rightarrow> a\<lparr>ac_resizing := res_addCondition cd (ac_resizing a)\<rparr>)) x)
         })
      else case scalingReason (lb_quantity L) p policy vr of
        None \<Rightarrow> ret None
      | Some (reason, isAtMax) \<Rightarrow> do {
          _ \<leftarrow> emit (GaugeSet PVCAtMaxCapacity [pvc_namespace p, pvc_name p, pvca_name pvca] (if isAtMax then 1 else 0));
          case isResizeInProgress (lb_quantity L) p reason (ac_resizing a) of
            (inProgress, agg) \<Rightarrow>
              if inProgress then ret (Some (set_recommendation (pvc_name p) vr (a\<lparr>ac_resizing := agg\<rparr>)))
              else grow_step L (rn_client r) p policy reason vr (a\<lparr>ac_resizing := agg\<rparr>)
        })"

text \<open>The body of the loop over the claims.\<close>

definition reconcile_pvc ::
  "'q libs \<Rightarrow> ('q, 'w) runner \<Rightarrow> 'q pvca \<Rightarrow> owners \<Rightarrow> Metrics \<Rightarrow> 'q acc \<Rightarrow> 'q pvc \<Rightarrow> ('q, 'w, 'q acc option) prog" where
  "reconcile_pvc L r pvca owners metricsData a p0 =
     (let pvcObjKey = pvc_key p0; os = owners (NamespacedName_String pvcObjKey) in
      if length os > 1
      then ret (Some (fail_recommendation ReasonAmbiguousPVCA
             (''PersistentVolumeClaim '' @ NamespacedName_String pvcObjKey @
              '' is scaled by multiple PersistentVolumeClaimAutoscalers: '' @ strings_Join os '', '') a))
      else do {
        g \<leftarrow> api (Get_PVC (rn_client r) pvcObjKey);
        case g of
          Inl err \<Rightarrow> ret (Some (fail_recommendation ReasonPVCFetchError
            (''Failed to get PersistentVolumeClaim '' @ NamespacedName_String pvcObjKey @ '': '' @ Error err) a))
        | Inr p \<Rightarrow>
            (case GetVolumePolicy (lb_quote L) (pvc_name p) (VolumePolicies (Spec pvca)) of
               Inl err \<Rightarrow> ret (Some (fail_recommendation ReasonRecommendationError (snd pvcObjKey @ '': '' @ Error err) a))
             | Inr None \<Rightarrow> ret (Some a)
             | Inr (Some policy) \<Rightarrow> do {
                 v \<leftarrow> validatePVC (lb_quantity L) (rn_client r) p policy;
                 case v of
                   Some err \<Rightarrow> ret (Some (fail_recommendation ReasonRecommendationError (snd pvcObjKey @ '': '' @ Error err) a))
                 | None \<Rightarrow>
                     (case updateVolumeRecommendationForPVC (lb_quantity L) (ac_recs a) p (metricsData pvcObjKey) of
                        Inl err \<Rightarrow> do {
                          _ \<leftarrow> emit (CounterInc SkippedTotal [pvca_namespace pvca, pvca_name pvca, Error err]);
                          ret (Some (fail_recommendation ReasonMetricsFetchError (snd pvcObjKey @ '': '' @ Error err) a))
                        }
                      | Inr vr \<Rightarrow> scale_step L r pvca p policy vr a)
               })
      })"

section \<open>One autoscaler, all autoscalers\<close>

definition kept_recommendations :: "'q libs \<Rightarrow> 'q pvca \<Rightarrow> 'q pvc list \<Rightarrow> 'q VolumeRecommendation list" where
  "kept_recommendations L pvca pvcs =
     filter (\<lambda>vr. list_ex (\<lambda>p. pvc_name p = vr_name vr) pvcs \<and>
        (case GetVolumePolicy (lb_quote L) (vr_name vr) (VolumePolicies (Spec pvca)) of
           Inr (Some _) \<Rightarrow> True | _ \<Rightarrow> False)) (VolumeRecommendations (Status pvca))"

definition reconcilePVCA ::
  "'q libs \<Rightarrow> ('q, 'w) runner \<Rightarrow> owners \<Rightarrow> Metrics \<Rightarrow> 'q pvca \<times> 'q pvc list \<Rightarrow> ('q, 'w, unit option) prog" where
  "reconcilePVCA L r owners metricsData x =
     (case x of (pvca, pvcs) \<Rightarrow> do {
        f \<leftarrow> foldM (reconcile_pvc L r pvca owners metricsData) pvcs
               \<lparr>ac_recs = kept_recommendations L pvca pvcs, ac_resizing = no_res_conditions,
                ac_recommendation = no_rec_conditions\<rparr>;
        case f of
          None \<Rightarrow> ret None
        | Some a \<Rightarrow> do {
            _ \<leftarrow> setStatus L (rn_client r) pvca (rec_getAggregatedCondition (ac_recommendation a))
                   (res_getAggregatedCondition (ac_resizing a)) (ac_recs a);
            ret (Some ())
          }
      })"

definition reconcileAll :: "'q libs \<Rightarrow> ('q, 'w) runner \<Rightarrow> ('q, 'w, go_error option option) prog" where
  "reconcileAll L r = do {
     _ \<leftarrow> emit (GaugeReset PVCAtMaxCapacity);
     l \<leftarrow> api (List_PVCAs (rn_client r) None [(AutoscalerNameIndexKey, rn_autoscalerName r)]);
     case l of
       Inl err \<Rightarrow> ret (Some (Some err))
     | Inr pvcas \<Rightarrow>
         if pvcas = [] then ret (Some None)
         else do {
           m \<leftarrow> api (rn_metricsSource r);
           case m of
             Inl err \<Rightarrow> ret (Some (Some (Wrapped ''failed to get metrics'' err)))
           | Inr metricsData \<Rightarrow> do {
               f \<leftarrow> fetchPVCsForPVCAs L (rn_client r) (rn_pvcFetcher r) pvcas;
               case f of
                 None \<Rightarrow> ret None
               | Some acc \<Rightarrow> do {
                   x \<leftarrow> foldM (\<lambda>_ x. reconcilePVCA L r (fa_owners acc) metricsData x) (lb_order L (fa_pvcas acc)) ();
                   ret (map_option (\<lambda>_. None) x)
                 }
             }
         }
   }"

text \<open>
  The loop of \<open>Start\<close>: ticks of the ticker until the context ends. The heartbeat is touched
  after every pass, with the clock of the world at that moment, also after a failed pass.
  \<^verbatim>\<open>time.NewTicker\<close> panics for an interval that is not positive.
\<close>

datatype loop_event = Tick | Done

fun runner_loop :: "'q libs \<Rightarrow> ('q, 'w) runner \<Rightarrow> loop_event list \<Rightarrow> heartbeat \<Rightarrow> ('q, 'w, heartbeat option) prog" where
  "runner_loop L r [] h = ret (Some h)"
| "runner_loop L r (Done # es) h = ret (Some h)"
| "runner_loop L r (Tick # es) h = do {
     x \<leftarrow> reconcileAll L r;
     case x of
       None \<Rightarrow> ret None
     | Some _ \<Rightarrow> do {
         t \<leftarrow> now (rn_client r);
         runner_loop L r es (if rn_heartbeat r then UpdateLastActivity t h else h)
       }
   }"

definition Runner_Start :: "'q libs \<Rightarrow> ('q, 'w) runner \<Rightarrow> loop_event list \<Rightarrow> heartbeat \<Rightarrow> ('q, 'w, heartbeat option) prog" where
  "Runner_Start L r es h =
     (if rn_interval r \<le> 0 then ret None
      else do {
        t \<leftarrow> now (rn_client r);
        runner_loop L r es (if rn_heartbeat r then StartMonitoring t h else h)
      })"

end
