(* ===== verification/Runner_Safety.thy ===== *)
theory Runner_Safety
  imports Runner
begin

text \<open>
  What the periodic runner may do to the cluster: the contracts of its handlers, from one claim
  to the whole loop of \<open>Start\<close>, in the calculus of \<open>Kube_Client\<close>, the theorem that every patch
  it sends is allowed, and a concrete run in which a claim that is 90 percent full grows.
\<close>

section \<open>Contracts of the pass over one claim\<close>

text \<open>
  What is assumed of the objects the API server returns: sizes up to \<^verbatim>\<open>2^62\<close> bytes, a resource
  request on every claim, the scaling rules that the custom resource definition defaults,
  and lists that respect the field selector.
\<close>

definition sane_claim :: "'q quantity_ops \<Rightarrow> ('q \<Rightarrow> rat) \<Rightarrow> 'q pvc \<Rightarrow> bool" where
  "sane_claim Q amount p \<longleftrightarrow> size_ok amount (specSize Q p) \<and> size_ok amount (statusSize Q p) \<and> pvc_requests p \<noteq> None"

definition sane_pvca :: "('q \<Rightarrow> rat) \<Rightarrow> 'q pvca \<Rightarrow> bool" where
  "sane_pvca amount a \<longleftrightarrow>
     (\<forall>policy \<in> set (VolumePolicies (Spec a)). rules_complete policy \<and> size_ok amount (MaxCapacity policy)) \<and>
     distinct (map vr_name (VolumeRecommendations (Status a)))"

definition sane_client :: "'q quantity_ops \<Rightarrow> ('q \<Rightarrow> rat) \<Rightarrow> ('q, 'w) client \<Rightarrow> bool" where
  "sane_client Q amount c \<longleftrightarrow> keeps_identity c \<and>
     (\<forall>k w p w'. Get_PVC c k w = (Inr p, w') \<longrightarrow> sane_claim Q amount p) \<and>
     (\<forall>ns fs w as w'. List_PVCAs c ns fs w = (Inr as, w') \<longrightarrow>
        (\<forall>a \<in> set as. sane_pvca amount a \<and> list_all (matches_field a) fs))"

text \<open>
  The objects the runner acts on: autoscalers the API server listed for the name, and claims it
  answered with.
\<close>

definition listed :: "('q, 'w) client \<Rightarrow> string \<Rightarrow> 'q pvca \<Rightarrow> bool" where
  "listed c name a \<longleftrightarrow> (\<exists>w as w'. List_PVCAs c None [(AutoscalerNameIndexKey, name)] w = (Inr as, w') \<and> a \<in> set as)"

definition answered :: "('q, 'w) client \<Rightarrow> 'q pvc \<Rightarrow> bool" where
  "answered c p \<longleftrightarrow> (\<exists>w w'. Get_PVC c (pvc_key p) w = (Inr p, w'))"

text \<open>Whether the runner sees a resize in progress depends on the claim only.\<close>

definition resizing_now :: "'q quantity_ops \<Rightarrow> 'q pvc \<Rightarrow> bool" where
  "resizing_now Q p \<longleftrightarrow> fst (isResizeInProgress Q p '''' no_res_conditions)"

lemma isResizeInProgress_now: "fst (isResizeInProgress Q p reason agg) = resizing_now Q p"
  by (simp add: resizing_now_def isResizeInProgress_def Let_def split: option.split sum.split)

text \<open>The patches of a claim that are allowed: a growth under the policy, or a recovery.\<close>

definition growth_patch :: "'q quantity_ops \<Rightarrow> ('q \<Rightarrow> rat) \<Rightarrow> 'q VolumePolicy \<Rightarrow> 'q pvc \<Rightarrow> 'q pvc \<Rightarrow> bool" where
  "growth_patch Q amount policy old new \<longleftrightarrow>
     \<not> ShouldRecover old \<and> \<not> resizing_now Q old \<and>
     (\<exists>rules. ScaleUp policy = Some rules \<and> ResizeStrategy rules \<noteq> OffVolumeResizeStrategy) \<and>
     (\<exists>m q. pvc_requests old = Some m \<and> new = resized Q old m q \<and> grown_size Q amount old policy q)"

definition recovery_patch :: "'q quantity_ops \<Rightarrow> ('q \<Rightarrow> rat) \<Rightarrow> 'q pvc \<Rightarrow> 'q pvc \<Rightarrow> bool" where
  "recovery_patch Q amount old new \<longleftrightarrow>
     ShouldRecover old \<and> (\<exists>m q. pvc_requests old = Some m \<and> new = with_request old m q \<and> recovered_size Q amount old q)"

definition allowed_patch :: "'q libs \<Rightarrow> ('q \<Rightarrow> rat) \<Rightarrow> 'q pvca \<Rightarrow> bool \<Rightarrow> 'q pvc \<Rightarrow> 'q pvc \<Rightarrow> bool" where
  "allowed_patch L amount pvca lock old new \<longleftrightarrow>
     (\<exists>policy. GetVolumePolicy (lb_quote L) (pvc_name old) (VolumePolicies (Spec pvca)) = Inr (Some policy) \<and>
        (if lock then recovery_patch (lb_quantity L) amount old new else growth_patch (lb_quantity L) amount policy old new))"

definition claim_effect :: "'q libs \<Rightarrow> ('q \<Rightarrow> rat) \<Rightarrow> 'q pvca \<Rightarrow> 'q pvc \<Rightarrow> 'q effect \<Rightarrow> bool" where
  "claim_effect L amount pvca p e \<longleftrightarrow> well_labelled e \<and>
     (case e of PatchPVC lock old new \<Rightarrow> old = p \<and> allowed_patch L amount pvca lock old new
      | PatchPVCAStatus _ _ \<Rightarrow> False | PatchPod _ _ \<Rightarrow> False | Evict _ \<Rightarrow> False | _ \<Rightarrow> True)"

lemma claim_effect_note: "note_effect p e \<Longrightarrow> claim_effect L amount pvca p e"
  by (cases e) (auto simp: note_effect_def claim_effect_def)

lemma claim_effect_resize:
  assumes "resize_effect (lb_quantity L) p q e" "grown_size (lb_quantity L) amount p policy q"
    and "GetVolumePolicy (lb_quote L) (pvc_name p) (VolumePolicies (Spec pvca)) = Inr (Some policy)"
    and "\<not> ShouldRecover p" "\<not> resizing_now (lb_quantity L) p"
    and "ScaleUp policy = Some rules" "ResizeStrategy rules \<noteq> OffVolumeResizeStrategy"
  shows "claim_effect L amount pvca p e"
  using assms(1) unfolding resize_effect_def
proof
  assume "\<exists>m. pvc_requests p = Some m \<and> e = PatchPVC False p (resized (lb_quantity L) p m q)"
  then show ?thesis using assms(2-) by (auto simp: claim_effect_def allowed_patch_def growth_patch_def)
qed (rule claim_effect_note)

lemma claim_effect_recover:
  assumes "recover_effect (lb_quantity L) amount p e" "ShouldRecover p"
    and "GetVolumePolicy (lb_quote L) (pvc_name p) (VolumePolicies (Spec pvca)) = Inr (Some policy)"
  shows "claim_effect L amount pvca p e"
  using assms by (cases e) (auto simp: recover_effect_def claim_effect_def allowed_patch_def recovery_patch_def)

text \<open>The invariant of the loop: one recommendation per name, only names of the claims.\<close>

definition acc_inv :: "string set \<Rightarrow> 'q acc \<Rightarrow> bool" where
  "acc_inv N a \<longleftrightarrow> distinct (map vr_name (ac_recs a)) \<and> vr_name ` set (ac_recs a) \<subseteq> N"

abbreviation acc_ok :: "string set \<Rightarrow> 'q acc option \<Rightarrow> bool" where
  "acc_ok N r \<equiv> \<exists>a. r = Some a \<and> acc_inv N a"

lemma acc_inv_simps [simp]:
  "acc_inv N (a\<lparr>ac_resizing := x\<rparr>) = acc_inv N a" "acc_inv N (a\<lparr>ac_recommendation := y\<rparr>) = acc_inv N a"
  "acc_inv N (fail_recommendation reason m a) = acc_inv N a"
  by (simp_all add: acc_inv_def fail_recommendation_def)

lemma acc_inv_set:
  "acc_inv N a \<Longrightarrow> n \<in> N \<Longrightarrow> vr_name vr = n \<Longrightarrow> acc_inv N (set_recommendation n vr a)"
  by (auto simp: acc_inv_def set_recommendation_def recs.distinct_put recs.names_put)

text \<open>The server may answer with another version of the claim, but with the same name.\<close>

lemma acc_inv_set_key:
  "acc_inv N a \<Longrightarrow> pvc_key p' = pvc_key p \<Longrightarrow> pvc_name p \<in> N \<Longrightarrow> vr_name vr = pvc_name p \<Longrightarrow>
    acc_inv N (set_recommendation (pvc_name p') vr a)"
  by (rule acc_inv_set) (simp_all add: pvc_key_def)

lemma valid_resize_step:
  fixes L :: "'q libs"
  assumes id: "keeps_identity c" and g: "grown_size (lb_quantity L) amount p policy t"
    and pol: "GetVolumePolicy (lb_quote L) (pvc_name p) (VolumePolicies (Spec pvca)) = Inr (Some policy)"
    and rc: "rules_complete policy" and rq: "pvc_requests p \<noteq> None" and nr: "\<not> ShouldRecover p" "\<not> resizing_now (lb_quantity L) p"
    and inv: "acc_inv N a" and n: "pvc_name p \<in> N" "vr_name vr = pvc_name p"
  shows "valid (resize_step L c p policy reason t vr a) (claim_effect L amount pvca p) (acc_ok N)"
proof -
  obtain rules where r: "ScaleUp policy = Some rules" using rc by (auto simp: rules_complete_def split: option.splits)
  have res: "valid (resizePVC (lb_quantity L) c p reason t vr agg \<bind>
      (\<lambda>x. ret (map_option (\<lambda>(p', vr', err, agg'). set_recommendation (pvc_name p') vr' (a1\<lparr>ac_resizing := agg'\<rparr>)) x)))
      (claim_effect L amount pvca p) (acc_ok N)"
    if a1: "acc_inv N a1" and off: "ResizeStrategy rules \<noteq> OffVolumeResizeStrategy" for a1 agg
  proof (rule valid_call [OF valid_resizePVC [OF id] claim_effect_resize [OF _ g pol nr r off]])
    fix x :: "('q pvc \<times> 'q VolumeRecommendation \<times> go_error option \<times> resizingConditionAggregator) option"
    assume x: "(pvc_requests p \<noteq> None \<longrightarrow> x \<noteq> None) \<and> (\<forall>p' vr' err agg'. x = Some (p', vr', err, agg') \<longrightarrow>
       pvc_key p' = pvc_key p \<and> vr_name vr' = vr_name vr \<and> Current vr' = Current vr \<and>
       (if err = None then target_size (Target vr') = Some t else vr' = vr))"
    then obtain y where y: "x = Some y" using rq by blast
    obtain p' vr' err agg' where "y = (p', vr', err, agg')" by (cases y)
    with x y have "x = Some (p', vr', err, agg')" "pvc_key p' = pvc_key p" "vr_name vr' = vr_name vr" by blast+
    then show "valid (ret (map_option (\<lambda>(p', vr', err, agg'). set_recommendation (pvc_name p') vr' (a1\<lparr>ac_resizing := agg'\<rparr>)) x))
        (claim_effect L amount pvca p) (acc_ok N)"
      using n a1 by (intro valid_ret) (simp add: acc_inv_set_key)
  qed
  show ?thesis
    unfolding resize_step_def r Let_def option.case
  proof (rule valid_if, rule valid_ret)
    show "acc_ok N (Some (set_recommendation (pvc_name p) (vr\<lparr>Target := \<lparr>target_size = Some t\<rparr>\<rparr>) a))"
      using inv n by (auto intro: acc_inv_set)
    assume off: "ResizeStrategy rules \<noteq> OffVolumeResizeStrategy"
    show "valid (isInCooldown c p rules vr (ac_resizing a) \<bind> (\<lambda>cd.
        if fst cd then ret (Some (set_recommendation (pvc_name p) vr (a\<lparr>ac_resizing := snd cd\<rparr>)))
        else resizePVC (lb_quantity L) c p reason t vr (ac_resizing (a\<lparr>ac_resizing := snd cd\<rparr>)) \<bind>
          (\<lambda>x. ret (map_option (\<lambda>(p', vr', err, agg). set_recommendation (pvc_name p') vr'
            (a\<lparr>ac_resizing := snd cd, ac_resizing := agg\<rparr>)) x)))) (claim_effect L amount pvca p) (acc_ok N)"
      by (rule valid_seq, rule valid_isInCooldown, rule TrueI, rule valid_if, rule valid_ret)
        (use inv n res [OF _ off] in \<open>auto intro: acc_inv_set\<close>)
  qed
qed

lemma valid_grow_step:
  fixes L :: "'q libs"
  assumes Q: "quantity_laws (lb_quantity L) amount" and id: "keeps_identity c"
    and p: "sane_claim (lb_quantity L) amount p"
    and pol: "GetVolumePolicy (lb_quote L) (pvc_name p) (VolumePolicies (Spec pvca)) = Inr (Some policy)"
    and rc: "rules_complete policy" "size_ok amount (MaxCapacity policy)"
    and nr: "\<not> ShouldRecover p" "\<not> resizing_now (lb_quantity L) p"
    and inv: "acc_inv N a" and n: "pvc_name p \<in> N" "vr_name vr = pvc_name p"
  shows "valid (grow_step L c p policy reason vr a) (claim_effect L amount pvca p) (acc_ok N)"
  unfolding grow_step_def
proof (rule valid_call [OF valid_recommendResize [OF Q _ rc(2)] claim_effect_note])
  show "size_ok amount (specSize (lb_quantity L) p)" using p by (simp add: sane_claim_def)
  fix x :: "('q option \<times> resizingConditionAggregator) option"
  assume x: "(rules_complete policy \<longrightarrow> x \<noteq> None) \<and> (\<forall>t agg'. x = Some (Some t, agg') \<longrightarrow>
     (reason = ScalingReasonSpaceThreshold \<or> reason = ScalingReasonInodesThreshold) \<and> grown_size (lb_quantity L) amount p policy t)"
  then obtain t agg where t: "x = Some (t, agg)" using rc(1) by auto
  have i: "acc_inv N (a\<lparr>ac_resizing := agg\<rparr>)" using inv by simp
  show "valid (case x of None \<Rightarrow> ret None | Some (target, agg) \<Rightarrow>
      (case target of None \<Rightarrow> ret (Some (set_recommendation (pvc_name p) vr (a\<lparr>ac_resizing := agg\<rparr>)))
       | Some targetSize \<Rightarrow> resize_step L c p policy reason targetSize vr (a\<lparr>ac_resizing := agg\<rparr>)))
      (claim_effect L amount pvca p) (acc_ok N)"
  proof (cases t)
    case None
    then show ?thesis using t i n by (auto intro!: valid_ret acc_inv_set)
  next
    case (Some q)
    have "grown_size (lb_quantity L) amount p policy q" using x t Some by simp
    moreover have "pvc_requests p \<noteq> None" using p by (simp add: sane_claim_def)
    ultimately show ?thesis using t Some valid_resize_step [OF id _ pol rc(1) _ nr i n] by simp
  qed
qed

lemma valid_scale_step:
  assumes Q: "quantity_laws (lb_quantity L) amount" and id: "keeps_identity (rn_client r)"
    and p: "sane_claim (lb_quantity L) amount p"
    and pol: "GetVolumePolicy (lb_quote L) (pvc_name p) (VolumePolicies (Spec pvca)) = Inr (Some policy)"
    and rc: "rules_complete policy" "size_ok amount (MaxCapacity policy)"
    and inv: "acc_inv N a" and n: "pvc_name p \<in> N" "vr_name vr = pvc_name p"
  shows "valid (scale_step L r pvca p policy vr a) (claim_effect L amount pvca p) (acc_ok N)"
proof (cases "ShouldRecover p")
  case True
  have p': "size_ok amount (statusSize (lb_quantity L) p)" "size_ok amount (specSize (lb_quantity L) p)"
    using p by (auto simp: sane_claim_def)
  have "valid (Recover (lb_quantity L) (rn_recoverer r) p vr \<bind> (\<lambda>x.
      ret (map_option (\<lambda>(p', vr', cond, err). set_recommendation (pvc_name p') vr'
        (case cond of None \<Rightarrow> a | Some cd \<Rightarrow> a\<lparr>ac_resizing := res_addCondition cd (ac_resizing a)\<rparr>)) x)))
      (claim_effect L amount pvca p) (acc_ok N)"
    by (rule valid_call [OF valid_Recover [OF Q p' id] claim_effect_recover [OF _ True pol]])
      (use inv n in \<open>auto simp: recover_result_def intro!: valid_ret acc_inv_set_key split: option.split\<close>)
  then show ?thesis using True inv n by (auto simp: scale_step_def intro!: valid_ret acc_inv_set)
next
  case False
  obtain reason isAtMax where sr: "scalingReason (lb_quantity L) p policy vr = Some (reason, isAtMax)"
    using rc(1) by (auto simp: rules_complete_def scalingReason_def split: option.splits)
  obtain b agg where b: "isResizeInProgress (lb_quantity L) p reason (ac_resizing a) = (b, agg)" by fastforce
  then have now: "b = resizing_now (lb_quantity L) p" using isResizeInProgress_now by (metis fst_conv)
  have i: "acc_inv N (a\<lparr>ac_resizing := agg\<rparr>)" using inv by simp
  have "valid (if b then ret (Some (set_recommendation (pvc_name p) vr (a\<lparr>ac_resizing := agg\<rparr>)))
      else grow_step L (rn_client r) p policy reason vr (a\<lparr>ac_resizing := agg\<rparr>)) (claim_effect L amount pvca p) (acc_ok N)"
    by (intro valid_if valid_ret valid_grow_step [OF Q id p pol rc False _ i n]) (use i n now in \<open>auto intro: acc_inv_set\<close>)
  then show ?thesis
    using False sr b by (auto simp: scale_step_def claim_effect_def intro!: valid_seq valid_emit)
qed

section \<open>Contracts of the pass over one autoscaler\<close>

lemma sane_clientD:
  assumes "sane_client Q amount c"
  shows "keeps_identity c" "Get_PVC c k w = (Inr p, w') \<Longrightarrow> sane_claim Q amount p"
    "List_PVCAs c ns fs w = (Inr as, w') \<Longrightarrow> a \<in> set as \<Longrightarrow> sane_pvca amount a \<and> list_all (matches_field a) fs"
  using assms unfolding sane_client_def by blast+

lemma valid_get_sane:
  assumes "sane_client Q amount c" "\<And>e. valid (f (Inl e)) E R"
    and "\<And>p. pvc_key p = k \<Longrightarrow> answered c p \<Longrightarrow> sane_claim Q amount p \<Longrightarrow> valid (f (Inr p)) E R"
  shows "valid (api (Get_PVC c k) \<bind> f) E R"
proof (rule valid_bind [where R = "\<lambda>r. valid (f r) E R"], rule valid_api)
  fix w
  obtain r w' where g: "Get_PVC c k w = (r, w')" by fastforce
  show "valid (f (fst (Get_PVC c k w))) E R"
  proof (cases r)
    case (Inr p)
    with g have p: "pvc_key p = k" "sane_claim Q amount p"
      using keeps_identityD(1) [OF sane_clientD(1) [OF assms(1)]] sane_clientD(2) [OF assms(1)] by auto
    with g Inr have "answered c p" by (auto simp: answered_def)
    with assms(3) p g Inr show ?thesis by simp
  qed (simp add: g assms(2))
qed

text \<open>What the status patch of an autoscaler changes, and the effects of its pass.\<close>

definition status_patch :: "string set \<Rightarrow> 'q pvca \<Rightarrow> 'q pvca \<Rightarrow> bool" where
  "status_patch N old new \<longleftrightarrow>
     (\<exists>st. new = old\<lparr>Status := st\<rparr> \<and> sorted (map vr_name (VolumeRecommendations st)) \<and>
        distinct (map vr_name (VolumeRecommendations st)) \<and> vr_name ` set (VolumeRecommendations st) \<subseteq> N)"

lemma status_patchI:
  "sorted (map vr_name (VolumeRecommendations st)) \<Longrightarrow> distinct (map vr_name (VolumeRecommendations st)) \<Longrightarrow>
    vr_name ` set (VolumeRecommendations st) \<subseteq> N \<Longrightarrow> status_patch N a (a\<lparr>Status := st\<rparr>)"
  unfolding status_patch_def by blast

definition pass_effect :: "'q libs \<Rightarrow> ('q \<Rightarrow> rat) \<Rightarrow> ('q, 'w) client \<Rightarrow> owners \<Rightarrow> 'q pvca \<Rightarrow> 'q pvc list \<Rightarrow> 'q effect \<Rightarrow> bool" where
  "pass_effect L amount c owners pvca pvcs e \<longleftrightarrow> well_labelled e \<and>
     (case e of
        PatchPVC lock old new \<Rightarrow> answered c old \<and> pvc_key old \<in> pvc_key ` set pvcs \<and>
          length (owners (NamespacedName_String (pvc_key old))) \<le> 1 \<and> allowed_patch L amount pvca lock old new
      | PatchPVCAStatus old new \<Rightarrow> old = pvca \<and> status_patch (pvc_name ` set pvcs) old new
      | PatchPod _ _ \<Rightarrow> False | Evict _ \<Rightarrow> False | _ \<Rightarrow> True)"

lemma pass_effect_claim:
  "claim_effect L amount pvca p e \<Longrightarrow> answered c p \<Longrightarrow> pvc_key p \<in> pvc_key ` set pvcs \<Longrightarrow>
    length (owners (NamespacedName_String (pvc_key p))) \<le> 1 \<Longrightarrow> pass_effect L amount c owners pvca pvcs e"
  by (cases e) (auto simp: claim_effect_def pass_effect_def)

lemma valid_setStatus:
  assumes "distinct (map vr_name rs)" "vr_name ` set rs \<subseteq> N"
    and "\<And>st. sorted (map vr_name (VolumeRecommendations st)) \<Longrightarrow> distinct (map vr_name (VolumeRecommendations st)) \<Longrightarrow>
      vr_name ` set (VolumeRecommendations st) \<subseteq> N \<Longrightarrow> E (PatchPVCAStatus pvca (pvca\<lparr>Status := st\<rparr>))"
    and "\<And>x. R x"
  shows "valid (setStatus L c pvca rc zc rs) E R"
proof -
  have "distinct (map vr_name (sort_key vr_name rs))"
    using assms(1) by (metis mset_eq_imp_distinct_iff mset_map mset_sort)
  then show ?thesis
    unfolding setStatus_def Let_def by (intro vcg assms(3,4)) (use assms(2) in simp_all)
qed

lemma valid_reconcile_pvc:
  assumes Q: "quantity_laws (lb_quantity L) amount" and c: "sane_client (lb_quantity L) amount (rn_client r)"
    and pv: "sane_pvca amount pvca" and mem: "p0 \<in> set pvcs" and inv: "acc_inv (pvc_name ` set pvcs) a"
  shows "valid (reconcile_pvc L r pvca owners metricsData a p0) (pass_effect L amount (rn_client r) owners pvca pvcs)
    (acc_ok (pvc_name ` set pvcs))"
proof (cases "length (owners (NamespacedName_String (pvc_key p0))) > 1")
  case True
  then show ?thesis using inv by (simp add: reconcile_pvc_def Let_def valid_ret)
next
  case False
  have fail: "valid (ret (Some (fail_recommendation reason m a))) E (acc_ok (pvc_name ` set pvcs))" for reason m E
    using inv by (simp add: valid_ret)
  have scale: "valid (scale_step L r pvca p policy vr a) (pass_effect L amount (rn_client r) owners pvca pvcs) (acc_ok (pvc_name ` set pvcs))"
    if "pvc_key p = pvc_key p0" "sane_claim (lb_quantity L) amount p" and ans: "answered (rn_client r) p"
      and pol: "GetVolumePolicy (lb_quote L) (pvc_name p) (VolumePolicies (Spec pvca)) = Inr (Some policy)"
      and "updateVolumeRecommendationForPVC (lb_quantity L) (ac_recs a) p v = Inr vr" for p policy vr v
  proof (rule valid_weaken)
    have n: "pvc_name p \<in> pvc_name ` set pvcs" using that(1) mem by (auto simp: pvc_key_def)
    have "rules_complete policy" "size_ok amount (MaxCapacity policy)"
      using pv GetVolumePolicy_mem [OF pol] by (auto simp: sane_pvca_def)
    then show "valid (scale_step L r pvca p policy vr a) (claim_effect L amount pvca p) (acc_ok (pvc_name ` set pvcs))"
      by (rule valid_scale_step [OF Q sane_clientD(1) [OF c] that(2) pol _ _ inv n updateVolumeRecommendation_name [OF that(5)]])
    show "pass_effect L amount (rn_client r) owners pvca pvcs e" if "claim_effect L amount pvca p e" for e
      using pass_effect_claim [OF that ans] \<open>pvc_key p = pvc_key p0\<close> mem False by simp
  qed
  have skip: "pass_effect L amount (rn_client r) owners pvca pvcs (CounterInc SkippedTotal [x, y, z])" for x y z
    by (simp add: pass_effect_def)
  show ?thesis
    unfolding reconcile_pvc_def Let_def if_not_P [OF False]
    by (rule valid_get_sane [OF c])
      (auto intro!: fail scale valid_ret valid_seq valid_validatePVC valid_emit skip inv split: sum.split option.split)
qed

lemma kept_recommendations_ok:
  assumes "sane_pvca amount pvca"
  shows "distinct (map vr_name (kept_recommendations L pvca pvcs))"
    "vr_name ` set (kept_recommendations L pvca pvcs) \<subseteq> pvc_name ` set pvcs"
  using assms by (auto simp: kept_recommendations_def sane_pvca_def distinct_map_filter list_ex_iff image_iff) metis

lemma valid_reconcilePVCA:
  assumes "quantity_laws (lb_quantity L) amount" "sane_client (lb_quantity L) amount (rn_client r)" "sane_pvca amount pvca"
  shows "valid (reconcilePVCA L r owners metricsData (pvca, pvcs)) (pass_effect L amount (rn_client r) owners pvca pvcs) (\<lambda>x. x = Some ())"
  unfolding reconcilePVCA_def prod.case
proof (rule valid_bind [OF valid_foldM_total [where I = "acc_inv (pvc_name ` set pvcs)"]])
  show "valid (reconcile_pvc L r pvca owners metricsData a p) (pass_effect L amount (rn_client r) owners pvca pvcs)
      (acc_ok (pvc_name ` set pvcs))" if "acc_inv (pvc_name ` set pvcs) a" "p \<in> set pvcs" for a p
    using valid_reconcile_pvc [OF assms that(2,1)] .
  show "acc_inv (pvc_name ` set pvcs) \<lparr>ac_recs = kept_recommendations L pvca pvcs, ac_resizing = no_res_conditions,
      ac_recommendation = no_rec_conditions\<rparr>"
    using kept_recommendations_ok [OF assms(3)] by (simp add: acc_inv_def)
qed (auto simp: acc_inv_def pass_effect_def intro!: valid_seq valid_setStatus [where N = "pvc_name ` set pvcs"] valid_ret status_patchI)

section \<open>The owners of a claim\<close>

text \<open>
  After fetching, the owner map holds for every key string exactly the autoscalers, in order,
  whose fetched claims include it.
\<close>

definition owners_exact :: "'q fetch_acc \<Rightarrow> bool" where
  "owners_exact acc \<longleftrightarrow>
     (\<forall>k. fa_owners acc k = map (\<lambda>(a, ps). NamespacedName_String (pvca_key a))
        (filter (\<lambda>(a, ps). k \<in> (NamespacedName_String \<circ> pvc_key) ` set ps) (fa_pvcas acc)))"

lemma fold_add_owner:
  "distinct (map (NamespacedName_String \<circ> pvc_key) ps) \<Longrightarrow>
    fold (add_owner a) ps ow k = (if k \<in> (NamespacedName_String \<circ> pvc_key) ` set ps then ow k @ [a] else ow k)"
proof (induction ps arbitrary: ow)
  case (Cons p ps)
  then show ?case by (auto simp: add_owner_def Let_def)
qed simp

lemma fetched_strings_distinct:
  assumes "fetched a (Inr ps)"
  shows "distinct (map (NamespacedName_String \<circ> pvc_key) ps)"
proof -
  have "distinct (map pvc_key ps)" and n: "\<forall>p \<in> set ps. pvc_namespace p = pvca_namespace a"
    using assms by (auto simp: fetched_def)
  then have "inj_on NamespacedName_String (pvc_key ` set ps)"
    by (intro inj_on_subset [OF NamespacedName_String_inj [of "pvca_namespace a"]]) (auto simp: pvc_key_def)
  with \<open>distinct (map pvc_key ps)\<close> show ?thesis
    by (simp add: distinct_map comp_inj_on flip: map_map)
qed

definition fetch_inv :: "'q pvca list \<Rightarrow> 'q fetch_acc \<Rightarrow> bool" where
  "fetch_inv pvcas acc \<longleftrightarrow> owners_exact acc \<and> (\<forall>(a, ps) \<in> set (fa_pvcas acc). a \<in> set pvcas \<and> fetched a (Inr ps))"

definition fetch_effect :: "'q pvca list \<Rightarrow> 'q effect \<Rightarrow> bool" where
  "fetch_effect pvcas e \<longleftrightarrow> (\<exists>old new. e = PatchPVCAStatus old new \<and> old \<in> set pvcas \<and> status_patch {} old new)"

lemma fetch_inv_step:
  assumes "fetch_inv pvcas acc" "a \<in> set pvcas" "fetched a (Inr ps)"
  shows "fetch_inv pvcas \<lparr>fa_pvcas = fa_pvcas acc @ [(a, ps)],
    fa_owners = fold (add_owner (NamespacedName_String (pvca_key a))) ps (fa_owners acc)\<rparr>"
  using assms fold_add_owner [OF fetched_strings_distinct [OF assms(3)]]
  by (auto simp: fetch_inv_def owners_exact_def)

lemma fetch_inv_init: "fetch_inv pvcas \<lparr>fa_pvcas = [], fa_owners = (\<lambda>_. [])\<rparr>"
  by (simp add: fetch_inv_def owners_exact_def)

context pvc_fetcher
begin

lemma valid_fetch_step:
  assumes "ok e" "fetch_inv pvcas acc" "a \<in> set pvcas"
  shows "valid (fetch_step L c (fetch e) acc a) (fetch_effect pvcas) (\<lambda>r. \<exists>acc'. r = Some acc' \<and> fetch_inv pvcas acc')"
  unfolding fetch_step_def Let_def
proof (rule valid_call [OF fetch_contract [OF assms(1)]])
  fix r :: "(go_error + 'q pvc list) option"
  assume "\<exists>x. r = Some x \<and> fetched a x"
  then obtain x where x: "r = Some x" "fetched a x" by blast
  show "valid (case r of None \<Rightarrow> ret None
      | Some (Inl err) \<Rightarrow> setStatus L c a (fst (fetch_error_conditions L a err)) (snd (fetch_error_conditions L a err)) [] \<bind>
          (\<lambda>_. ret (Some acc))
      | Some (Inr pvcs) \<Rightarrow> ret (Some \<lparr>fa_pvcas = fa_pvcas acc @ [(a, pvcs)],
          fa_owners = fold (add_owner (NamespacedName_String (pvca_key a))) pvcs (fa_owners acc)\<rparr>))
      (fetch_effect pvcas) (\<lambda>r. \<exists>acc'. r = Some acc' \<and> fetch_inv pvcas acc')"
  proof (cases x)
    case (Inl err)
    then show ?thesis using x assms
      by (auto simp: fetch_effect_def intro!: valid_seq valid_setStatus [where N = "{}"] valid_ret status_patchI)
  next
    case (Inr ps)
    with x fetch_inv_step [OF assms(2,3)] show ?thesis by (auto intro!: valid_ret)
  qed
qed simp

lemma valid_fetchPVCsForPVCAs:
  assumes "ok e"
  shows "valid (fetchPVCsForPVCAs L c (fetch e) pvcas) (fetch_effect pvcas) (\<lambda>r. \<exists>acc. r = Some acc \<and> fetch_inv pvcas acc)"
  unfolding fetchPVCsForPVCAs_def
  by (rule valid_foldM_total) (auto intro!: valid_fetch_step assms fetch_inv_init)

end

section \<open>All autoscalers\<close>

text \<open>The effects of the runner with a given autoscaler name.\<close>

definition run_effect :: "'q libs \<Rightarrow> ('q \<Rightarrow> rat) \<Rightarrow> ('q, 'w) client \<Rightarrow> string \<Rightarrow> 'q effect \<Rightarrow> bool" where
  "run_effect L amount c name e \<longleftrightarrow> well_labelled e \<and>
     (case e of
        PatchPVC lock old new \<Rightarrow> (\<exists>a. listed c name a \<and> pvca_namespace a = pvc_namespace old \<and> answered c old \<and>
          allowed_patch L amount a lock old new)
      | PatchPVCAStatus old new \<Rightarrow> listed c name old \<and> (\<exists>N. status_patch N old new)
      | PatchPod _ _ \<Rightarrow> False | Evict _ \<Rightarrow> False | _ \<Rightarrow> True)"

lemma run_effect_pass:
  assumes "pass_effect L amount c owners a ps e" "listed c name a" "fetched a (Inr ps)"
  shows "run_effect L amount c name e"
proof (cases e)
  case (PatchPVC lock old new)
  then obtain p where "p \<in> set ps" "pvc_key old = pvc_key p" using assms(1) by (auto simp: pass_effect_def)
  then have "pvca_namespace a = pvc_namespace old" using assms(3) by (auto simp: fetched_def pvc_key_def)
  then show ?thesis using PatchPVC assms(1,2) by (auto simp: pass_effect_def run_effect_def)
qed (use assms in \<open>auto simp: pass_effect_def run_effect_def\<close>)

lemma valid_list_pvcas:
  assumes "sane_client Q amount c" "\<And>e. valid (f (Inl e)) E R"
    and "\<And>as. (\<And>a. a \<in> set as \<Longrightarrow> sane_pvca amount a \<and> listed c name a) \<Longrightarrow> valid (f (Inr as)) E R"
  shows "valid (api (List_PVCAs c None [(AutoscalerNameIndexKey, name)]) \<bind> f) E R"
proof (rule valid_bind [where R = "\<lambda>r. valid (f r) E R"], rule valid_api)
  fix w
  obtain r w' where l: "List_PVCAs c None [(AutoscalerNameIndexKey, name)] w = (r, w')" by fastforce
  show "valid (f (fst (List_PVCAs c None [(AutoscalerNameIndexKey, name)] w))) E R"
  proof (cases r)
    case (Inr as)
    with l have "sane_pvca amount a \<and> listed c name a" if "a \<in> set as" for a
      using that sane_clientD(3) [OF assms(1)] unfolding listed_def by blast
    with assms(3) l Inr show ?thesis by simp
  qed (simp add: l assms(2))
qed

text \<open>A runner with a positive interval all of whose parts satisfy their laws.\<close>

definition runner_ok :: "'q libs \<Rightarrow> ('q \<Rightarrow> rat) \<Rightarrow> ('q, 'w) fetch_env \<Rightarrow> ('q, 'w) runner \<Rightarrow> bool" where
  "runner_ok L amount e r \<longleftrightarrow>
     quantity_laws (lb_quantity L) amount \<and> sane_client (lb_quantity L) amount (rn_client r) \<and>
     0 < rn_interval r \<and> rn_pvcFetcher r = env_Fetch e \<and> fetch_env_ok e \<and> (\<forall>xs. mset (lb_order L xs) = mset xs)"

lemma valid_reconcile_pass:
  assumes "runner_ok L amount e r" "fetch_inv pvcas acc"
    and "\<And>a. a \<in> set pvcas \<Longrightarrow> sane_pvca amount a \<and> listed (rn_client r) (rn_autoscalerName r) a"
  shows "valid (foldM (\<lambda>_ x. reconcilePVCA L r (fa_owners acc) md x) (lb_order L (fa_pvcas acc)) ())
    (run_effect L amount (rn_client r) (rn_autoscalerName r)) (\<lambda>x. x = Some ())"
proof -
  have "valid (reconcilePVCA L r (fa_owners acc) md x) (run_effect L amount (rn_client r) (rn_autoscalerName r)) (\<lambda>r. \<exists>b. r = Some b \<and> True)"
    if "x \<in> set (lb_order L (fa_pvcas acc))" for x
  proof -
    obtain a ps where x: "x = (a, ps)" by fastforce
    have "x \<in> set (fa_pvcas acc)" using that assms(1) unfolding runner_ok_def by (metis mset_eq_setD)
    then have m: "a \<in> set pvcas" "fetched a (Inr ps)" using assms(2) x by (auto simp: fetch_inv_def)
    show ?thesis unfolding x
      by (rule valid_weaken [OF valid_reconcilePVCA run_effect_pass])
        (use assms(1,3) m in \<open>auto simp: runner_ok_def\<close>)
  qed
  from valid_foldM_total [where I = "\<lambda>_. True", OF this] show ?thesis by simp
qed

lemma valid_reconcileAll:
  assumes "runner_ok L amount e r"
  shows "valid (reconcileAll L r) (run_effect L amount (rn_client r) (rn_autoscalerName r)) (\<lambda>x. x \<noteq> None)"
proof -
  have ok: "fetch_env_ok e" "rn_pvcFetcher r = env_Fetch e" "sane_client (lb_quantity L) amount (rn_client r)"
    using assms by (auto simp: runner_ok_def)
  have pass: "valid (fetchPVCsForPVCAs L (rn_client r) (rn_pvcFetcher r) pvcas \<bind> (\<lambda>f.
      case f of None \<Rightarrow> ret None
      | Some acc \<Rightarrow> foldM (\<lambda>_ x. reconcilePVCA L r (fa_owners acc) md x) (lb_order L (fa_pvcas acc)) () \<bind>
          (\<lambda>x. ret (map_option (\<lambda>_. None) x)))) (run_effect L amount (rn_client r) (rn_autoscalerName r)) (\<lambda>x. x \<noteq> None)"
    if pv: "\<And>a. a \<in> set pvcas \<Longrightarrow> sane_pvca amount a \<and> listed (rn_client r) (rn_autoscalerName r) a" for pvcas md
    unfolding ok(2)
  proof (rule valid_call [OF pf.valid_fetchPVCsForPVCAs [OF ok(1)]])
    show "run_effect L amount (rn_client r) (rn_autoscalerName r) x" if "fetch_effect pvcas x" for x
      using that pv by (auto simp: fetch_effect_def run_effect_def)
    fix f :: "'a fetch_acc option"
    assume "\<exists>acc. f = Some acc \<and> fetch_inv pvcas acc"
    then obtain acc where acc: "f = Some acc" "fetch_inv pvcas acc" by blast
    show "valid (case f of None \<Rightarrow> ret None
      | Some acc \<Rightarrow> foldM (\<lambda>_ x. reconcilePVCA L r (fa_owners acc) md x) (lb_order L (fa_pvcas acc)) () \<bind>
          (\<lambda>x. ret (map_option (\<lambda>_. None) x))) (run_effect L amount (rn_client r) (rn_autoscalerName r)) (\<lambda>x. x \<noteq> None)"
      unfolding acc(1) option.case
      by (rule valid_bind [OF valid_reconcile_pass [OF assms acc(2) pv]]) (auto intro!: valid_ret)
  qed
  have reset: "run_effect L amount c name (GaugeReset PVCAtMaxCapacity)" for c :: "('a, 'b) client" and name by (auto simp: run_effect_def)
  show ?thesis
    unfolding reconcileAll_def
    by (rule valid_seq, rule valid_emit, rule reset, rule TrueI, rule valid_list_pvcas [OF ok(3)])
      (simp_all only: sum.case, rule valid_ret, simp, rule valid_if, rule valid_ret, simp, rule valid_seq, rule valid_api,
        rule TrueI, rule valid_sum, rule valid_ret, simp, rule pass, simp)
qed

lemma valid_runner_loop:
  assumes "runner_ok L amount e r"
  shows "valid (runner_loop L r es h) (run_effect L amount (rn_client r) (rn_autoscalerName r)) (\<lambda>x. x \<noteq> None)"
proof (induction es arbitrary: h)
  case (Cons ev es)
  show ?case
  proof (cases ev)
    case Tick
    then show ?thesis using Cons.IH
      by (auto intro!: valid_bind [OF valid_reconcileAll [OF assms]] valid_seq valid_now)
  qed (simp add: valid_ret)
qed (simp add: valid_ret)

lemma valid_Runner_Start:
  assumes "runner_ok L amount e r"
  shows "valid (Runner_Start L r es h) (run_effect L amount (rn_client r) (rn_autoscalerName r)) (\<lambda>x. x \<noteq> None)"
proof -
  have "\<not> rn_interval r \<le> 0" using assms by (simp add: runner_ok_def)
  then show ?thesis
    unfolding Runner_Start_def if_not_P [OF \<open>\<not> rn_interval r \<le> 0\<close>]
    by (intro valid_seq valid_now valid_runner_loop [OF assms] TrueI)
qed

text \<open>
  The claims of an autoscaler that no other fetched autoscaler has: the ones whose owner list
  has one entry.
\<close>

lemma single_owner:
  assumes "owners_exact acc" "length (fa_owners acc (NamespacedName_String k)) \<le> 1"
    and "(a, ps) \<in> set (fa_pvcas acc)" "k \<in> pvc_key ` set ps"
  shows "filter (\<lambda>(b, qs). k \<in> pvc_key ` set qs) (fa_pvcas acc) = [(a, ps)]"
proof -
  let ?str = "\<lambda>(b, qs). NamespacedName_String k \<in> (NamespacedName_String \<circ> pvc_key) ` set qs"
  let ?key = "\<lambda>(b, qs). k \<in> pvc_key ` set qs"
  have len: "length (filter ?str (fa_pvcas acc)) \<le> 1"
    using assms(1,2) unfolding owners_exact_def by (metis length_map)
  have sub: "filter ?key (fa_pvcas acc) = filter ?key (filter ?str (fa_pvcas acc))"
    by (auto simp: image_iff intro!: filter_cong)
  have "(a, ps) \<in> set (filter ?key (fa_pvcas acc))" using assms(3,4) by simp
  moreover have "length (filter ?key (fa_pvcas acc)) \<le> 1"
    unfolding sub using len by (rule le_trans [OF length_filter_le])
  ultimately show ?thesis by (cases "filter ?key (fa_pvcas acc)") auto
qed

lemma valid_reconcile_owned:
  assumes "runner_ok L amount e r" "fetch_inv pvcas acc"
    and "\<And>a. a \<in> set pvcas \<Longrightarrow> sane_pvca amount a"
  shows "valid (foldM (\<lambda>_ x. reconcilePVCA L r (fa_owners acc) md x) (lb_order L (fa_pvcas acc)) ())
    (\<lambda>e. \<forall>lock old new. e = PatchPVC lock old new \<longrightarrow>
       (\<exists>a ps. filter (\<lambda>(b, qs). pvc_key old \<in> pvc_key ` set qs) (fa_pvcas acc) = [(a, ps)] \<and> a \<in> set pvcas \<and>
          pvca_namespace a = pvc_namespace old \<and> answered (rn_client r) old \<and> allowed_patch L amount a lock old new))
    (\<lambda>x. x = Some ())" (is "valid _ ?E _")
proof -
  have "valid (reconcilePVCA L r (fa_owners acc) md x) ?E (\<lambda>r. \<exists>b. r = Some b \<and> True)"
    if "x \<in> set (lb_order L (fa_pvcas acc))" for x
  proof -
    obtain a ps where x: "x = (a, ps)" by fastforce
    have mem: "(a, ps) \<in> set (fa_pvcas acc)" using that assms(1) x unfolding runner_ok_def by (metis mset_eq_setD)
    then have m: "a \<in> set pvcas" "fetched a (Inr ps)" and oe: "owners_exact acc" using assms(2) by (auto simp: fetch_inv_def)
    have eff: "?E ef" if "pass_effect L amount (rn_client r) (fa_owners acc) a ps ef" for ef
    proof (intro allI impI)
      fix lock old new assume "ef = PatchPVC lock old new"
      with that have "length (fa_owners acc (NamespacedName_String (pvc_key old))) \<le> 1" and k: "pvc_key old \<in> pvc_key ` set ps"
        and p: "answered (rn_client r) old" "allowed_patch L amount a lock old new" by (simp_all add: pass_effect_def)
      with single_owner [OF oe _ mem] have "filter (\<lambda>(b, qs). pvc_key old \<in> pvc_key ` set qs) (fa_pvcas acc) = [(a, ps)]" by blast
      moreover have "pvca_namespace a = pvc_namespace old" using k m(2) by (auto simp: fetched_def pvc_key_def)
      ultimately show "\<exists>a ps. filter (\<lambda>(b, qs). pvc_key old \<in> pvc_key ` set qs) (fa_pvcas acc) = [(a, ps)] \<and> a \<in> set pvcas \<and>
        pvca_namespace a = pvc_namespace old \<and> answered (rn_client r) old \<and> allowed_patch L amount a lock old new"
        using p m(1) by blast
    qed
    show ?thesis unfolding x
      by (rule valid_weaken [OF valid_reconcilePVCA eff]) (use assms(1,3) m in \<open>auto simp: runner_ok_def\<close>)
  qed
  from valid_foldM_total [where I = "\<lambda>_. True", OF this] show ?thesis by simp
qed

text \<open>
  C8: A claim that several autoscalers select is left alone. Whatever the fetcher found for the
  autoscalers of a pass, every claim the rest of the pass patches was found for exactly one of
  them, and is patched as the policies of that one allow.
\<close>

theorem ambiguous_claims_untouched:
  fixes r :: "('q, 'w) runner"
  assumes "runner_ok L amount e r" "\<And>a. a \<in> set pvcas \<Longrightarrow> sane_pvca amount a"
    and "run_state (fetchPVCsForPVCAs L (rn_client r) (rn_pvcFetcher r) pvcas) s = (Some acc, s1)"
    and "run_state (foldM (\<lambda>_ x. reconcilePVCA L r (fa_owners acc) md x) (lb_order L (fa_pvcas acc)) ()) s2 = (x, s3)"
    and "PatchPVC lock old new \<in> set (effects s3)" "PatchPVC lock old new \<notin> set (effects s2)"
  shows "\<exists>a ps. filter (\<lambda>(b, qs). pvc_key old \<in> pvc_key ` set qs) (fa_pvcas acc) = [(a, ps)] \<and> a \<in> set pvcas \<and>
    allowed_patch L amount a lock old new"
proof -
  have ok: "fetch_env_ok e" "rn_pvcFetcher r = env_Fetch e" using assms(1) by (auto simp: runner_ok_def)
  have inv: "fetch_inv pvcas acc"
    using validD(1) [OF pf.valid_fetchPVCsForPVCAs [OF ok(1)] assms(3) [unfolded ok(2)]] by simp
  show ?thesis
    using valid_effects [OF valid_reconcile_owned [OF assms(1) inv assms(2)] assms(4,5)] assms(6) by blast
qed

section \<open>The passes of a run\<close>

text \<open>
  A pass of a run that sends an effect: the server lists autoscalers, the metrics source returns
  metrics, the claims of the autoscalers are fetched, and reconciling them sends the effect for the
  first time; \<open>trace\<close>, the effects of the whole run, extends the effects up to the end of this pass.
\<close>

definition sent_in_pass :: "'q libs \<Rightarrow> ('q, 'w) runner \<Rightarrow> 'q effect list \<Rightarrow> 'q effect \<Rightarrow> 'q pvca list \<Rightarrow> 'q fetch_acc \<Rightarrow> bool" where
  "sent_in_pass L r trace e pvcas acc \<longleftrightarrow>
     (\<exists>w w1 s1 md s2 y s3 rest. List_PVCAs (rn_client r) None [(AutoscalerNameIndexKey, rn_autoscalerName r)] w = (Inr pvcas, w1) \<and>
        rn_metricsSource r w1 = (Inr md, world s1) \<and>
        run_state (fetchPVCsForPVCAs L (rn_client r) (rn_pvcFetcher r) pvcas) s1 = (Some acc, s2) \<and>
        run_state (foldM (\<lambda>_ x. reconcilePVCA L r (fa_owners acc) md x) (lb_order L (fa_pvcas acc)) ()) s2 = (y, s3) \<and>
        e \<in> set (effects s3) \<and> e \<notin> set (effects s2) \<and> trace = effects s3 @ rest)"

lemma sent_in_pass_append: "sent_in_pass L r t e pvcas acc \<Longrightarrow> sent_in_pass L r (t @ t') e pvcas acc"
  unfolding sent_in_pass_def by (metis append.assoc)

lemma patch_sent_in_pass:
  assumes "runner_ok L amount e r" "run_state (reconcileAll L r) s = (x, s')"
    and "PatchPVC lock old new \<in> set (effects s')" "PatchPVC lock old new \<notin> set (effects s)"
  shows "\<exists>pvcas acc. sent_in_pass L r (effects s') (PatchPVC lock old new) pvcas acc"
proof -
  have ok: "fetch_env_ok e" "rn_pvcFetcher r = env_Fetch e" using assms(1) by (auto simp: runner_ok_def)
  let ?e = "effects s @ [GaugeReset PVCAtMaxCapacity]"
  obtain l w1 where l: "List_PVCAs (rn_client r) None [(AutoscalerNameIndexKey, rn_autoscalerName r)] (world s) = (l, w1)" by fastforce
  with assms(2-4) obtain pvcas where pv: "l = Inr pvcas" "pvcas \<noteq> []"
    by (cases l) (auto simp: reconcileAll_def run_simps split: if_splits)
  obtain m w2 where m: "rn_metricsSource r w1 = (m, w2)" by fastforce
  with assms(2-4) l pv obtain md where md: "m = Inr md"
    by (cases m) (auto simp: reconcileAll_def run_simps)
  let ?s1 = "s\<lparr>effects := ?e, world := w2\<rparr>"
  obtain f s2 where f: "run_state (fetchPVCsForPVCAs L (rn_client r) (rn_pvcFetcher r) pvcas) ?s1 = (f, s2)" by fastforce
  from validD [OF pf.valid_fetchPVCsForPVCAs [OF ok(1)] this [unfolded ok(2)]]
  obtain acc es where acc: "f = Some acc" and es: "effects s2 = ?e @ es" "list_all (fetch_effect pvcas) es" by auto
  obtain y s3 where y: "run_state (foldM (\<lambda>_ x. reconcilePVCA L r (fa_owners acc) md x) (lb_order L (fa_pvcas acc)) ()) s2 = (y, s3)"
    by fastforce
  have "s3 = s'" using assms(2) l pv m md f acc y by (simp add: reconcileAll_def run_simps)
  moreover have "PatchPVC lock old new \<notin> set (effects s2)"
    using es assms(4) by (auto simp: list_all_iff fetch_effect_def)
  ultimately show ?thesis
    using l pv(1) m md f acc y assms(3) unfolding sent_in_pass_def
    by (intro exI [of _ pvcas] exI [of _ acc] exI [of _ "world s"] exI [of _ w1] exI [of _ ?s1] exI [of _ md] exI [of _ s2]
        exI [of _ y] exI [of _ s3] exI [of _ "[]"]) simp
qed

lemma run_patch_in_pass:
  assumes "runner_ok L amount e r" "run_state (Runner_Start L r evs h) s = (x, s')"
    and "PatchPVC lock old new \<in> set (effects s')" "PatchPVC lock old new \<notin> set (effects s)"
  shows "\<exists>pvcas acc. sent_in_pass L r (effects s') (PatchPVC lock old new) pvcas acc"
proof -
  let ?p = "PatchPVC lock old new"
  have "\<exists>pvcas acc. sent_in_pass L r (effects s') ?p pvcas acc"
    if "run_state (runner_loop L r evs h) s = (x, s')" "?p \<notin> set (effects s)" for h s
    using that
  proof (induction evs arbitrary: h s)
    case (Cons ev evs)
    show ?case
    proof (cases ev)
      case Tick
      obtain y s1 where y: "run_state (reconcileAll L r) s = (y, s1)" by fastforce
      show ?thesis
      proof (cases "?p \<in> set (effects s1)")
        case True
        from patch_sent_in_pass [OF assms(1) y this Cons.prems(2)] obtain pvcas acc
          where "sent_in_pass L r (effects s1) ?p pvcas acc" by blast
        moreover have "\<exists>es. effects s' = effects s1 @ es"
        proof (cases y)
          case (Some z)
          then obtain h' where "run_state (runner_loop L r evs h') s1 = (x, s')"
            using Cons.prems(1) Tick y by (auto simp: run_simps)
          then show ?thesis using validD(2) [OF valid_runner_loop [OF assms(1)]] by blast
        qed (use Cons.prems(1) Tick y in \<open>simp add: run_simps\<close>)
        ultimately show ?thesis using sent_in_pass_append by metis
      next
        case False
        then obtain z where z: "y = Some z" using Cons.prems(1) Tick y assms(3) by (cases y) (auto simp: run_simps)
        then obtain h' where "run_state (runner_loop L r evs h') s1 = (x, s')"
          using Cons.prems(1) Tick y by (auto simp: run_simps)
        from Cons.IH [OF this False] show ?thesis .
      qed
    qed (use Cons.prems assms(3) in \<open>simp add: run_simps\<close>)
  qed (use assms(3) in \<open>simp add: run_simps\<close>)
  moreover obtain h' where "run_state (runner_loop L r evs h') s = (x, s')"
    using assms(1,2) by (auto simp: Runner_Start_def runner_ok_def run_simps)
  ultimately show ?thesis using assms(4) by blast
qed

lemma allowed_patchE:
  assumes "allowed_patch L amount a lock old new"
  shows "\<exists>policy m q. GetVolumePolicy (lb_quote L) (pvc_name old) (VolumePolicies (Spec a)) = Inr (Some policy) \<and> pvc_requests old = Some m \<and>
    (if lock
     then ShouldRecover old \<and> new = with_request old m q \<and>
       amount (statusSize (lb_quantity L) old) < amount q \<and> amount q < amount (specSize (lb_quantity L) old)
     else \<not> ShouldRecover old \<and> \<not> resizing_now (lb_quantity L) old \<and>
       (\<exists>rules. ScaleUp policy = Some rules \<and> ResizeStrategy rules \<noteq> OffVolumeResizeStrategy) \<and>
       new = resized (lb_quantity L) old m q \<and> amount (specSize (lb_quantity L) old) < amount q \<and>
       amount q \<le> of_int (Value (lb_quantity L) (MaxCapacity policy)) \<and>
       (q = MaxCapacity policy \<or> (\<exists>k. amount q = of_int (k * ScalingResolutionBytes))))"
proof -
  from assms obtain policy where "GetVolumePolicy (lb_quote L) (pvc_name old) (VolumePolicies (Spec a)) = Inr (Some policy)"
    "if lock then recovery_patch (lb_quantity L) amount old new else growth_patch (lb_quantity L) amount policy old new"
    by (auto simp: allowed_patch_def)
  then show ?thesis
    by (cases lock) (auto simp: recovery_patch_def growth_patch_def recovered_size_def grown_size_def)
qed

lemma sent_patch_owned:
  assumes "runner_ok L amount e r" "sent_in_pass L r trace (PatchPVC lock old new) pvcas acc"
  shows "\<exists>a ps. filter (\<lambda>(b, qs). pvc_key old \<in> pvc_key ` set qs) (fa_pvcas acc) = [(a, ps)] \<and> a \<in> set pvcas \<and>
    pvca_namespace a = pvc_namespace old \<and> answered (rn_client r) old \<and> allowed_patch L amount a lock old new"
proof -
  from assms(2) obtain w w1 s1 md s2 y s3 where
    l: "List_PVCAs (rn_client r) None [(AutoscalerNameIndexKey, rn_autoscalerName r)] w = (Inr pvcas, w1)"
    and f: "run_state (fetchPVCsForPVCAs L (rn_client r) (rn_pvcFetcher r) pvcas) s1 = (Some acc, s2)"
    and y: "run_state (foldM (\<lambda>_ x. reconcilePVCA L r (fa_owners acc) md x) (lb_order L (fa_pvcas acc)) ()) s2 = (y, s3)"
    and e: "PatchPVC lock old new \<in> set (effects s3)" "PatchPVC lock old new \<notin> set (effects s2)"
    unfolding sent_in_pass_def by blast
  have ok: "fetch_env_ok e" "rn_pvcFetcher r = env_Fetch e" "sane_client (lb_quantity L) amount (rn_client r)"
    using assms(1) by (auto simp: runner_ok_def)
  have inv: "fetch_inv pvcas acc"
    using validD(1) [OF pf.valid_fetchPVCsForPVCAs [OF ok(1)] f [unfolded ok(2)]] by simp
  have "sane_pvca amount a" if "a \<in> set pvcas" for a using sane_clientD(3) [OF ok(3) l that] by simp
  from valid_effects [OF valid_reconcile_owned [OF assms(1) inv this] y e(1)] e(2) show ?thesis by blast
qed

text \<open>
  C1: The runner is safe. From a start with no effects, over any number of passes, it does not panic,
  and whatever the API server answers, every patch of a claim was sent in a pass of the run. In that
  pass the claim was found for exactly one autoscaler, one of its namespace that the server had
  listed under the configured name; the patched claim is one the server answered with, and \<open>policy\<close> is
  the first policy of the autoscaler that matches it. The patch is one of two kinds. Without lock: a
  growth of a claim that is neither being resized nor failed, under a strategy other than \<open>Off\<close>, which
  raises the storage request to at most the maximum capacity, records the previous size, and
  changes nothing else. With optimistic lock: the recovery of a failed expansion, which lowers the
  request to a size above the capacity and changes nothing else. A recovery looks neither at the strategy nor at a
  resize in progress: only growth is excluded for \<open>Off\<close> and for claims that are being resized.
\<close>

theorem runner_patches_safe:
  fixes r :: "('q, 'w) runner"
  assumes "runner_ok L amount e r" "run_state (Runner_Start L r evs h) s = (x, s')" "effects s = []"
  shows "x \<noteq> None \<and> (\<forall>lock old new. PatchPVC lock old new \<in> set (effects s') \<longrightarrow>
    (\<exists>pvcas acc (a :: 'q pvca) ps policy m q. sent_in_pass L r (effects s') (PatchPVC lock old new) pvcas acc \<and>
      filter (\<lambda>(b, qs). pvc_key old \<in> pvc_key ` set qs) (fa_pvcas acc) = [(a, ps)] \<and> a \<in> set pvcas \<and>
      listed (rn_client r) (rn_autoscalerName r) a \<and> pvca_namespace a = pvc_namespace old \<and> answered (rn_client r) old \<and>
      GetVolumePolicy (lb_quote L) (pvc_name old) (VolumePolicies (Spec a)) = Inr (Some policy) \<and> pvc_requests old = Some m \<and>
      (if lock
       then ShouldRecover old \<and> new = with_request old m q \<and>
         amount (statusSize (lb_quantity L) old) < amount q \<and> amount q < amount (specSize (lb_quantity L) old)
       else \<not> ShouldRecover old \<and> \<not> resizing_now (lb_quantity L) old \<and>
         (\<exists>rules. ScaleUp policy = Some rules \<and> ResizeStrategy rules \<noteq> OffVolumeResizeStrategy) \<and>
         new = with_request (old\<lparr>pvc_annotations := (pvc_annotations old)(AnnotationPreviousSize \<mapsto>
           QuantityString (lb_quantity L) (specSize (lb_quantity L) old))\<rparr>) m q \<and> amount (specSize (lb_quantity L) old) < amount q \<and>
         amount q \<le> of_int (Value (lb_quantity L) (MaxCapacity policy)) \<and>
         (q = MaxCapacity policy \<or> (\<exists>k. amount q = of_int (k * ScalingResolutionBytes))))))"
    (is "_ \<and> (\<forall>lock old new. _ \<longrightarrow> ?P lock old new)")
proof (intro conjI allI impI)
  show "x \<noteq> None" by (rule validD(1) [OF valid_Runner_Start [OF assms(1)] assms(2)])
  fix lock old new assume "PatchPVC lock old new \<in> set (effects s')"
  then obtain pvcas acc where sent: "sent_in_pass L r (effects s') (PatchPVC lock old new) pvcas acc"
    using run_patch_in_pass [OF assms(1,2)] assms(3) by fastforce
  from sent_patch_owned [OF assms(1) this] obtain a :: "'q pvca" and ps where
    a: "filter (\<lambda>(b, qs). pvc_key old \<in> pvc_key ` set qs) (fa_pvcas acc) = [(a, ps)]" "a \<in> set pvcas"
      "pvca_namespace a = pvc_namespace old" "answered (rn_client r) old" "allowed_patch L amount a lock old new" by blast
  have "listed (rn_client r) (rn_autoscalerName r) a"
    using sent a(2) unfolding sent_in_pass_def listed_def by blast
  with sent a(1-4) allowed_patchE [OF a(5), unfolded resized_def]
  show "?P lock old new"
    by blast
qed

text \<open>
  C13: The status stays well formed. Over any number of passes, every status patch is for an
  autoscaler the API server listed under the configured name, changes nothing but the status,
  and writes recommendations that are sorted by claim name with no claim twice, whatever
  happened to single claims.
\<close>

theorem status_patches_wellformed:
  fixes r :: "('q, 'w) runner"
  assumes "runner_ok L amount e r" "run_state (Runner_Start L r evs h) s = (x, s')"
    and "effects s = []" "PatchPVCAStatus old new \<in> set (effects s')"
  shows "listed (rn_client r) (rn_autoscalerName r) old \<and> new = old\<lparr>Status := Status new\<rparr> \<and>
    sorted (map vr_name (VolumeRecommendations (Status new))) \<and> distinct (map vr_name (VolumeRecommendations (Status new)))"
proof -
  have "run_effect L amount (rn_client r) (rn_autoscalerName r) (PatchPVCAStatus old new)"
    using valid_effects [OF valid_Runner_Start [OF assms(1)] assms(2,4)] assms(3) by simp
  then show ?thesis by (auto simp: run_effect_def status_patch_def)
qed

section \<open>An example run\<close>

text \<open>An API server that only stores objects that satisfy the assumptions.\<close>

definition checking_client :: "'q quantity_ops \<Rightarrow> ('q \<Rightarrow> rat) \<Rightarrow> ('q, 'q cluster) client" where
  "checking_client Q amount = memory_client\<lparr>
     Get_PVC := (\<lambda>k w. (case find (\<lambda>p. pvc_key p = k \<and> sane_claim Q amount p) (cl_pvcs w) of
        Some p \<Rightarrow> Inr p | None \<Rightarrow> Inl not_found, w)),
     List_PVCAs := (\<lambda>ns fs w. (Inr (filter (\<lambda>a. (case ns of None \<Rightarrow> True | Some n \<Rightarrow> pvca_namespace a = n) \<and>
        list_all (matches_field a) fs \<and> sane_pvca amount a) (cl_pvcas w)), w))\<rparr>"

lemma checking_client_sane: "sane_client Q amount (checking_client Q amount)"
  by (auto simp: sane_client_def keeps_identity_def checking_client_def find_Some_iff split: option.splits if_splits)

definition example_libs :: "int libs" where
  "example_libs = \<lparr>lb_quantity = byte_quantities, lb_quote = (\<lambda>s. s),
     SetStatusCondition = (\<lambda>t cs c. c\<lparr>c_lastTransitionTime := Some t\<rparr> # filter (\<lambda>d. c_type d \<noteq> c_type c) cs),
     RemoveStatusCondition = (\<lambda>cs t. filter (\<lambda>d. c_type d \<noteq> t) cs),
     FindStatusCondition = (\<lambda>cs t. find (\<lambda>d. c_type d = t) cs),
     StatusEqual = (\<lambda>a b. a = b), lb_NewVersion = Inr, lb_Check = (\<lambda>v. v = ''1.34.0''), lb_order = rev\<rparr>"

definition example_metrics :: Metrics where
  "example_metrics = [(''ns'', ''data'') \<mapsto>
     \<lparr>AvailableBytes = 2 ^ 30, CapacityBytes = 10 * 2 ^ 30, AvailableInodes = 5, CapacityInodes = 10\<rparr>]"

definition example_runner :: "(int, int cluster) runner" where
  "example_runner = \<lparr>rn_client = checking_client byte_quantities of_int, rn_interval = 30,
     rn_metricsSource = (\<lambda>w. (Inr example_metrics, w)), rn_pvcFetcher = env_Fetch example_env,
     rn_heartbeat = True, rn_autoscalerName = '''', rn_kubernetesVersion = ''1.34.0''\<rparr>"

lemma example_runner_ok: "runner_ok example_libs of_int example_env example_runner"
  by (simp add: runner_ok_def example_libs_def example_runner_def byte_quantities_laws checking_client_sane example_env_ok)

definition example_world :: "int cluster" where
  "example_world = (example_cluster (10 * 2 ^ 30))\<lparr>cl_pods := [example_pod ''db-0'' [Some ''data'']],
     cl_pvcas := [example_pvca [example_policy ''*'' (2 ^ 40)]]\<rparr>"

lemma example_sane:
  "sane_claim byte_quantities of_int (example_pvc 10737418240)"
  "sane_pvca of_int (example_pvca [example_policy ''*'' 1099511627776])"
  by (simp_all add: sane_claim_def sane_pvca_def size_ok_def rules_complete_def example_pvca_def)

lemma example_percent:
  "UsedSpacePercentage \<lparr>AvailableBytes = 1073741824, CapacityBytes = 10737418240, AvailableInodes = 5, CapacityInodes = 10\<rparr> = Inr 90"
  "UsedInodesPercentage \<lparr>AvailableBytes = 1073741824, CapacityBytes = 10737418240, AvailableInodes = 5, CapacityInodes = 10\<rparr> = Inr 50"
  "\<not> capacity_delta 10737418240 10737418240 > capacity_tolerance 10737418240"
  "targetSizeBytes 10737418240 10 1073741824 = 11811160064"
  by code_simp+

lemma example_env_fetch:
  "run_state (env_Fetch example_env (example_pvca ps)) \<lparr>world = example_world, effects = es\<rparr> =
     (Some (Inr [example_pvc (10 * 2 ^ 30)]), \<lparr>world = example_world, effects = es\<rparr>)"
  by (simp add: env_Fetch_def pvc_Fetch_def example_env_def example_pvca_def run_simps getPVCsFromPods_def
      example_world_def example_cluster_def example_pod_def NamespacedName_String_def)

lemma example_pvca_sel [simp]:
  "pvca_namespace (example_pvca ps) = ''ns''" "pvca_name (example_pvca ps) = ''pvca''"
  "VolumePolicies (Spec (example_pvca ps)) = ps" "Status (example_pvca ps) = \<lparr>VolumeRecommendations = [], Conditions = []\<rparr>"
  "AutoscalerName (Spec (example_pvca ps)) = ''''"
  by (simp_all add: example_pvca_def)

lemma example_policy_match: "GetVolumePolicy q ''data'' [example_policy ''*'' m] = Inr (Some (example_policy ''*'' m))"
  by (subst GetVolumePolicy_plain) simp_all

lemma checking_client_simps [simp]:
  "Get_PVC (checking_client Q amount) k w = (case find (\<lambda>p. pvc_key p = k \<and> sane_claim Q amount p) (cl_pvcs w) of
        Some p \<Rightarrow> Inr p | None \<Rightarrow> Inl not_found, w)"
  "List_PVCAs (checking_client Q amount) ns fs w = (Inr (filter (\<lambda>a. (case ns of None \<Rightarrow> True | Some n \<Rightarrow> pvca_namespace a = n) \<and>
        list_all (matches_field a) fs \<and> sane_pvca amount a) (cl_pvcas w)), w)"
  "Get_StorageClass (checking_client Q amount) n w = Get_StorageClass memory_client n w"
  "Patch_PVC (checking_client Q amount) lock old new w = Patch_PVC memory_client lock old new w"
  "Patch_PVCAStatus (checking_client Q amount) olda newa w = Patch_PVCAStatus memory_client olda newa w"
  "Now (checking_client Q amount) w = Now memory_client w"
  by (simp_all add: checking_client_def)

lemma example_world_sel [simp]:
  "cl_pvcs example_world = [example_pvc (10 * 2 ^ 30)]" "cl_classes example_world = [(''default'', \<lparr>sc_allowVolumeExpansion = Some True\<rparr>)]"
  "cl_pvcas example_world = [example_pvca [example_policy ''*'' (2 ^ 40)]]" "cl_clock example_world = 0"
  by (simp_all add: example_world_def example_cluster_def)

lemma example_runner_sel [simp]:
  "rn_client example_runner = checking_client byte_quantities of_int" "rn_metricsSource example_runner w = (Inr example_metrics, w)"
  "rn_pvcFetcher example_runner = env_Fetch example_env" "rn_interval example_runner = 30" "rn_autoscalerName example_runner = ''''"
  by (simp_all add: example_runner_def)

lemma example_libs_sel [simp]: "lb_quantity example_libs = byte_quantities" "lb_order example_libs = rev" "lb_quote example_libs = (\<lambda>s. s)"
  by (simp_all add: example_libs_def)

lemma example_update:
  "\<exists>vr. updateVolumeRecommendationForPVC byte_quantities [] (example_pvc (10 * 2 ^ 30)) (example_metrics (''ns'', ''data'')) = Inr vr \<and>
     UsedSpacePercent (Current vr) = Some 90 \<and> LastResizeTime vr = None"
  using example_percent(3) by (simp add: updateVolumeRecommendationForPVC_def Let_def example_metrics_def example_percent new_VolumeRecommendation_def)

lemma example_not_recover: "\<not> ShouldRecover (example_pvc x)"
  by (simp add: ShouldRecover_def isResizeInfeasible_def hasResizeLimitError_def Let_def GetPersistentVolumeClaimCondition_def)

lemma example_not_resizing: "isResizeInProgress Q (example_pvc x) reason agg = (False, agg)"
  by (simp add: isResizeInProgress_def pvc_condition_defs Let_def)

lemma example_reconcile:
  assumes "\<not> length (owners (NamespacedName_String (''ns'', ''data''))) > 1"
  shows "\<exists>a s'. run_state (reconcile_pvc example_libs example_runner (example_pvca [example_policy ''*'' (2 ^ 40)]) owners
     example_metrics \<lparr>ac_recs = [], ac_resizing = no_res_conditions, ac_recommendation = no_rec_conditions\<rparr> (example_pvc (10 * 2 ^ 30)))
     \<lparr>world = example_world, effects = es\<rparr> = (Some a, s') \<and>
     PatchPVC False (example_pvc (10 * 2 ^ 30)) (resized byte_quantities (example_pvc (10 * 2 ^ 30)) [ResourceStorage \<mapsto> 10 * 2 ^ 30] (11 * 2 ^ 30))
       \<in> set (effects s')"
proof -
  obtain vr where vr: "updateVolumeRecommendationForPVC byte_quantities [] (example_pvc (10 * 2 ^ 30)) (example_metrics (''ns'', ''data'')) = Inr vr"
     "UsedSpacePercent (Current vr) = Some 90" "LastResizeTime vr = None" using example_update by blast
  show ?thesis
    using assms
    by (simp add: reconcile_pvc_def Let_def run_simps example_sane example_policy_match validatePVC_def vr [simplified]
      scale_step_def example_not_recover scalingReason_def example_not_resizing grow_step_def recommendResize_def
      deref0_def record_threshold_def ScalingReasonSpaceThreshold_def example_percent resize_step_def isInCooldown_def
      OffVolumeResizeStrategy_def PreferInPlaceVolumeResizeStrategy_def resizePVC_def patch_pvc_def resized_def del: GetVolumePolicy.simps)
qed


lemma valid_setStatus_any: "valid (setStatus L c pvca rc zc rs) (\<lambda>_. True) (\<lambda>_. True)"
  unfolding setStatus_def Let_def by (intro vcg) simp_all

abbreviation example_autoscaler :: "int pvca" where
  "example_autoscaler \<equiv> example_pvca [example_policy ''*'' (2 ^ 40)]"

definition example_grown :: "int pvc" where
  "example_grown = resized byte_quantities (example_pvc (10 * 2 ^ 30)) [ResourceStorage \<mapsto> 10 * 2 ^ 30] (11 * 2 ^ 30)"

definition example_acc :: "int fetch_acc" where
  "example_acc = \<lparr>fa_pvcas = [(example_autoscaler, [example_pvc (10 * 2 ^ 30)])],
     fa_owners = add_owner (NamespacedName_String (pvca_key example_autoscaler)) (example_pvc (10 * 2 ^ 30)) (\<lambda>_. [])\<rparr>"

lemma example_fetch:
  "run_state (fetchPVCsForPVCAs example_libs (rn_client example_runner) (rn_pvcFetcher example_runner) [example_autoscaler])
     \<lparr>world = example_world, effects = es\<rparr> = (Some example_acc, \<lparr>world = example_world, effects = es\<rparr>)"
  by (simp add: fetchPVCsForPVCAs_def fetch_step_def run_simps example_env_fetch [simplified] example_acc_def)

lemma example_reconcile_all:
  "\<exists>s'. run_state (foldM (\<lambda>_ x. reconcilePVCA example_libs example_runner (fa_owners example_acc) example_metrics x)
       (lb_order example_libs (fa_pvcas example_acc)) ()) \<lparr>world = example_world, effects = es\<rparr> = (Some (), s') \<and>
     PatchPVC False (example_pvc (10 * 2 ^ 30)) example_grown \<in> set (effects s')"
proof -
  let ?a = example_autoscaler and ?p = "example_pvc (10 * 2 ^ 30)" and ?owners = "fa_owners example_acc"
  let ?acc = "\<lparr>ac_recs = [], ac_resizing = no_res_conditions, ac_recommendation = no_rec_conditions\<rparr>"
  have "\<not> length (?owners (NamespacedName_String (''ns'', ''data''))) > 1"
    by (simp add: example_acc_def add_owner_def Let_def)
  from example_reconcile [of ?owners es, OF this] obtain a s1 where
    rec: "run_state (reconcile_pvc example_libs example_runner ?a ?owners example_metrics ?acc ?p) \<lparr>world = example_world, effects = es\<rparr> = (Some a, s1)"
    and s1: "PatchPVC False ?p example_grown \<in> set (effects s1)"
    unfolding example_grown_def by blast
  let ?st = "setStatus example_libs (rn_client example_runner) ?a (rec_getAggregatedCondition (ac_recommendation a))
                   (res_getAggregatedCondition (ac_resizing a)) (ac_recs a)"
  obtain y s2 where st: "run_state ?st s1 = (y, s2)" by fastforce
  have s2: "set (effects s1) \<subseteq> set (effects s2)" using validD(2) [OF valid_setStatus_any st] by auto
  have "run_state (reconcilePVCA example_libs example_runner ?owners example_metrics (?a, [?p]))
      \<lparr>world = example_world, effects = es\<rparr> = (Some (), s2)"
    using rec st by (simp add: reconcilePVCA_def kept_recommendations_def run_simps)
  then show ?thesis using s1 s2 by (auto simp: example_acc_def run_simps)
qed

lemma example_pass:
  "\<exists>x s'. run_state (Runner_Start example_libs example_runner [Tick] (NewHeartbeat 60 0)) (start_state example_world) = (x, s') \<and>
     PatchPVC False (example_pvc (10 * 2 ^ 30)) example_grown \<in> set (effects s')"
proof -
  obtain s2 where s2: "run_state (foldM (\<lambda>_ x. reconcilePVCA example_libs example_runner (fa_owners example_acc) example_metrics x)
       (lb_order example_libs (fa_pvcas example_acc)) ()) \<lparr>world = example_world, effects = [GaugeReset PVCAtMaxCapacity]\<rparr> = (Some (), s2)"
    "PatchPVC False (example_pvc (10 * 2 ^ 30)) example_grown \<in> set (effects s2)"
    using example_reconcile_all by blast
  have all: "run_state (reconcileAll example_libs example_runner) (start_state example_world) = (Some None, s2)"
    using s2(1) by (simp add: reconcileAll_def run_simps start_state_def example_sane matches_autoscalerName
      example_fetch [simplified])
  have "run_state (Runner_Start example_libs example_runner [Tick] (NewHeartbeat 60 0)) (start_state example_world) =
     (Some (if rn_heartbeat example_runner then UpdateLastActivity (Now (rn_client example_runner) (world s2)) (StartMonitoring 0 (NewHeartbeat 60 0)) else NewHeartbeat 60 0), s2)"
    using all by (auto simp: Runner_Start_def run_simps start_state_def)
  then show ?thesis using s2(2) by blast
qed

theorem ambiguous_claims_untouched_witness:
  "\<exists>s' a ps. run_state (foldM (\<lambda>_ x. reconcilePVCA example_libs example_runner (fa_owners example_acc) example_metrics x)
       (lb_order example_libs (fa_pvcas example_acc)) ()) (start_state example_world) = (Some (), s') \<and>
     PatchPVC False (example_pvc (10 * 2 ^ 30)) example_grown \<in> set (effects s') \<and>
     filter (\<lambda>(b, qs). (''ns'', ''data'') \<in> pvc_key ` set qs) (fa_pvcas example_acc) = [(a, ps)] \<and>
     allowed_patch example_libs of_int a False (example_pvc (10 * 2 ^ 30)) example_grown"
proof -
  let ?s = "\<lparr>world = example_world, effects = []\<rparr> :: (int, int cluster) rstate"
  obtain s' where s': "run_state (foldM (\<lambda>_ x. reconcilePVCA example_libs example_runner (fa_owners example_acc) example_metrics x)
       (lb_order example_libs (fa_pvcas example_acc)) ()) ?s = (Some (), s')"
    "PatchPVC False (example_pvc (10 * 2 ^ 30)) example_grown \<in> set (effects s')"
    using example_reconcile_all by blast
  have "sane_pvca of_int a" if "a \<in> set [example_autoscaler]" for a using that example_sane by simp
  from ambiguous_claims_untouched [OF example_runner_ok this example_fetch s'] s' show ?thesis
    by (auto simp: start_state_def)
qed

theorem runner_patches_safe_witness:
  "\<exists>x s' new. run_state (Runner_Start example_libs example_runner [Tick] (NewHeartbeat 60 0)) (start_state example_world) = (x, s') \<and>
     x \<noteq> None \<and> PatchPVC False (example_pvc (10 * 2 ^ 30)) new \<in> set (effects s') \<and>
     (\<exists>pvcas acc. sent_in_pass example_libs example_runner (effects s') (PatchPVC False (example_pvc (10 * 2 ^ 30)) new) pvcas acc) \<and>
     \<not> resizing_now byte_quantities (example_pvc (10 * 2 ^ 30)) \<and> specSize byte_quantities new = 11 * 2 ^ 30"
proof -
  obtain x s' where run: "run_state (Runner_Start example_libs example_runner [Tick] (NewHeartbeat 60 0)) (start_state example_world) = (x, s')"
    and e: "PatchPVC False (example_pvc (10 * 2 ^ 30)) example_grown \<in> set (effects s')" using example_pass by blast
  have "effects (start_state example_world :: (int, int cluster) rstate) = []" by (simp add: start_state_def)
  note safe = runner_patches_safe [OF example_runner_ok run this]
  from safe [THEN conjunct2, rule_format, OF e]
  have "\<exists>pvcas acc. sent_in_pass example_libs example_runner (effects s') (PatchPVC False (example_pvc (10 * 2 ^ 30)) example_grown) pvcas acc"
    and "\<not> resizing_now byte_quantities (example_pvc (10 * 2 ^ 30))"
    unfolding if_False example_libs_sel by blast+
  moreover have "specSize byte_quantities example_grown = 11 * 2 ^ 30" by (simp add: example_grown_def resized_def)
  ultimately show ?thesis using run e safe [THEN conjunct1] by blast
qed

text \<open>An autoscaler whose target has no pods: the pass reports this in its status.\<close>

lemma example_status_run:
  "\<exists>x s' new. run_state (Runner_Start example_libs example_runner [Tick] (NewHeartbeat 60 0))
      (start_state (example_world\<lparr>cl_pods := []\<rparr>)) = (x, s') \<and> PatchPVCAStatus example_autoscaler new \<in> set (effects s')"
proof -
  let ?w = "example_world\<lparr>cl_pods := []\<rparr>"
  have fetch: "run_state (env_Fetch example_env (example_pvca ps)) \<lparr>world = ?w, effects = es\<rparr> =
     (Some (Inl (Sentinel ErrNoPodsFound)), \<lparr>world = ?w, effects = es\<rparr>)" for ps es
    by (simp add: env_Fetch_def pvc_Fetch_def example_env_def example_pvca_def run_simps)
  have "\<exists>s1 new. run_state (fetchPVCsForPVCAs example_libs (rn_client example_runner) (rn_pvcFetcher example_runner) [example_autoscaler])
     \<lparr>world = ?w, effects = es\<rparr> = (Some \<lparr>fa_pvcas = [], fa_owners = (\<lambda>_. [])\<rparr>, s1) \<and> PatchPVCAStatus example_autoscaler new \<in> set (effects s1)" for es
    by (simp add: fetchPVCsForPVCAs_def fetch_step_def run_simps fetch [simplified] setStatus_def fetch_error_conditions_def Let_def
        status_condition_step_def patch_pvca_status_def example_libs_def split: prod.split) blast
  then obtain s1 new where f: "run_state (fetchPVCsForPVCAs example_libs (rn_client example_runner) (rn_pvcFetcher example_runner) [example_autoscaler])
     \<lparr>world = ?w, effects = [GaugeReset PVCAtMaxCapacity]\<rparr> = (Some \<lparr>fa_pvcas = [], fa_owners = (\<lambda>_. [])\<rparr>, s1)"
     "PatchPVCAStatus example_autoscaler new \<in> set (effects s1)" by blast
  have "run_state (reconcileAll example_libs example_runner) (start_state ?w) = (Some None, s1)"
    using f(1) by (simp add: reconcileAll_def run_simps start_state_def example_sane matches_autoscalerName)
  then have "run_state (Runner_Start example_libs example_runner [Tick] (NewHeartbeat 60 0)) (start_state ?w) =
     (Some (if rn_heartbeat example_runner then UpdateLastActivity (Now (rn_client example_runner) (world s1)) (StartMonitoring 0 (NewHeartbeat 60 0)) else NewHeartbeat 60 0), s1)"
    by (auto simp: Runner_Start_def run_simps start_state_def)
  then show ?thesis using f(2) by blast
qed

theorem status_patches_wellformed_witness:
  "\<exists>x s' new. run_state (Runner_Start example_libs example_runner [Tick] (NewHeartbeat 60 0))
      (start_state (example_world\<lparr>cl_pods := []\<rparr>)) = (x, s') \<and> PatchPVCAStatus example_autoscaler new \<in> set (effects s') \<and>
    new = example_autoscaler\<lparr>Status := Status new\<rparr> \<and> sorted (map vr_name (VolumeRecommendations (Status new)))"
proof -
  obtain x s' new where run: "run_state (Runner_Start example_libs example_runner [Tick] (NewHeartbeat 60 0))
      (start_state (example_world\<lparr>cl_pods := []\<rparr>)) = (x, s')" and e: "PatchPVCAStatus example_autoscaler new \<in> set (effects s')"
    using example_status_run by blast
  from status_patches_wellformed [OF example_runner_ok run _ e] run e show ?thesis
    by (auto simp: start_state_def)
qed

end
