(* ===== verification/Metrics_Prometheus.thy ===== *)
theory Metrics_Prometheus
  imports Metrics_Source
begin

text \<open>
  \<^verbatim>\<open>internal/metrics/source/prometheus\<close>: the metrics source that queries Prometheus. The
  Prometheus client is a parameter: \<open>Query\<close> answers a query in a world that may change
  between two queries, and \<open>NewClient\<close> may refuse a configuration. HTTP clients and round trippers
  are opaque. The order in which Go iterates
  over the map of queries is the parameter \<open>order\<close>.
\<close>

definition KubeletVolumeStatsAvailableBytes :: string where
  "KubeletVolumeStatsAvailableBytes = ''kubelet_volume_stats_available_bytes''"

definition KubeletVolumeStatsCapacityBytes :: string where
  "KubeletVolumeStatsCapacityBytes = ''kubelet_volume_stats_capacity_bytes''"

definition KubeletVolumeStatsInodesFree :: string where
  "KubeletVolumeStatsInodesFree = ''kubelet_volume_stats_inodes_free''"

definition KubeletVolumeStatsInodes :: string where
  "KubeletVolumeStatsInodes = ''kubelet_volume_stats_inodes''"

lemmas kubelet_defs = KubeletVolumeStatsAvailableBytes_def KubeletVolumeStatsCapacityBytes_def
  KubeletVolumeStatsInodesFree_def KubeletVolumeStatsInodes_def

section \<open>Construction\<close>

typedecl http_Client

typedecl http_RoundTripper

record Prometheus =
  address :: string
  httpClient :: "http_Client option"
  roundTripper :: "http_RoundTripper option"
  availableBytesQuery :: string
  capacityBytesQuery :: string
  availableInodesQuery :: string
  capacityInodesQuery :: string

definition WithAddress :: "string \<Rightarrow> Prometheus \<Rightarrow> Prometheus" where
  "WithAddress addr p = p\<lparr>address := addr\<rparr>"

definition WithHTTPClient :: "http_Client \<Rightarrow> Prometheus \<Rightarrow> Prometheus" where
  "WithHTTPClient client p = p\<lparr>httpClient := Some client\<rparr>"

definition WithRoundTripper :: "http_RoundTripper \<Rightarrow> Prometheus \<Rightarrow> Prometheus" where
  "WithRoundTripper rt p = p\<lparr>roundTripper := Some rt\<rparr>"

definition WithAvailableBytesQuery :: "string \<Rightarrow> Prometheus \<Rightarrow> Prometheus" where
  "WithAvailableBytesQuery query p = p\<lparr>availableBytesQuery := query\<rparr>"

definition WithCapacityBytesQuery :: "string \<Rightarrow> Prometheus \<Rightarrow> Prometheus" where
  "WithCapacityBytesQuery query p = p\<lparr>capacityBytesQuery := query\<rparr>"

definition WithAvailableInodesQuery :: "string \<Rightarrow> Prometheus \<Rightarrow> Prometheus" where
  "WithAvailableInodesQuery query p = p\<lparr>availableInodesQuery := query\<rparr>"

definition WithCapacityInodesQuery :: "string \<Rightarrow> Prometheus \<Rightarrow> Prometheus" where
  "WithCapacityInodesQuery query p = p\<lparr>capacityInodesQuery := query\<rparr>"

definition or_default :: "string \<Rightarrow> string \<Rightarrow> string" where
  "or_default d s = (if s = '''' then d else s)"

text \<open>\<^verbatim>\<open>api.Config\<close> of the Prometheus client.\<close>

record prom_config =
  Config_Address :: string
  Config_Client :: "http_Client option"
  Config_RoundTripper :: "http_RoundTripper option"

definition Prometheus_New ::
  "(prom_config \<Rightarrow> go_error option) \<Rightarrow> (Prometheus \<Rightarrow> Prometheus) list \<Rightarrow> go_error + Prometheus" where
  "Prometheus_New NewClient opts =
     (let p = fold (\<lambda>opt p. opt p) opts
            \<lparr>address = '''', httpClient = None, roundTripper = None, availableBytesQuery = '''', capacityBytesQuery = '''',
             availableInodesQuery = '''', capacityInodesQuery = ''''\<rparr>
      in if address p = '''' then Inl (Sentinel ErrNoPrometheusAddress)
         else (case NewClient \<lparr>Config_Address = address p, Config_Client = httpClient p, Config_RoundTripper = roundTripper p\<rparr> of
           Some e \<Rightarrow> Inl e
         | None \<Rightarrow> Inr (p\<lparr>
             availableBytesQuery := or_default KubeletVolumeStatsAvailableBytes (availableBytesQuery p),
             capacityBytesQuery := or_default KubeletVolumeStatsCapacityBytes (capacityBytesQuery p),
             availableInodesQuery := or_default KubeletVolumeStatsInodesFree (availableInodesQuery p),
             capacityInodesQuery := or_default KubeletVolumeStatsInodes (capacityInodesQuery p)\<rparr>)))"

section \<open>Queries\<close>

text \<open>The value of a sample is a \<open>float64\<close>; the conversion to \<open>int\<close> of the values that are no
  number gives the smallest integer, as the amd64 instruction does.\<close>

type_synonym sample_value = float64_value

definition sample_int :: "sample_value \<Rightarrow> int" where
  "sample_int v = (case v of Finite x \<Rightarrow> to_int64 x | _ \<Rightarrow> - (2 ^ 63))"

record sample =
  sm_metric :: "string \<rightharpoonup> string"
  sm_value :: sample_value

text \<open>\<^verbatim>\<open>model.Value\<close>: a vector, or a value of another type with that name.\<close>

datatype prom_value = Vector "sample list" | OtherValue string

type_synonym value_mapper = "int \<Rightarrow> VolumeInfo \<Rightarrow> VolumeInfo"
type_synonym 'w query_api = "string \<Rightarrow> 'w \<Rightarrow> (go_error + prom_value) \<times> 'w"

definition sample_key :: "sample \<Rightarrow> go_error + key" where
  "sample_key v =
     (case sm_metric v ''namespace'' of
        None \<Rightarrow> Inl (ErrorString ''metric does not provide namespace label'')
      | Some ns \<Rightarrow>
          (case sm_metric v ''persistentvolumeclaim'' of
             None \<Rightarrow> Inl (ErrorString ''metric does not provide persistentvolumeclaim label'')
           | Some n \<Rightarrow> Inr (ns, n)))"

fun map_samples :: "value_mapper \<Rightarrow> sample list \<Rightarrow> Metrics \<Rightarrow> go_error + Metrics" where
  "map_samples mapValue [] metrics = Inr metrics"
| "map_samples mapValue (v # vs) metrics =
     (case sample_key v of
        Inl e \<Rightarrow> Inl e
      | Inr k \<Rightarrow>
          (let volInfo = (case metrics k of Some i \<Rightarrow> i | None \<Rightarrow> zero_VolumeInfo)
           in map_samples mapValue vs (metrics(k \<mapsto> mapValue (sample_int (sm_value v)) volInfo))))"

definition getMetric :: "'w query_api \<Rightarrow> string \<Rightarrow> Metrics \<Rightarrow> value_mapper \<Rightarrow> 'w \<Rightarrow> (go_error + Metrics) \<times> 'w" where
  "getMetric Query query metrics mapValue w =
     (case Query query w of
        (Inl e, w') \<Rightarrow> (Inl e, w')
      | (Inr (OtherValue t), w') \<Rightarrow> (Inl (ErrorString (''expected model.Vector result, got '' @ t)), w')
      | (Inr (Vector vs), w') \<Rightarrow> (map_samples mapValue vs metrics, w'))"

text \<open>The map literal of \<open>Get\<close>: a query configured twice keeps the mapper written last.\<close>

definition queryToMapper :: "Prometheus \<Rightarrow> (string \<times> value_mapper) list" where
  "queryToMapper p = fold (\<lambda>(q, f) m. AList.update q f m)
     [(availableBytesQuery p, \<lambda>val info. info\<lparr>AvailableBytes := val\<rparr>),
      (capacityBytesQuery p, \<lambda>val info. info\<lparr>CapacityBytes := val\<rparr>),
      (availableInodesQuery p, \<lambda>val info. info\<lparr>AvailableInodes := val\<rparr>),
      (capacityInodesQuery p, \<lambda>val info. info\<lparr>CapacityInodes := val\<rparr>)] []"

fun get_queries :: "'w query_api \<Rightarrow> (string \<times> value_mapper) list \<Rightarrow> Metrics \<Rightarrow> 'w \<Rightarrow> (go_error + Metrics) \<times> 'w" where
  "get_queries Query [] result w = (Inr result, w)"
| "get_queries Query ((query, mapper) # qs) result w =
     (case getMetric Query query result mapper w of
        (Inl e, w') \<Rightarrow> (Inl e, w')
      | (Inr result', w') \<Rightarrow> get_queries Query qs result' w')"

definition Prometheus_Get ::
  "'w query_api \<Rightarrow> ((string \<times> value_mapper) list \<Rightarrow> (string \<times> value_mapper) list) \<Rightarrow> Prometheus \<Rightarrow>
    'w \<Rightarrow> (go_error + Metrics) \<times> 'w" where
  "Prometheus_Get Query order p w = get_queries Query (order (queryToMapper p)) Map.empty w"

section \<open>What Get returns\<close>

text \<open>The samples of one query that carry the name of a volume: the last one decides.\<close>

definition metric_value :: "sample list \<Rightarrow> key \<Rightarrow> int option" where
  "metric_value vs k =
     map_option (\<lambda>v. sample_int (sm_value v)) (find (\<lambda>v. sample_key v = Inr k) (rev vs))"

definition labelled :: "sample list \<Rightarrow> bool" where
  "labelled vs \<longleftrightarrow> list_all (\<lambda>v. \<exists>k. sample_key v = Inr k) vs"

definition apply_samples :: "value_mapper \<Rightarrow> sample list \<Rightarrow> Metrics \<Rightarrow> Metrics" where
  "apply_samples f vs m =
     (\<lambda>k. case metric_value vs k of None \<Rightarrow> m k
        | Some x \<Rightarrow> Some (f x (case m k of Some i \<Rightarrow> i | None \<Rightarrow> zero_VolumeInfo)))"

definition overwrites :: "value_mapper \<Rightarrow> bool" where
  "overwrites f \<longleftrightarrow> (\<forall>x y i. f x (f y i) = f x i)"

lemma metric_value_Nil [simp]: "metric_value [] k = None"
  by (simp add: metric_value_def)

lemma find_append: "find P (xs @ ys) = (case find P xs of None \<Rightarrow> find P ys | Some x \<Rightarrow> Some x)"
  by (induction xs) auto

lemma metric_value_Cons:
  "metric_value (v # vs) k =
     (case metric_value vs k of Some x \<Rightarrow> Some x
      | None \<Rightarrow> if sample_key v = Inr k then Some (sample_int (sm_value v)) else None)"
  by (simp add: metric_value_def find_append split: option.split)

lemma map_samples_labelled:
  "overwrites f \<Longrightarrow> labelled vs \<Longrightarrow> map_samples f vs m = Inr (apply_samples f vs m)"
proof (induction vs arbitrary: m)
  case (Cons v vs)
  then obtain k where "sample_key v = Inr k" "labelled vs" by (auto simp: labelled_def)
  with Cons show ?case
    by (auto simp: Let_def apply_samples_def metric_value_Cons fun_eq_iff overwrites_def split: option.split)
qed (simp add: apply_samples_def)

lemma map_samples_unlabelled: "\<not> labelled vs \<Longrightarrow> \<exists>e. map_samples f vs m = Inl e"
  by (induction vs arbitrary: m) (auto simp: labelled_def Let_def split: sum.split)

text \<open>Queries whose answers do not change while they are made.\<close>

definition answers :: "'w query_api \<Rightarrow> (string \<Rightarrow> go_error + prom_value) \<Rightarrow> bool" where
  "answers Query A \<longleftrightarrow> (\<forall>q w. fst (Query q w) = A q)"

definition usable :: "go_error + prom_value \<Rightarrow> bool" where
  "usable a \<longleftrightarrow> (case a of Inr (Vector vs) \<Rightarrow> labelled vs | _ \<Rightarrow> False)"

definition samples :: "go_error + prom_value \<Rightarrow> sample list" where
  "samples a = (case a of Inr (Vector vs) \<Rightarrow> vs | _ \<Rightarrow> [])"

lemma getMetric_answers:
  assumes "answers Query A" "overwrites f"
  shows "if usable (A q) then fst (getMetric Query q m f w) = Inr (apply_samples f (samples (A q)) m)
         else \<exists>e. fst (getMetric Query q m f w) = Inl e"
proof -
  obtain a w' where "Query q w = (a, w')" by fastforce
  moreover from this have "a = A q" using assms(1) unfolding answers_def by (metis fst_conv)
  ultimately show ?thesis using assms(2)
    by (auto simp: getMetric_def usable_def samples_def map_samples_labelled map_samples_unlabelled
        split: sum.split prom_value.split)
qed

lemma get_queries_answers:
  assumes "answers Query A" "\<forall>(q, f) \<in> set qs. overwrites f"
  shows "if \<forall>(q, f) \<in> set qs. usable (A q)
         then fst (get_queries Query qs m w) = Inr (fold (\<lambda>(q, f). apply_samples f (samples (A q))) qs m)
         else \<exists>e. fst (get_queries Query qs m w) = Inl e"
  using assms(2)
proof (induction qs arbitrary: m w)
  case (Cons x qs)
  obtain q f where x: "x = (q, f)" by fastforce
  obtain r w' where g: "getMetric Query q m f w = (r, w')" by fastforce
  have f: "overwrites f" and qs: "\<forall>(q, f) \<in> set qs. overwrites f" using Cons.prems x by auto
  note G = getMetric_answers [OF assms(1) f, of q m w]
  show ?case
  proof (cases "usable (A q)")
    case True
    with G g have "r = Inr (apply_samples f (samples (A q)) m)" by simp
    with Cons.IH [OF qs, of "apply_samples f (samples (A q)) m" w'] True x g show ?thesis
      by (auto split: if_splits)
  next
    case False
    with G g obtain e where "r = Inl e" by auto
    with False x g show ?thesis by auto
  qed
qed simp

text \<open>The four mappers write different fields, so the queries may be made in any order.\<close>

definition mappers :: "value_mapper list" where
  "mappers = [\<lambda>val info. info\<lparr>AvailableBytes := val\<rparr>, \<lambda>val info. info\<lparr>CapacityBytes := val\<rparr>,
     \<lambda>val info. info\<lparr>AvailableInodes := val\<rparr>, \<lambda>val info. info\<lparr>CapacityInodes := val\<rparr>]"

lemma apply_samples_commute:
  assumes "\<And>x y i. f x (g y i) = g y (f x i)"
  shows "apply_samples f vs \<circ> apply_samples g us = apply_samples g us \<circ> apply_samples f vs"
  by (auto simp: apply_samples_def fun_eq_iff assms split: option.split)

definition queries_distinct :: "Prometheus \<Rightarrow> bool" where
  "queries_distinct p \<longleftrightarrow>
     distinct [availableBytesQuery p, capacityBytesQuery p, availableInodesQuery p, capacityInodesQuery p]"

lemma queryToMapper_distinct:
  assumes "queries_distinct p"
  shows "queryToMapper p = zip [availableBytesQuery p, capacityBytesQuery p, availableInodesQuery p,
    capacityInodesQuery p] mappers"
  using assms by (auto simp: queries_distinct_def queryToMapper_def mappers_def)

text \<open>The statistics assembled from the answers of the four queries.\<close>

definition assembled :: "Prometheus \<Rightarrow> (string \<Rightarrow> go_error + prom_value) \<Rightarrow> Metrics" where
  "assembled p A k =
     (let v = (\<lambda>q. metric_value (samples (A q)) k);
          field = (\<lambda>q. case v q of Some x \<Rightarrow> x | None \<Rightarrow> 0)
      in if v (availableBytesQuery p) = None \<and> v (capacityBytesQuery p) = None \<and>
            v (availableInodesQuery p) = None \<and> v (capacityInodesQuery p) = None then None
         else Some \<lparr>AvailableBytes = field (availableBytesQuery p), CapacityBytes = field (capacityBytesQuery p),
                    AvailableInodes = field (availableInodesQuery p), CapacityInodes = field (capacityInodesQuery p)\<rparr>)"

lemma fold_assembled:
  assumes "queries_distinct p" "mset qs = mset (queryToMapper p)"
  shows "fold (\<lambda>(q, f). apply_samples f (samples (A q))) qs Map.empty = assembled p A"
proof -
  let ?step = "\<lambda>(q, f). apply_samples f (samples (A q))"
  have "fold ?step qs = fold ?step (queryToMapper p)"
  proof (rule fold_multiset_equiv [OF _ assms(2)])
    fix x y assume "x \<in> set qs" "y \<in> set qs"
    then have "x = y \<or> (\<forall>a b i. snd x a (snd y b i) = snd y b (snd x a i))"
      using mset_eq_setD [OF assms(2)] by (auto simp: queryToMapper_distinct [OF assms(1)] mappers_def)
    then show "?step x \<circ> ?step y = ?step y \<circ> ?step x"
      using apply_samples_commute [of "snd x" "snd y"] by (auto simp: case_prod_beta)
  qed
  then show ?thesis
    by (auto simp: queryToMapper_distinct [OF assms(1)] mappers_def apply_samples_def assembled_def
        fun_eq_iff zero_VolumeInfo_def Let_def split: option.split)
qed

text \<open>
  C29: \<open>Get\<close> of the Prometheus source: with four different queries whose answers are stable
  while they are made, and whatever order Go iterates the query map in, the result is the
  statistics assembled field by field from the four answers when every answer is a vector whose
  samples carry both labels, and an error when some answer is not.
\<close>

theorem prometheus_Get_correct:
  assumes "answers Query A" "queries_distinct p"
    and "mset (order (queryToMapper p)) = mset (queryToMapper p)"
  shows "if usable (A (availableBytesQuery p)) \<and> usable (A (capacityBytesQuery p)) \<and>
           usable (A (availableInodesQuery p)) \<and> usable (A (capacityInodesQuery p))
         then fst (Prometheus_Get Query order p w) = Inr (assembled p A)
         else \<exists>e. fst (Prometheus_Get Query order p w) = Inl e"
proof -
  let ?qs = "order (queryToMapper p)"
  have s: "set ?qs = set (queryToMapper p)" using assms(3) by (rule mset_eq_setD)
  have o: "\<forall>(q, f) \<in> set ?qs. overwrites f"
    unfolding s by (auto simp: queryToMapper_distinct [OF assms(2)] mappers_def overwrites_def)
  have u: "(\<forall>(q, f) \<in> set ?qs. usable (A q)) \<longleftrightarrow>
      usable (A (availableBytesQuery p)) \<and> usable (A (capacityBytesQuery p)) \<and>
      usable (A (availableInodesQuery p)) \<and> usable (A (capacityInodesQuery p))"
    unfolding s by (simp add: queryToMapper_distinct [OF assms(2)] mappers_def)
  show ?thesis unfolding Prometheus_Get_def
    using get_queries_answers [OF assms(1) o, of Map.empty w] fold_assembled [OF assms(2,3), of A] u
    by simp
qed

text \<open>The source \<open>New\<close> makes without query options asks the four kubelet metrics.\<close>

lemma Prometheus_New_default:
  "NewClient \<lparr>Config_Address = addr, Config_Client = None, Config_RoundTripper = None\<rparr> = None \<Longrightarrow> addr \<noteq> '''' \<Longrightarrow>
    Prometheus_New NewClient [WithAddress addr] =
      Inr \<lparr>address = addr, httpClient = None, roundTripper = None, availableBytesQuery = KubeletVolumeStatsAvailableBytes,
        capacityBytesQuery = KubeletVolumeStatsCapacityBytes,
        availableInodesQuery = KubeletVolumeStatsInodesFree,
        capacityInodesQuery = KubeletVolumeStatsInodes\<rparr>"
  by (simp add: Prometheus_New_def WithAddress_def or_default_def Let_def)

definition example_sample :: "rat \<Rightarrow> sample" where
  "example_sample x = \<lparr>sm_metric = [''namespace'' \<mapsto> ''ns'', ''persistentvolumeclaim'' \<mapsto> ''data''],
     sm_value = Finite x\<rparr>"

definition example_query :: "unit query_api" where
  "example_query q w = (Inr (Vector [example_sample (if q = KubeletVolumeStatsAvailableBytes then 7 else 10)]), w)"

theorem prometheus_Get_correct_witness:
  "case Prometheus_New (\<lambda>_. None) [WithAddress ''http://prometheus:9090''] of
     Inl _ \<Rightarrow> False
   | Inr p \<Rightarrow> (case fst (Prometheus_Get example_query rev p ()) of Inl _ \<Rightarrow> False | Inr m \<Rightarrow>
       m (''ns'', ''data'') = Some \<lparr>AvailableBytes = 7, CapacityBytes = 10, AvailableInodes = 10, CapacityInodes = 10\<rparr>)"
proof -
  let ?A = "\<lambda>q. fst (example_query q ())"
  let ?p = "\<lparr>address = ''http://prometheus:9090'', httpClient = None, roundTripper = None, availableBytesQuery = KubeletVolumeStatsAvailableBytes,
        capacityBytesQuery = KubeletVolumeStatsCapacityBytes,
        availableInodesQuery = KubeletVolumeStatsInodesFree, capacityInodesQuery = KubeletVolumeStatsInodes\<rparr>"
  have key: "sample_key (example_sample x) = Inr (''ns'', ''data'')" for x
    by (simp add: sample_key_def example_sample_def)
  have "fst (Prometheus_Get example_query rev ?p ()) = Inr (assembled ?p ?A)"
    using prometheus_Get_correct [of example_query ?A ?p rev "()"] key
    by (simp add: answers_def example_query_def queries_distinct_def kubelet_defs usable_def labelled_def)
  moreover have "to_int64 7 = 7" "to_int64 10 = 10"
    using to_int64_of_int [of 7] to_int64_of_int [of 10] by (simp_all add: int64_def)
  then have "assembled ?p ?A (''ns'', ''data'') =
      Some \<lparr>AvailableBytes = 7, CapacityBytes = 10, AvailableInodes = 10, CapacityInodes = 10\<rparr>"
    by (simp add: assembled_def samples_def example_query_def metric_value_def key kubelet_defs)
      (simp add: example_sample_def sample_int_def)
  ultimately show ?thesis by (simp add: Prometheus_New_default)
qed

end
