(* ===== verification/Offline_Resize.thy ===== *)
theory Offline_Resize
  imports Fetchers Utils Example_Cluster
begin

text \<open>
  The controller of \<^verbatim>\<open>internal/controller/offlineresize\<close>: it evicts the pods of a claim whose
  volume can only be resized detached, and removes the scheduling gate of the pods of a claim
  once they may be scheduled again. The theory holds the reconciler
  (\<^verbatim>\<open>reconciler.go\<close>), the event filters (\<^verbatim>\<open>predicate.go\<close>), the mappers
  (\<^verbatim>\<open>mapper.go\<close>) and what \<open>SetupWithManager\<close> makes of them: the requests every event of
  the watched objects leads to.

  The result of \<open>Reconcile\<close> is the pair of \<^verbatim>\<open>RequeueAfter\<close> (in nanoseconds, 0 when it is
  not set) and the error.
\<close>

definition ReasonEvicting :: string where "ReasonEvicting = ''EvictingForOfflineResize''"
definition ReasonEvictionBlocked :: string where "ReasonEvictionBlocked = ''EvictionBlocked''"
definition ReasonGateRemoved :: string where "ReasonGateRemoved = ''OfflineResizeGateRemoved''"

definition requeueDurationOnControllerResizeError :: int where
  "requeueDurationOnControllerResizeError = 10 * 10 ^ 9"

section \<open>Construction\<close>

record ('q, 'w) reconciler_config =
  rcfg_client :: "('q, 'w) client option"
  rcfg_eventRecorder :: "unit option"
  rcfg_autoscalerName :: string

record ('q, 'w) reconciler =
  rc_client :: "('q, 'w) client"
  rc_autoscalerName :: string

type_synonym ('q, 'w) reconciler_option = "('q, 'w) reconciler_config \<Rightarrow> ('q, 'w) reconciler_config"

definition Reconciler_WithClient :: "('q, 'w) client \<Rightarrow> ('q, 'w) reconciler_option" where
  "Reconciler_WithClient c r = r\<lparr>rcfg_client := Some c\<rparr>"

definition Reconciler_WithEventRecorder :: "('q, 'w) reconciler_option" where
  "Reconciler_WithEventRecorder r = r\<lparr>rcfg_eventRecorder := Some ()\<rparr>"

definition Reconciler_WithAutoscalerName :: "string \<Rightarrow> ('q, 'w) reconciler_option" where
  "Reconciler_WithAutoscalerName n r = r\<lparr>rcfg_autoscalerName := n\<rparr>"

definition Reconciler_New :: "('q, 'w) reconciler_option list \<Rightarrow> go_error + ('q, 'w) reconciler" where
  "Reconciler_New opts =
     (let r = fold (\<lambda>opt r. opt r) opts \<lparr>rcfg_client = None, rcfg_eventRecorder = None, rcfg_autoscalerName = ''''\<rparr> in
      case rcfg_client r of None \<Rightarrow> Inl (Sentinel ErrNoClient) | Some c \<Rightarrow>
      (case rcfg_eventRecorder r of None \<Rightarrow> Inl (Sentinel ErrNoEventRecorder) | Some _ \<Rightarrow>
       Inr \<lparr>rc_client = c, rc_autoscalerName = rcfg_autoscalerName r\<rparr>))"

section \<open>Reconciling a claim\<close>

definition pod_uses :: "'q pvc \<Rightarrow> pod \<Rightarrow> bool" where
  "pod_uses p pod \<longleftrightarrow> list_ex (\<lambda>v. v = Some (pvc_name p)) (pod_volumes pod)"

definition podsUsingPVC :: "('q, 'w) client \<Rightarrow> 'q pvc \<Rightarrow> ('q, 'w, go_error + pod list) prog" where
  "podsUsingPVC c p = do {
     r \<leftarrow> api (List_Pods c (pvc_namespace p) None);
     ret (case r of
       Inl err \<Rightarrow> Inl (Wrapped ''failed to list Pods'' err)
     | Inr items \<Rightarrow> Inr (filter (pod_uses p) items))
   }"

definition evict :: "('q, 'w) client \<Rightarrow> pod \<Rightarrow> ('q, 'w, go_error option) prog" where
  "evict c pod = create_eviction c pod"

text \<open>The loop over the pods: whether an eviction was blocked, or the error that ends it.\<close>

fun evict_loop :: "('q, 'w) client \<Rightarrow> 'q pvc \<Rightarrow> pod list \<Rightarrow> bool \<Rightarrow> ('q, 'w, go_error + bool) prog" where
  "evict_loop c p [] blocked = ret (Inr blocked)"
| "evict_loop c p (pod # pods) blocked =
     (if pod_deletionTimestamp pod \<noteq> None then evict_loop c p pods blocked
      else if pod_phase pod \<noteq> ''Running'' then evict_loop c p pods blocked
      else do {
        r \<leftarrow> evict c pod;
        case r of
          Some err \<Rightarrow>
            if IsNotFound err then evict_loop c p pods blocked
            else if IsTooManyRequests err then do {
              _ \<leftarrow> emit (Eventf (pod_key pod) ''Warning'' ReasonEvictionBlocked
                (''eviction of pod '' @ NamespacedName_String (pod_key pod) @ '' for offline resize of PersistentVolumeClaim '' @
                 pvc_name p @ '' was blocked, will retry: '' @ Error err));
              evict_loop c p pods True
            }
            else ret (Inl (Wrapped (''failed to evict pod '' @ NamespacedName_String (pod_key pod)) err))
        | None \<Rightarrow> do {
            _ \<leftarrow> emit (Eventf (pod_key pod) ''Normal'' ReasonEvicting
              (''evicted pod '' @ NamespacedName_String (pod_key pod) @ '' so PersistentVolumeClaim '' @ pvc_name p @
               '' can be resized offline''));
            evict_loop c p pods blocked
          }
      })"

definition evictPodsUsingPVC :: "('q, 'w) client \<Rightarrow> 'q pvc \<Rightarrow> ('q, 'w, go_error option) prog" where
  "evictPodsUsingPVC c p = do {
     r \<leftarrow> podsUsingPVC c p;
     case r of
       Inl err \<Rightarrow> ret (Some err)
     | Inr pods \<Rightarrow> do {
         b \<leftarrow> evict_loop c p pods False;
         ret (case b of
           Inl err \<Rightarrow> Some err
         | Inr blocked \<Rightarrow>
             if blocked
             then Some (ErrorString (''one or more pod evictions for offline resize of PersistentVolumeClaim '' @ pvc_name p @ '' were blocked''))
             else None)
       }
   }"

fun remove_gates_loop :: "('q, 'w) client \<Rightarrow> 'q pvc \<Rightarrow> pod list \<Rightarrow> ('q, 'w, go_error option) prog" where
  "remove_gates_loop c p [] = ret None"
| "remove_gates_loop c p (pod # pods) =
     (if \<not> HasSchedulingGate pod SchedulingGateOfflineResize then remove_gates_loop c p pods
      else do {
        r \<leftarrow> patch_pod c pod (RemoveSchedulingGate pod SchedulingGateOfflineResize);
        case r of
          Inl err \<Rightarrow> ret (Some (Wrapped (''failed to remove scheduling gate from pod '' @ NamespacedName_String (pod_key pod)) err))
        | Inr pod' \<Rightarrow> do {
            _ \<leftarrow> emit (Eventf (pod_key pod') ''Normal'' ReasonGateRemoved
              (''removed offline-resize scheduling gate from pod '' @ NamespacedName_String (pod_key pod') @
               '', PersistentVolumeClaim '' @ pvc_name p @ '' is ready for filesystem resize''));
            remove_gates_loop c p pods
          }
      })"

definition removeSchedulingGates :: "('q, 'w) client \<Rightarrow> 'q pvc \<Rightarrow> ('q, 'w, go_error option) prog" where
  "removeSchedulingGates c p = do {
     r \<leftarrow> podsUsingPVC c p;
     case r of Inl err \<Rightarrow> ret (Some err) | Inr pods \<Rightarrow> remove_gates_loop c p pods
   }"

definition Reconcile ::
  "(string \<Rightarrow> string) \<Rightarrow> ('q, 'w) reconciler \<Rightarrow> key \<Rightarrow> ('q, 'w, int \<times> go_error option) prog" where
  "Reconcile quote r req = do {
     g \<leftarrow> api (Get_PVC (rc_client r) req);
     case g of
       Inl err \<Rightarrow>
         if IsNotFound err then ret (0, None)
         else ret (0, Some (Wrapped ''failed to get PersistentVolumeClaim'' err))
     | Inr p \<Rightarrow>
         let controllerResizeError = IsPersistentVolumeClaimConditionTrue p PVCControllerResizeError;
             fileSystemResizePending = IsPersistentVolumeClaimConditionTrue p PVCFileSystemResizePending in
         if fileSystemResizePending \<or> \<not> controllerResizeError
         then do { err \<leftarrow> removeSchedulingGates (rc_client r) p; ret (0, err) }
         else do {
           f \<leftarrow> FindOwningPVCAAndPolicy (rc_client r) quote (rc_autoscalerName r) (pvc_name p) (pvc_namespace p);
           case f of
             Inl err \<Rightarrow> ret (0, Some (Wrapped ''failed to determine ownership of PersistentVolumeClaim'' err))
           | Inr (owner, policy) \<Rightarrow>
               if Option.is_none owner \<or> Option.is_none policy then ret (0, None)
               else if \<not> IsOfflineResizeEnabled owner policy then ret (0, None)
               else if \<not> IsOfflineResizeRequired p then ret (0, None)
               else do {
                 err \<leftarrow> evictPodsUsingPVC (rc_client r) p;
                 ret (requeueDurationOnControllerResizeError, err)
               }
         }
   }"

section \<open>Event filters, mappers and the watches\<close>

datatype 'q event =
    CreateEvent "'q object"
  | UpdateEvent "'q object" "'q object"
  | DeleteEvent "'q object"
  | GenericEvent "'q object"

definition PVCIsInResizeErrorOrFileSystemResizePending :: "'q object \<Rightarrow> bool" where
  "PVCIsInResizeErrorOrFileSystemResizePending obj =
     (case obj of
        PVCObject p \<Rightarrow>
          (case pvc_annotations p AnnotationPreviousSize of
             None \<Rightarrow> False
           | Some _ \<Rightarrow> IsPersistentVolumeClaimConditionTrue p PVCControllerResizeError \<or>
               IsPersistentVolumeClaimConditionTrue p PVCFileSystemResizePending)
      | _ \<Rightarrow> False)"

definition recommendationNames :: "'q pvca \<Rightarrow> string list" where
  "recommendationNames a = sort (map vr_name (VolumeRecommendations (Status a)))"

text \<open>The first argument is \<^verbatim>\<open>apiequality.Semantic.DeepEqual\<close> on volume policies.\<close>

definition PVCARecommendationsOrPoliciesChangedPredicate ::
  "('q VolumePolicy list \<Rightarrow> 'q VolumePolicy list \<Rightarrow> bool) \<Rightarrow> 'q event \<Rightarrow> bool" where
  "PVCARecommendationsOrPoliciesChangedPredicate deepEqual e =
     (case e of
        UpdateEvent (PVCAObject oldPVCA) (PVCAObject newPVCA) \<Rightarrow>
          if recommendationNames oldPVCA \<noteq> recommendationNames newPVCA then True
          else \<not> deepEqual (VolumePolicies (Spec oldPVCA)) (VolumePolicies (Spec newPVCA))
      | _ \<Rightarrow> False)"

definition PodWithSchedulingGatePredicate :: "'q event \<Rightarrow> bool" where
  "PodWithSchedulingGatePredicate e =
     (case e of
        CreateEvent (PodObject pod) \<Rightarrow> HasSchedulingGate pod SchedulingGateOfflineResize
      | _ \<Rightarrow> False)"

definition MapPVCAToPVCs :: "'q object \<Rightarrow> key list" where
  "MapPVCAToPVCs obj =
     (case obj of
        PVCAObject a \<Rightarrow> map (\<lambda>vr. (pvca_namespace a, vr_name vr)) (VolumeRecommendations (Status a))
      | _ \<Rightarrow> [])"

definition MapPodToPVCs :: "'q object \<Rightarrow> key list" where
  "MapPodToPVCs obj =
     (case obj of
        PodObject pod \<Rightarrow> List.map_filter (map_option (\<lambda>n. (pod_namespace pod, n))) (pod_volumes pod)
      | _ \<Rightarrow> [])"

text \<open>
  How \<open>SetupWithManager\<close> combines them. What the three handlers do with an event is the
  behaviour of \<^verbatim>\<open>controller-runtime\<close>: \<open>NewPredicateFuncs\<close> asks the filter of the object of
  the event, the new one of an update; \<open>For\<close> enqueues the key of the object, and
  \<open>EnqueueRequestsFromMapFunc\<close> what the map function gives, for an update that of the old and
  the new object. The watched kind selects the handler.
\<close>

fun event_objects :: "'q event \<Rightarrow> 'q object list" where
  "event_objects (CreateEvent x) = [x]"
| "event_objects (UpdateEvent x y) = [x, y]"
| "event_objects (DeleteEvent x) = [x]"
| "event_objects (GenericEvent x) = [x]"

fun object_key :: "'q object \<Rightarrow> key list" where
  "object_key (PVCObject p) = [pvc_key p]"
| "object_key _ = []"

definition SetupWithManager ::
  "('q VolumePolicy list \<Rightarrow> 'q VolumePolicy list \<Rightarrow> bool) \<Rightarrow> 'q event \<Rightarrow> key list" where
  "SetupWithManager deepEqual e = remdups (
     (if PVCIsInResizeErrorOrFileSystemResizePending (last (event_objects e))
      then concat (map object_key (event_objects e)) else []) @
     (if PVCARecommendationsOrPoliciesChangedPredicate deepEqual e
      then concat (map MapPVCAToPVCs (event_objects e)) else []) @
     (if PodWithSchedulingGatePredicate e then concat (map MapPodToPVCs (event_objects e)) else []))"


section \<open>Which effects a reconciliation may have\<close>

definition evictable :: "pod \<Rightarrow> bool" where
  "evictable pod \<longleftrightarrow> pod_deletionTimestamp pod = None \<and> pod_phase pod = ''Running''"

fun evict_effect :: "pod list \<Rightarrow> 'q effect \<Rightarrow> bool" where
  "evict_effect pods (Evict pod) \<longleftrightarrow> pod \<in> set pods \<and> evictable pod"
| "evict_effect pods (Eventf k t r m) \<longleftrightarrow> True"
| "evict_effect pods _ \<longleftrightarrow> False"

fun release_effect :: "pod list \<Rightarrow> 'q effect \<Rightarrow> bool" where
  "release_effect pods (PatchPod old new) \<longleftrightarrow>
     old \<in> set pods \<and> HasSchedulingGate old SchedulingGateOfflineResize \<and>
     new = RemoveSchedulingGate old SchedulingGateOfflineResize"
| "release_effect pods (Eventf k t r m) \<longleftrightarrow> True"
| "release_effect pods _ \<longleftrightarrow> False"

lemma effect_mono:
  "evict_effect pods e \<Longrightarrow> set pods \<subseteq> set qs \<Longrightarrow> evict_effect qs e"
  "release_effect pods e \<Longrightarrow> set pods \<subseteq> set qs \<Longrightarrow> release_effect qs e"
  by (cases e; auto)+

lemma valid_evict_loop:
  "set pods \<subseteq> set qs \<Longrightarrow> valid (evict_loop c p pods b) (evict_effect qs) (\<lambda>_. True)"
proof (induction pods arbitrary: b)
  case (Cons pod pods)
  note IH = Cons.IH [OF order_trans [OF set_subset_Cons Cons.prems]]
  show ?case unfolding evict_loop.simps evict_def
    by (intro vcg IH) (use Cons.prems in \<open>auto simp: evictable_def\<close>)
qed (simp add: valid_ret)

lemma valid_remove_gates_loop:
  "set pods \<subseteq> set qs \<Longrightarrow> valid (remove_gates_loop c p pods) (release_effect qs) (\<lambda>_. True)"
proof (induction pods)
  case (Cons pod pods)
  note IH = Cons.IH [OF order_trans [OF set_subset_Cons Cons.prems]]
  show ?case unfolding remove_gates_loop.simps
    by (intro vcg IH) (use Cons.prems in auto)
qed (simp add: valid_ret)

lemma run_podsUsingPVC:
  "run_state (podsUsingPVC c p) s =
     (case List_Pods c (pvc_namespace p) None (world s) of (r, w) \<Rightarrow>
        (case r of Inl err \<Rightarrow> Inl (Wrapped ''failed to list Pods'' err) | Inr items \<Rightarrow> Inr (filter (pod_uses p) items),
         s\<lparr>world := w\<rparr>))"
  by (simp add: podsUsingPVC_def run_simps split: prod.split)

text \<open>The pods the reconciler acts on: those of the namespace, as listed, that use the claim.\<close>

definition listed_users :: "('q, 'w) client \<Rightarrow> 'q pvc \<Rightarrow> 'w \<Rightarrow> pod list" where
  "listed_users c p w =
     (case fst (List_Pods c (pvc_namespace p) None w) of Inl _ \<Rightarrow> [] | Inr pods \<Rightarrow> filter (pod_uses p) pods)"

lemma run_users_then:
  assumes "\<And>pods. valid (f pods) (E pods) (\<lambda>_. True)"
    and "run_state (podsUsingPVC c p \<bind> (\<lambda>r. case r of Inl err \<Rightarrow> ret (g err) | Inr pods \<Rightarrow> f pods)) s = (x, s')"
  shows "\<exists>es. effects s' = effects s @ es \<and> list_all (E (listed_users c p (world s))) es"
proof -
  obtain r w where l: "List_Pods c (pvc_namespace p) None (world s) = (r, w)" by fastforce
  show ?thesis
  proof (cases r)
    case (Inl err)
    with assms(2) l show ?thesis by (auto simp: run_bind run_podsUsingPVC)
  next
    case (Inr pods)
    with assms(2) l have "run_state (f (filter (pod_uses p) pods)) (s\<lparr>world := w\<rparr>) = (x, s')"
      by (simp add: run_bind run_podsUsingPVC)
    from validD(2) [OF assms(1) this] Inr l show ?thesis by (simp add: listed_users_def)
  qed
qed

lemma evictPods_effects:
  assumes "run_state (evictPodsUsingPVC c p) s = (x, s')"
  shows "\<exists>es. effects s' = effects s @ es \<and> list_all (evict_effect (listed_users c p (world s))) es"
  by (rule run_users_then [OF _ assms [unfolded evictPodsUsingPVC_def]])
    (intro vcg valid_evict_loop, simp_all)

lemma removeGates_effects:
  assumes "run_state (removeSchedulingGates c p) s = (x, s')"
  shows "\<exists>es. effects s' = effects s @ es \<and> list_all (release_effect (listed_users c p (world s))) es"
  by (rule run_users_then [OF _ assms [unfolded removeSchedulingGates_def]])
    (rule valid_remove_gates_loop, simp)

text \<open>The decision of a reconciliation, for the claim it reads first.\<close>

lemma Reconcile_release:
  assumes "Get_PVC (rc_client r) k (world s) = (Inr p, w)" "\<not> held p"
  shows "run_state (Reconcile quote r k) s =
    (case run_state (removeSchedulingGates (rc_client r) p) (s\<lparr>world := w\<rparr>) of (err, s') \<Rightarrow> ((0, err), s'))"
  using assms by (auto simp: Reconcile_def held_def run_simps Let_def split: prod.split)

lemma Reconcile_evict:
  assumes "Get_PVC (rc_client r) k (world s) = (Inr p, w)" "held p"
    and "List_PVCAs (rc_client r) (Some (pvc_namespace p)) (owner_fields (pvc_name p) (rc_autoscalerName r)) w = (Inr pvcas, w')"
    and "offline_enabled quote (pvc_name p) pvcas" "IsOfflineResizeRequired p"
  shows "run_state (Reconcile quote r k) s =
    (case run_state (evictPodsUsingPVC (rc_client r) p) (s\<lparr>world := w'\<rparr>) of
       (err, s') \<Rightarrow> ((requeueDurationOnControllerResizeError, err), s'))"
  using assms
  by (auto dest: IsOfflineResizeEnabled_policy simp: Reconcile_def held_def run_bind run_api run_FindOwning Let_def offline_enabled_def State_Monad.run_state_return
      split: prod.split list.splits sum.splits option.splits)

lemma Reconcile_idle:
  assumes "Get_PVC (rc_client r) k (world s) = (Inr p, w)" "held p"
    and "List_PVCAs (rc_client r) (Some (pvc_namespace p)) (owner_fields (pvc_name p) (rc_autoscalerName r)) w = (l, w')"
    and "\<not> (\<exists>pvcas. l = Inr pvcas \<and> offline_enabled quote (pvc_name p) pvcas \<and> IsOfflineResizeRequired p)"
  shows "\<exists>err. run_state (Reconcile quote r k) s = ((0, err), s\<lparr>world := w'\<rparr>)"
  using assms
  by (auto simp: Reconcile_def held_def run_bind run_api run_FindOwning Let_def offline_enabled_def State_Monad.run_state_return
      split: prod.split list.splits sum.splits option.splits)


lemma Reconcile_no_claim:
  assumes "Get_PVC (rc_client r) k (world s) = (Inl err, w)"
  shows "run_state (Reconcile quote r k) s =
    ((0, if IsNotFound err then None else Some (Wrapped ''failed to get PersistentVolumeClaim'' err)), s\<lparr>world := w\<rparr>)"
  using assms by (simp add: Reconcile_def run_simps)

text \<open>
  C3: The offline-resize controller disturbs pods only where it has to. For the claim it reads,
  every effect of a reconciliation besides events is one of two: the eviction of a running pod,
  not being deleted, that uses the claim, and then the resize of the claim fails with an error
  that demands an offline resize, no filesystem resize is pending and the first autoscaler
  listed for the claim under the configured name has enabled offline resize; or the removal of
  exactly the offline-resize gate from a pod that uses the claim, and then the resize no longer
  holds the pods back.
\<close>

theorem offline_effects_safe:
  fixes r :: "('q, 'w) reconciler"
  assumes "Get_PVC (rc_client r) k (world s) = (Inr p, w)" "run_state (Reconcile quote r k) s = (res, s')"
  shows "\<exists>es. effects s' = effects s @ es \<and>
    (if held p then
       (case List_PVCAs (rc_client r) (Some (pvc_namespace p)) (owner_fields (pvc_name p) (rc_autoscalerName r)) w of
          (Inr pvcas, w') \<Rightarrow>
            if offline_enabled quote (pvc_name p) pvcas \<and> IsOfflineResizeRequired p
            then list_all (evict_effect (listed_users (rc_client r) p w')) es else es = []
        | _ \<Rightarrow> es = [])
     else list_all (release_effect (listed_users (rc_client r) p w)) es)"
proof (cases "held p")
  case False
  then show ?thesis
    using removeGates_effects [of "rc_client r" p "s\<lparr>world := w\<rparr>"] assms(2)
    by (auto simp: Reconcile_release [OF assms(1) False] split: prod.splits)
next
  case True
  obtain l w' where l: "List_PVCAs (rc_client r) (Some (pvc_namespace p))
      (owner_fields (pvc_name p) (rc_autoscalerName r)) w = (l, w')" by fastforce
  show ?thesis
  proof (cases "\<exists>pvcas. l = Inr pvcas \<and> offline_enabled quote (pvc_name p) pvcas \<and> IsOfflineResizeRequired p")
    case enabled: True
    then obtain pvcas where e: "l = Inr pvcas" "offline_enabled quote (pvc_name p) pvcas" "IsOfflineResizeRequired p" by blast
    show ?thesis
      using Reconcile_evict [OF assms(1) True l [unfolded e(1)] e(2,3)] assms(2) True l e
        evictPods_effects [of "rc_client r" p "s\<lparr>world := w'\<rparr>"]
      by (auto split: prod.splits)
  next
    case False
    then show ?thesis
      using Reconcile_idle [OF assms(1) True l False] assms(2) True l by (auto split: sum.split)
  qed
qed


section \<open>Gates are released\<close>

text \<open>
  What the release relies on: a server that stores pods. Listing gives the stored pods of the
  namespace, a patch of a stored pod stores the patched pod, and reading claims changes no pod.
\<close>

definition stores_pods :: "('q, 'w) client \<Rightarrow> ('w \<Rightarrow> pod list) \<Rightarrow> bool" where
  "stores_pods c pods \<longleftrightarrow>
     (\<forall>k w. pods (snd (Get_PVC c k w)) = pods w) \<and>
     (\<forall>ns w. \<exists>w'. List_Pods c ns None w = (Inr (filter (\<lambda>p. pod_namespace p = ns) (pods w)), w') \<and> pods w' = pods w) \<and>
     (\<forall>old new w. old \<in> set (pods w) \<and> pod_key new = pod_key old \<longrightarrow>
        (\<exists>w'. Patch_Pod c old new w = (Inr new, w') \<and> pods w' = map (\<lambda>q. if pod_key q = pod_key new then new else q) (pods w)))"

lemma stores_podsD:
  assumes "stores_pods c pods"
  shows "pods (snd (Get_PVC c k w)) = pods w"
    and "\<exists>w'. List_Pods c ns None w = (Inr (filter (\<lambda>p. pod_namespace p = ns) (pods w)), w') \<and> pods w' = pods w"
    and "old \<in> set (pods w) \<Longrightarrow> pod_key new = pod_key old \<Longrightarrow>
      \<exists>w'. Patch_Pod c old new w = (Inr new, w') \<and> pods w' = map (\<lambda>q. if pod_key q = pod_key new then new else q) (pods w)"
  using assms unfolding stores_pods_def by blast+

abbreviation ungate :: "pod \<Rightarrow> pod" where
  "ungate pod \<equiv> RemoveSchedulingGate pod SchedulingGateOfflineResize"

lemma ungate_key [simp]:
  "pod_key (RemoveSchedulingGate pod g) = pod_key pod" "pod_namespace (RemoveSchedulingGate pod g) = pod_namespace pod"
  by (simp_all add: RemoveSchedulingGate_def pod_key_def)

lemma replace_ungate:
  assumes "distinct (map pod_key ps)" "q \<in> set ps"
  shows "map (\<lambda>x. if pod_key x = pod_key (ungate q) then ungate q else x) ps = map (\<lambda>x. if x = q then ungate x else x) ps"
  using assms by (auto simp: distinct_map inj_on_def)

lemma remove_gates_loop_step:
  assumes "HasSchedulingGate q SchedulingGateOfflineResize" "Patch_Pod c q (ungate q) (world s) = (Inr q', w)"
  shows "\<exists>s1. world s1 = w \<and> run_state (remove_gates_loop c p (q # qs)) s = run_state (remove_gates_loop c p qs) s1"
  by (rule exI, rule conjI [rotated], simp add: assms patch_pod_def run_simps, simp)

lemma remove_gates_loop_run:
  assumes "stores_pods c pods"
  shows "distinct (map pod_key (pods (world s))) \<Longrightarrow> set qs \<subseteq> set (pods (world s)) \<Longrightarrow> distinct qs \<Longrightarrow>
    \<exists>s'. run_state (remove_gates_loop c p qs) s = (None, s') \<and>
      pods (world s') = map (\<lambda>x. if x \<in> set qs then ungate x else x) (pods (world s))"
proof (induction qs arbitrary: s)
  case (Cons q qs)
  note keys = Cons.prems(1)
  show ?case
  proof (cases "HasSchedulingGate q SchedulingGateOfflineResize")
    case False
    with Cons.IH [of s] Cons.prems show ?thesis
      by (auto simp: RemoveSchedulingGate_absent cong: map_cong)
  next
    case True
    obtain w where w: "Patch_Pod c q (ungate q) (world s) = (Inr (ungate q), w)"
        "pods w = map (\<lambda>x. if x = q then ungate x else x) (pods (world s))"
      using stores_podsD(3) [OF assms, of q "world s" "ungate q"] Cons.prems keys
      by (auto simp: replace_ungate [simplified])
    from remove_gates_loop_step [OF True w(1)] obtain s1 where
      s1: "world s1 = w" "run_state (remove_gates_loop c p (q # qs)) s = run_state (remove_gates_loop c p qs) s1" by blast
    have other: "x \<noteq> ungate q" if "x \<in> set qs" for x
    proof
      assume "x = ungate q"
      then have "pod_key x = pod_key q" by simp
      with that Cons.prems keys show False by (auto simp: distinct_map inj_on_def)
    qed
    have "map pod_key (pods (world s1)) = map pod_key (pods (world s))" by (simp add: s1(1) w(2))
    with keys have keys1: "distinct (map pod_key (pods (world s1)))" by simp
    have "set qs \<subseteq> set (pods (world s1))" using Cons.prems s1(1) w(2) by auto
    from Cons.IH [OF keys1 this] Cons.prems(3) s1 obtain s' where s': "run_state (remove_gates_loop c p (q # qs)) s = (None, s')"
        "pods (world s') = map (\<lambda>x. if x \<in> set qs then ungate x else x) (pods w)" by auto
    have "pods (world s') = map (\<lambda>x. if x \<in> set (q # qs) then ungate x else x) (pods (world s))"
      using other Cons.prems(3) by (auto simp: s'(2) w(2))
    with s'(1) show ?thesis by blast
  qed
qed (simp add: State_Monad.run_state_return)

lemma Reconcile_releases:
  fixes r :: "('q, 'w) reconciler"
  assumes "stores_pods (rc_client r) pods" "Get_PVC (rc_client r) (ns, n) (world s) = (Inr p, w)"
    and "pvc_key p = (ns, n)" "\<not> held p" "distinct (map pod_key (pods (world s)))"
  shows "\<exists>s'. run_state (Reconcile quote r (ns, n)) s = ((0, None), s') \<and>
    pods (world s') = map (\<lambda>pod. if pod_namespace pod = ns \<and> Some n \<in> set (pod_volumes pod)
      then ungate pod else pod) (pods (world s))"
proof -
  let ?users = "filter (pod_uses p) (filter (\<lambda>pod. pod_namespace pod = ns) (pods w))"
  have w: "pods w = pods (world s)" using stores_podsD(1) [OF assms(1)] assms(2) by (metis snd_conv)
  have p: "pvc_namespace p = ns" "pvc_name p = n" using assms(3) by (simp_all add: pvc_key_def)
  obtain w' where w': "List_Pods (rc_client r) ns None w = (Inr (filter (\<lambda>pod. pod_namespace pod = ns) (pods w)), w')"
      "pods w' = pods w"
    using stores_podsD(2) [OF assms(1)] by blast
  have keys: "distinct (map pod_key (pods w'))" using assms(5) by (simp add: w w'(2))
  then have "distinct ?users" by (simp add: w'(2) distinct_map)
  then obtain s' where s': "run_state (remove_gates_loop (rc_client r) p ?users) (s\<lparr>world := w'\<rparr>) = (None, s')"
      "pods (world s') = map (\<lambda>x. if x \<in> set ?users then ungate x else x) (pods w')"
    using remove_gates_loop_run [OF assms(1), of "s\<lparr>world := w'\<rparr>" ?users p] w'(2) keys by auto
  have "run_state (Reconcile quote r (ns, n)) s = ((0, None), s')"
    using s'(1) w'(1) p
    by (simp add: Reconcile_release [OF assms(2,4)] removeSchedulingGates_def run_bind run_podsUsingPVC)
  moreover have "pods (world s') =
      map (\<lambda>pod. if pod_namespace pod = ns \<and> Some n \<in> set (pod_volumes pod) then ungate pod else pod) (pods (world s))"
    by (simp add: s'(2) w'(2) w pod_uses_def p list_ex_iff conj_commute)
  ultimately show ?thesis by blast
qed

text \<open>
  C16: Gates are released. Once the resize of a claim no longer holds its pods back, one
  reconciliation of the claim succeeds and removes the offline-resize gate from every pod of
  the namespace that uses the claim; no other pod and no other gate changes.
\<close>

theorem gates_released:
  fixes r :: "('q, 'w) reconciler"
  assumes "stores_pods (rc_client r) pods" "Get_PVC (rc_client r) (ns, n) (world s) = (Inr p, w)"
    and "pvc_key p = (ns, n)" "\<not> held p" "distinct (map pod_key (pods (world s)))"
  shows "\<exists>s'. run_state (Reconcile quote r (ns, n)) s = ((0, None), s') \<and>
    pods (world s') = map (\<lambda>pod. if pod_namespace pod = ns \<and> Some n \<in> set (pod_volumes pod)
      then RemoveSchedulingGate pod SchedulingGateOfflineResize else pod) (pods (world s)) \<and>
    (\<forall>pod \<in> set (pods (world s')). pod_namespace pod = ns \<longrightarrow> Some n \<in> set (pod_volumes pod) \<longrightarrow>
       \<not> HasSchedulingGate pod SchedulingGateOfflineResize)"
proof -
  obtain s' where run: "run_state (Reconcile quote r (ns, n)) s = ((0, None), s')"
    and pods: "pods (world s') = map (\<lambda>pod. if pod_namespace pod = ns \<and> Some n \<in> set (pod_volumes pod)
      then ungate pod else pod) (pods (world s))"
    using Reconcile_releases [OF assms] by blast
  moreover have "\<not> HasSchedulingGate pod SchedulingGateOfflineResize"
    if "pod \<in> set (pods (world s'))" "pod_namespace pod = ns" "Some n \<in> set (pod_volumes pod)" for pod
  proof -
    from that(1) obtain q where "pod = (if pod_namespace q = ns \<and> Some n \<in> set (pod_volumes q) then ungate q else q)"
      unfolding pods set_map by (rule imageE)
    with that(2,3) have "pod = ungate q" by (metis)
    then show ?thesis by (simp add: gates.has_remove)
  qed
  ultimately show ?thesis by blast
qed

section \<open>Evictions are complete\<close>

text \<open>
  The answers to a request to evict a pod: \<open>refused\<close> when a budget blocks it, \<open>hard_error\<close> for an error that is
  neither this nor a pod that is gone.
\<close>

definition refused :: "go_error option \<Rightarrow> bool" where
  "refused a = (case a of None \<Rightarrow> False | Some err \<Rightarrow> \<not> IsNotFound err \<and> IsTooManyRequests err)"

definition hard_error :: "go_error option \<Rightarrow> bool" where
  "hard_error a = (case a of None \<Rightarrow> False | Some err \<Rightarrow> \<not> IsNotFound err \<and> \<not> IsTooManyRequests err)"

fun evicted :: "'q effect list \<Rightarrow> pod list" where
  "evicted [] = []"
| "evicted (Evict pod # es) = pod # evicted es"
| "evicted (e # es) = evicted es"

lemma evicted_append [simp]: "evicted (xs @ ys) = evicted xs @ evicted ys"
  by (induction xs rule: evicted.induct) auto

lemmas evict_run = evict_def create_eviction_def run_simps refused_def

text \<open>
  The requests to evict pods one after another, each with the answer of the server, which
  may depend on all that happened before; a hard error ends them.
\<close>

fun eviction_requests :: "('q, 'w) client \<Rightarrow> pod list \<Rightarrow> 'w \<Rightarrow> (pod \<times> go_error option) list" where
  "eviction_requests c [] w = []"
| "eviction_requests c (pod # pods) w =
     (case Create_Eviction c pod w of
        (a, w') \<Rightarrow> (pod, a) # (if hard_error a then [] else eviction_requests c pods w'))"

lemma eviction_requests_all:
  assumes "\<forall>x \<in> set (eviction_requests c pods w). \<not> hard_error (snd x)"
  shows "map fst (eviction_requests c pods w) = pods"
  using assms
proof (induction pods arbitrary: w)
  case (Cons pod pods)
  obtain a w' where "Create_Eviction c pod w = (a, w')" by fastforce
  with Cons.prems Cons.IH [of w'] show ?case by simp
qed simp

lemma eviction_requests_stop:
  assumes "x \<in> set (eviction_requests c pods w)" "hard_error (snd x)"
  shows "hard_error (snd (last (eviction_requests c pods w)))"
  using assms
proof (induction pods arbitrary: w)
  case (Cons pod pods)
  obtain a w' where "Create_Eviction c pod w = (a, w')" by fastforce
  with Cons.prems Cons.IH [of w'] show ?case by (auto split: if_splits)
qed simp

lemma eviction_requests_prefix: "\<exists>rest. pods = map fst (eviction_requests c pods w) @ rest"
  by (induction pods arbitrary: w) (auto split: prod.splits)

lemma evict_loop_step:
  assumes "evictable pod" "Create_Eviction c pod (world s) = (a, w)" "\<not> hard_error a"
  shows "\<exists>s1 es. run_state (evict_loop c p (pod # pods) b) s = run_state (evict_loop c p pods (b \<or> refused a)) s1 \<and>
    world s1 = w \<and> effects s1 = effects s @ es \<and> evicted es = [pod]"
proof (cases a)
  case None
  show ?thesis
    by (rule exI, rule exI, rule conjI, simp add: evict_run None assms [unfolded evictable_def None])
      (rule conjI, simp, rule conjI, simp, simp)
next
  case (Some err)
  with assms(3) consider "IsNotFound err" | "\<not> IsNotFound err" "IsTooManyRequests err" by (auto simp: hard_error_def)
  then show ?thesis
  proof cases
    case nf: 1
    show ?thesis
      by (rule exI, rule exI, rule conjI, simp add: evict_run Some nf assms [unfolded evictable_def Some])
        (rule conjI, simp, rule conjI, simp, simp)
  next
    case blocked: 2
    show ?thesis
      by (rule exI, rule exI, rule conjI, simp add: evict_run Some blocked assms [unfolded evictable_def Some])
        (rule conjI, simp, rule conjI, simp, simp)
  qed
qed

lemma evict_loop_stops:
  assumes "evictable pod" "Create_Eviction c pod (world s) = (a, w)" "hard_error a"
  shows "\<exists>e. run_state (evict_loop c p (pod # pods) b) s = (Inl e, s\<lparr>world := w, effects := effects s @ [Evict pod]\<rparr>)"
  using assms by (auto simp: evict_run evictable_def hard_error_def split: option.splits)

lemma evict_loop_run:
  "\<exists>x s' es. run_state (evict_loop c p pods b) s = (x, s') \<and> effects s' = effects s @ es \<and>
     evicted es = map fst (eviction_requests c (filter evictable pods) (world s)) \<and>
     (if \<exists>y \<in> set (eviction_requests c (filter evictable pods) (world s)). hard_error (snd y) then isl x
      else x = Inr (b \<or> (\<exists>y \<in> set (eviction_requests c (filter evictable pods) (world s)). refused (snd y))))"
proof (induction pods arbitrary: b s)
  case (Cons pod pods)
  obtain a w where aw: "Create_Eviction c pod (world s) = (a, w)" by fastforce
  consider "\<not> evictable pod" | "evictable pod" "hard_error a" | "evictable pod" "\<not> hard_error a" by blast
  then show ?case
  proof cases
    case 1
    then have "run_state (evict_loop c p (pod # pods) b) s = run_state (evict_loop c p pods b) s" by (auto simp: evictable_def)
    moreover have "filter evictable (pod # pods) = filter evictable pods" using 1 by simp
    ultimately show ?thesis using Cons.IH [of b s] by (simp only:)
  next
    case 2
    obtain e where "run_state (evict_loop c p (pod # pods) b) s = (Inl e, s\<lparr>world := w, effects := effects s @ [Evict pod]\<rparr>)"
      using evict_loop_stops [OF 2(1) aw 2(2)] by blast
    then show ?thesis using 2 aw by (intro exI [of _ "Inl e"] exI [of _ "[Evict pod]"]) (auto simp del: evict_loop.simps)
  next
    case 3
    let ?b = "b \<or> refused a"
    obtain s1 es where s1: "run_state (evict_loop c p (pod # pods) b) s = run_state (evict_loop c p pods ?b) s1"
        "world s1 = w" "effects s1 = effects s @ es" "evicted es = [pod]"
      using evict_loop_step [OF 3(1) aw 3(2), of p pods b] by blast
    from Cons.IH [of ?b s1] obtain x s' fs where s': "run_state (evict_loop c p pods ?b) s1 = (x, s')" "effects s' = effects s1 @ fs"
        "evicted fs = map fst (eviction_requests c (filter evictable pods) w)"
        "if \<exists>y \<in> set (eviction_requests c (filter evictable pods) w). hard_error (snd y) then isl x
         else x = Inr (?b \<or> (\<exists>y \<in> set (eviction_requests c (filter evictable pods) w). refused (snd y)))"
      unfolding s1(2) by blast
    show ?thesis
      by (rule exI [of _ x], rule exI [of _ s'], rule exI [of _ "es @ fs"])
        (use s' s1 3 aw in \<open>auto simp del: evict_loop.simps split: if_splits\<close>)
  qed
qed (simp add: State_Monad.run_state_return)

text \<open>
  C17: Evictions are complete and retried. When the resize of a claim demands an offline resize,
  its autoscaler has enabled it, and the claim, the autoscalers and the pods can be read, a reconciliation
  requests the eviction of the running pods not being deleted that use the claim, in the order listed
  and each once, whether or not an object owns them, and asks to be repeated in 10 seconds. The server
  may answer as it likes. Unless an answer is a hard error, every such pod is requested, even
  when budgets block some of them, and an error is reported exactly when an eviction was blocked. A
  hard error ends the requests and is reported. (The comment of \<open>evictPodsUsingPVC\<close> says that pods
  that no workload controller owns are skipped; the code does not look at the owner references.)
\<close>

theorem evictions_complete:
  fixes r :: "('q, 'w) reconciler"
  assumes "Get_PVC (rc_client r) k (world s) = (Inr p, w)" "held p" "IsOfflineResizeRequired p"
    and "List_PVCAs (rc_client r) (Some (pvc_namespace p)) (owner_fields (pvc_name p) (rc_autoscalerName r)) w = (Inr pvcas, w')"
    and "offline_enabled quote (pvc_name p) pvcas"
    and "List_Pods (rc_client r) (pvc_namespace p) None w' = (Inr pods, w'')"
  defines "targets \<equiv> filter (\<lambda>pod. pod_uses p pod \<and> evictable pod) pods"
  defines "requests \<equiv> eviction_requests (rc_client r) targets w''"
  shows "\<exists>err s' es. run_state (Reconcile quote r k) s = ((10 * 10 ^ 9, err), s') \<and>
    effects s' = effects s @ es \<and> evicted es = map fst requests \<and>
    (if \<exists>(pod, answer) \<in> set requests. hard_error answer
     then err \<noteq> None \<and> hard_error (snd (last requests)) \<and> (\<exists>rest. targets = map fst requests @ rest)
     else map fst requests = targets \<and> (err \<noteq> None \<longleftrightarrow> (\<exists>(pod, answer) \<in> set requests. refused answer)))"
proof -
  let ?users = "filter (pod_uses p) pods"
  have t: "filter evictable ?users = targets" by (auto simp: targets_def conj_commute)
  from evict_loop_run [of "rc_client r" p ?users False "s\<lparr>world := w''\<rparr>"] obtain x s' es where
    s': "run_state (evict_loop (rc_client r) p ?users False) (s\<lparr>world := w''\<rparr>) = (x, s')"
      "effects s' = effects s @ es" "evicted es = map fst requests"
      "if \<exists>y \<in> set requests. hard_error (snd y) then isl x else x = Inr (\<exists>y \<in> set requests. refused (snd y))"
    unfolding t by (auto simp: requests_def)
  have run: "\<exists>err. run_state (Reconcile quote r k) s = ((10 * 10 ^ 9, err), s') \<and> (err \<noteq> None \<longleftrightarrow> isl x \<or> x = Inr True)"
    by (cases x) (auto simp: Reconcile_evict [OF assms(1,2,4,5,3)] evictPodsUsingPVC_def run_bind run_podsUsingPVC assms(6) s'(1)
        State_Monad.run_state_return requeueDurationOnControllerResizeError_def)
  have all: "map fst requests = targets" if "\<not> (\<exists>y \<in> set requests. hard_error (snd y))"
    using that eviction_requests_all by (auto simp: requests_def)
  have stop: "hard_error (snd (last requests)) \<and> (\<exists>rest. targets = map fst requests @ rest)" if "\<exists>y \<in> set requests. hard_error (snd y)"
    using that eviction_requests_stop [of _ "rc_client r" targets w'']
      eviction_requests_prefix [of targets "rc_client r" w''] unfolding requests_def by blast
  from run obtain err where err: "run_state (Reconcile quote r k) s = ((10 * 10 ^ 9, err), s')"
    "err \<noteq> None \<longleftrightarrow> isl x \<or> x = Inr True" by blast
  have "if \<exists>y \<in> set requests. hard_error (snd y)
     then err \<noteq> None \<and> hard_error (snd (last requests)) \<and> (\<exists>rest. targets = map fst requests @ rest)
     else map fst requests = targets \<and> (err \<noteq> None \<longleftrightarrow> (\<exists>y \<in> set requests. refused (snd y)))"
    using s'(4) err(2) all stop by (simp split: if_splits)
  with err(1) s'(2,3) show ?thesis unfolding case_prod_beta by blast
qed

section \<open>Requests\<close>

lemma recommendationNames_eq_iff:
  "recommendationNames a = recommendationNames b \<longleftrightarrow>
     mset (map vr_name (VolumeRecommendations (Status a))) = mset (map vr_name (VolumeRecommendations (Status b)))"
  unfolding recommendationNames_def
  by (auto dest: arg_cong [where f = mset] intro!: properties_for_sort)

lemma MapPodToPVCs_set:
  "set (MapPodToPVCs (PodObject pod)) = {(pod_namespace pod, n) | n. Some n \<in> set (pod_volumes pod)}"
  by (force simp: MapPodToPVCs_def map_filter_def)

definition annotated :: "'q pvc \<Rightarrow> bool" where
  "annotated p \<longleftrightarrow> pvc_annotations p AnnotationPreviousSize \<noteq> None"

lemma PVC_filter_iff:
  "PVCIsInResizeErrorOrFileSystemResizePending (PVCObject p) \<longleftrightarrow>
     annotated p \<and> (IsPersistentVolumeClaimConditionTrue p PVCControllerResizeError \<or>
       IsPersistentVolumeClaimConditionTrue p PVCFileSystemResizePending)"
  by (simp add: PVCIsInResizeErrorOrFileSystemResizePending_def annotated_def split: option.split)

text \<open>
  Which claims the controller looks at after an event. An update of a claim requests it
  exactly when the new claim was resized by the autoscaler (carries the annotation) and has the
  error or the pending condition. An update of an autoscaler requests the claims of its old and
  new recommendations exactly when the recommended claims, not their order, or the volume
  policies changed. The creation of a pod requests exactly the claims it uses when it carries the gate and
  none otherwise; other pod events request nothing.
\<close>

lemma requests_of_events:
  "set (SetupWithManager deepEqual (UpdateEvent (PVCObject p) (PVCObject p'))) =
     (if annotated p' \<and> (IsPersistentVolumeClaimConditionTrue p' PVCControllerResizeError \<or>
        IsPersistentVolumeClaimConditionTrue p' PVCFileSystemResizePending)
      then {pvc_key p, pvc_key p'} else {}) \<and>
   set (SetupWithManager deepEqual (UpdateEvent (PVCAObject a) (PVCAObject a'))) =
     (if mset (map vr_name (VolumeRecommendations (Status a))) = mset (map vr_name (VolumeRecommendations (Status a'))) \<and>
        deepEqual (VolumePolicies (Spec a)) (VolumePolicies (Spec a'))
      then {} else {(pvca_namespace b, vr_name vr) | b vr. b \<in> {a, a'} \<and> vr \<in> set (VolumeRecommendations (Status b))}) \<and>
   set (SetupWithManager deepEqual (CreateEvent (PodObject pod))) =
     (if HasSchedulingGate pod SchedulingGateOfflineResize
      then {(pod_namespace pod, n) | n. Some n \<in> set (pod_volumes pod)} else {}) \<and>
   SetupWithManager deepEqual (UpdateEvent (PodObject pod) (PodObject pod')) = []"
  (is "?claim \<and> ?autoscaler \<and> ?created \<and> ?updated")
proof -
  have ?claim
    by (auto simp: SetupWithManager_def PVC_filter_iff PVCARecommendationsOrPoliciesChangedPredicate_def
        PodWithSchedulingGatePredicate_def)
  moreover have ?autoscaler
    by (auto simp: SetupWithManager_def PVCIsInResizeErrorOrFileSystemResizePending_def PodWithSchedulingGatePredicate_def
        PVCARecommendationsOrPoliciesChangedPredicate_def recommendationNames_eq_iff MapPVCAToPVCs_def)
  moreover have ?created
    by (simp add: SetupWithManager_def PVCIsInResizeErrorOrFileSystemResizePending_def MapPodToPVCs_set
        PVCARecommendationsOrPoliciesChangedPredicate_def PodWithSchedulingGatePredicate_def)
  moreover have ?updated
    by (simp add: SetupWithManager_def PVCIsInResizeErrorOrFileSystemResizePending_def
        PVCARecommendationsOrPoliciesChangedPredicate_def PodWithSchedulingGatePredicate_def)
  ultimately show ?thesis by blast
qed

section \<open>Examples\<close>

text \<open>
  A claim \<^verbatim>\<open>data\<close> whose expansion failed with the message of a provider that resizes only
  detached disks, a healthy claim \<^verbatim>\<open>logs\<close>, and an autoscaler that recommends sizes for both.
\<close>

definition offline_error :: pvc_condition where
  "offline_error = \<lparr>pc_type = PVCControllerResizeError, pc_status = ConditionTrue,
     pc_message = ''Please stop your VM or detach the disk''\<rparr>"

definition example_claim :: "string \<Rightarrow> pvc_condition list \<Rightarrow> int pvc" where
  "example_claim n conds = (example_pvc (20 * 2 ^ 30))\<lparr>pvc_name := n, pvc_conditions := conds,
     pvc_annotations := [AnnotationPreviousSize \<mapsto> ''10Gi'']\<rparr>"

definition offline_pvca :: "string \<Rightarrow> int pvca" where
  "offline_pvca strategy = (example_pvca [(example_policy ''*'' (2 ^ 40))\<lparr>ScaleUp := Some (example_rules strategy)\<rparr>])
     \<lparr>Status := \<lparr>VolumeRecommendations = map new_VolumeRecommendation [''data'', ''logs''], Conditions = []\<rparr>\<rparr>"

definition offline_world :: "string \<Rightarrow> pvc_condition list \<Rightarrow> pod list \<Rightarrow> int cluster" where
  "offline_world strategy conds pods = \<lparr>cl_pvcs = [example_claim ''data'' conds, example_claim ''logs'' []], cl_classes = [],
     cl_pvcas = [offline_pvca strategy], cl_pods = pods, cl_clock = 0\<rparr>"

definition example_reconciler :: "(int, int cluster) reconciler" where
  "example_reconciler = \<lparr>rc_client = memory_client, rc_autoscalerName = ''''\<rparr>"

lemma offline_required: "IsOfflineResizeRequired (example_claim n [offline_error])"
  unfolding IsOfflineResizeRequired_def GetPersistentVolumeClaimCondition_def example_claim_def offline_error_def
  by code_simp

lemma example_claim_sel [simp]:
  "pvc_key (example_claim n cs) = (''ns'', n)" "pvc_namespace (example_claim n cs) = ''ns''"
  "pvc_name (example_claim n cs) = n" "pvc_conditions (example_claim n cs) = cs"
  "pvc_annotations (example_claim n cs) = [AnnotationPreviousSize \<mapsto> ''10Gi'']"
  by (simp_all add: example_claim_def pvc_key_def)

lemma held_example [simp]: "held (example_claim n [offline_error])" "\<not> held (example_claim n [])"
  by (simp_all add: held_def pvc_condition_defs offline_error_def)

lemma offline_world_sel [simp]:
  "cl_pvcs (offline_world st cs ps) = [example_claim ''data'' cs, example_claim ''logs'' []]"
  "cl_pods (offline_world st cs ps) = ps" "cl_pvcas (offline_world st cs ps) = [offline_pvca st]"
  by (simp_all add: offline_world_def)

lemma offline_pvca_owns [simp]:
  "pvca_namespace (offline_pvca st) = ''ns''"
  "list_all (matches_field (offline_pvca st)) (owner_fields n '''') \<longleftrightarrow> n \<in> {''data'', ''logs''}"
  by (auto simp: offline_pvca_def example_pvca_def owner_fields_def matches_autoscalerName matches_volumeRecommendation
      new_VolumeRecommendation_def)

lemma offline_pvca_enabled [simp]:
  "offline_enabled quote ''data'' [offline_pvca st] \<longleftrightarrow> st = PreferInPlaceVolumeResizeStrategy"
proof -
  have "GetVolumePolicy quote ''data'' [(example_policy ''*'' (2 ^ 40))\<lparr>ScaleUp := Some (example_rules st)\<rparr>]
      = Inr (Some ((example_policy ''*'' (2 ^ 40))\<lparr>ScaleUp := Some (example_rules st)\<rparr>))"
    by (subst GetVolumePolicy_plain) (simp_all add: example_policy_def plain_def del: GetVolumePolicy.simps)
  then show ?thesis
    by (simp add: offline_enabled_def offline_pvca_def example_pvca_def IsOfflineResizeEnabled_def)
qed

lemma memory_client_stores: "stores_pods memory_client cl_pods"
  by (auto simp: stores_pods_def replace_def list_ex_iff)

lemma example_reconciler_sel [simp]:
  "rc_client example_reconciler = memory_client" "rc_autoscalerName example_reconciler = ''''"
  by (simp_all add: example_reconciler_def)

lemma example_pod_sel [simp]:
  "pod_key (example_pod n vs) = (''ns'', n)" "pod_namespace (example_pod n vs) = ''ns''" "pod_volumes (example_pod n vs) = vs"
  "pod_name (example_pod n vs) = n" "pod_schedulingGates (example_pod n vs) = []" "evictable (example_pod n vs)"
  "pod_ownerReferences (example_pod n vs) = []"
  by (simp_all add: example_pod_def pod_key_def evictable_def)

definition gated_pod :: "string \<Rightarrow> volume list \<Rightarrow> pod" where
  "gated_pod n vs = AddSchedulingGate ((example_pod n vs)\<lparr>pod_phase := ''Pending''\<rparr>) SchedulingGateOfflineResize"

lemma gated_pod_sel [simp]:
  "pod_key (gated_pod n vs) = (''ns'', n)" "pod_namespace (gated_pod n vs) = ''ns''" "pod_volumes (gated_pod n vs) = vs"
  "HasSchedulingGate (gated_pod n vs) SchedulingGateOfflineResize" "\<not> evictable (gated_pod n vs)"
  by (simp_all add: gated_pod_def gates.has_add) (simp_all add: AddSchedulingGate_def HasSchedulingGate_def example_pod_def pod_key_def evictable_def)

theorem offline_effects_safe_witness:
  "\<exists>es. effects (snd (run_state (Reconcile id example_reconciler (''ns'', ''data''))
      (start_state (offline_world PreferInPlaceVolumeResizeStrategy [offline_error]
         [example_pod ''db-0'' [Some ''data''], example_pod ''web-0'' [Some ''logs''], gated_pod ''db-1'' [Some ''data'']])))) = es \<and>
     list_all (evict_effect [example_pod ''db-0'' [Some ''data''], gated_pod ''db-1'' [Some ''data'']]) es"
proof -
  let ?w = "offline_world PreferInPlaceVolumeResizeStrategy [offline_error]
    [example_pod ''db-0'' [Some ''data''], example_pod ''web-0'' [Some ''logs''], gated_pod ''db-1'' [Some ''data'']]"
  have g: "Get_PVC (rc_client example_reconciler) (''ns'', ''data'') (world (start_state ?w)) = (Inr (example_claim ''data'' [offline_error]), ?w)"
    by (simp add: start_state_def)
  from offline_effects_safe [OF g surjective_pairing, of id] show ?thesis
    by (simp add: offline_required listed_users_def pod_uses_def start_state_def)
qed

theorem gates_released_witness:
  "\<exists>s'. run_state (Reconcile id example_reconciler (''ns'', ''data''))
      (start_state (offline_world PreferInPlaceVolumeResizeStrategy [] [gated_pod ''db-0'' [Some ''data'']])) = ((0, None), s') \<and>
    (\<forall>pod \<in> set (cl_pods (world s')). \<not> HasSchedulingGate pod SchedulingGateOfflineResize)"
proof -
  let ?w = "offline_world PreferInPlaceVolumeResizeStrategy [] [gated_pod ''db-0'' [Some ''data'']]"
  have g: "Get_PVC (rc_client example_reconciler) (''ns'', ''data'') (world (start_state ?w)) = (Inr (example_claim ''data'' []), ?w)"
    by (simp add: start_state_def)
  have st: "stores_pods (rc_client example_reconciler) cl_pods" by (simp add: memory_client_stores)
  from gates_released [OF st g, of id] obtain s' where
    "run_state (Reconcile id example_reconciler (''ns'', ''data'')) (start_state ?w) = ((0, None), s')"
    "cl_pods (world s') = [RemoveSchedulingGate (gated_pod ''db-0'' [Some ''data'']) SchedulingGateOfflineResize]"
    by (auto simp: start_state_def)
  then show ?thesis by (auto simp: gates.has_remove)
qed

theorem evictions_complete_witness:
  "\<exists>err s' es. run_state (Reconcile id (example_reconciler\<lparr>rc_client := memory_client\<lparr>Create_Eviction :=
        (\<lambda>pod w. (if pod_name pod = ''db-0'' then Some (ApiError ''TooManyRequests'' ''disruption budget'') else None, w))\<rparr>\<rparr>)
        (''ns'', ''data''))
      (start_state (offline_world PreferInPlaceVolumeResizeStrategy [offline_error]
         [example_pod ''db-0'' [Some ''data''], example_pod ''db-1'' [Some ''data''], example_pod ''web-0'' [Some ''logs'']])) =
     ((10 * 10 ^ 9, err), s') \<and>
     effects s' = es \<and> evicted es = [example_pod ''db-0'' [Some ''data''], example_pod ''db-1'' [Some ''data'']] \<and> err \<noteq> None \<and>
     pod_ownerReferences (example_pod ''db-0'' [Some ''data'']) = []"
proof -
  let ?answer = "\<lambda>pod. if pod_name pod = ''db-0'' then Some (ApiError ''TooManyRequests'' ''disruption budget'') else None"
  let ?pods = "[example_pod ''db-0'' [Some ''data''], example_pod ''db-1'' [Some ''data''], example_pod ''web-0'' [Some ''logs'']]"
  let ?r = "example_reconciler\<lparr>rc_client := memory_client\<lparr>Create_Eviction := \<lambda>pod w. (?answer pod, w)\<rparr>\<rparr>"
  let ?w = "offline_world PreferInPlaceVolumeResizeStrategy [offline_error] ?pods"
  have g: "Get_PVC (rc_client ?r) (''ns'', ''data'') (world (start_state ?w)) = (Inr (example_claim ''data'' [offline_error]), ?w)"
    by (simp add: start_state_def)
  have l: "List_PVCAs (rc_client ?r) (Some ''ns'') (owner_fields ''data'' '''') ?w = (Inr [offline_pvca PreferInPlaceVolumeResizeStrategy], ?w)"
    by simp
  show ?thesis
    using evictions_complete [OF g, where pods = ?pods and pvcas = "[offline_pvca PreferInPlaceVolumeResizeStrategy]"
        and quote = id and w' = ?w and w'' = ?w] l
    by (simp add: start_state_def hard_error_def refused_def IsTooManyRequests_def IsNotFound_def pod_uses_def offline_required)
qed

end
