(* ===== verification/Pod_Webhook.thy ===== *)
theory Pod_Webhook
  imports Offline_Resize
begin

text \<open>
  The mutating webhook of \<^verbatim>\<open>internal/webhook/pod\<close>: a pod that is created while the volume of
  one of its claims waits for an offline resize gets the scheduling gate. The decoder of
  admission requests and the JSON encoder are not code of this repository; they are the
  parameters \<open>mt_decode\<close> and \<open>marshal\<close>, and the patch between the raw request and the
  encoded pod, which \<^verbatim>\<open>PatchResponseFromRaw\<close> computes, is represented by this pair.
\<close>

record ('q, 'w, 'req) mutator =
  mt_client :: "('q, 'w) client"
  mt_decode :: "'req \<Rightarrow> go_error + pod"
  mt_autoscalerName :: string

definition NewMutator :: "('q, 'w) client \<Rightarrow> ('req \<Rightarrow> go_error + pod) \<Rightarrow> string \<Rightarrow> ('q, 'w, 'req) mutator" where
  "NewMutator c decoder autoscalerName = \<lparr>mt_client = c, mt_decode = decoder, mt_autoscalerName = autoscalerName\<rparr>"

text \<open>The webhook server, by path: registering a handler.\<close>

definition webhookPath :: string where
  "webhookPath = ''/mutate--v1-pod''"

type_synonym ('q, 'w, 'req) webhook_server = "string \<rightharpoonup> ('q, 'w, 'req) mutator"

definition Mutator_SetupWebhookWithManager ::
  "('q, 'w, 'req) mutator \<Rightarrow> ('q, 'w, 'req) webhook_server \<Rightarrow> ('q, 'w, 'req) webhook_server \<times> go_error option" where
  "Mutator_SetupWebhookWithManager m server = (server(webhookPath \<mapsto> m), None)"

datatype ('raw, 'enc) admission_response =
    Errored int go_error
  | PatchResponseFromRaw 'raw 'enc

text \<open>The loop over the volumes of the pod.\<close>

fun gate_loop ::
  "(string \<Rightarrow> string) \<Rightarrow> ('q, 'w) client \<Rightarrow> string \<Rightarrow> string \<Rightarrow> volume list \<Rightarrow> ('q, 'w, bool) prog" where
  "gate_loop quote c autoscalerName ns [] = ret False"
| "gate_loop quote c autoscalerName ns (None # vs) = gate_loop quote c autoscalerName ns vs"
| "gate_loop quote c autoscalerName ns (Some claim # vs) = do {
     g \<leftarrow> api (Get_PVC c (ns, claim));
     case g of
       Inl err \<Rightarrow> gate_loop quote c autoscalerName ns vs
     | Inr p \<Rightarrow>
         if \<not> IsPersistentVolumeClaimConditionTrue p PVCControllerResizeError \<or>
            IsPersistentVolumeClaimConditionTrue p PVCFileSystemResizePending
         then gate_loop quote c autoscalerName ns vs
         else if \<not> IsOfflineResizeRequired p then gate_loop quote c autoscalerName ns vs
         else do {
           f \<leftarrow> FindOwningPVCAAndPolicy c quote autoscalerName (pvc_name p) (pvc_namespace p);
           case f of
             Inl err \<Rightarrow> gate_loop quote c autoscalerName ns vs
           | Inr (owner, policy) \<Rightarrow>
               if \<not> Option.is_none owner \<and> IsOfflineResizeEnabled owner policy then ret True
               else gate_loop quote c autoscalerName ns vs
         }
   }"

definition shouldGate :: "(string \<Rightarrow> string) \<Rightarrow> ('q, 'w, 'req) mutator \<Rightarrow> pod \<Rightarrow> ('q, 'w, bool) prog" where
  "shouldGate quote m pod = gate_loop quote (mt_client m) (mt_autoscalerName m) (pod_namespace pod) (pod_volumes pod)"

text \<open>
  \<open>raw\<close> gives the bytes of the object in the request; 500 is
  \<^verbatim>\<open>http.StatusInternalServerError\<close>.
\<close>

definition Handle ::
  "(string \<Rightarrow> string) \<Rightarrow> ('req \<Rightarrow> 'raw) \<Rightarrow> (pod \<Rightarrow> go_error + 'enc) \<Rightarrow> ('q, 'w, 'req) mutator \<Rightarrow> 'req \<Rightarrow>
    ('q, 'w, ('raw, 'enc) admission_response) prog" where
  "Handle quote raw marshal m req =
     (case mt_decode m req of
        Inl err \<Rightarrow> ret (Errored 500 err)
      | Inr pod \<Rightarrow> do {
          g \<leftarrow> shouldGate quote m pod;
          let pod' = (if g then AddSchedulingGate pod SchedulingGateOfflineResize else pod);
          ret (case marshal pod' of Inl err \<Rightarrow> Errored 500 err | Inr marshaled \<Rightarrow> PatchResponseFromRaw (raw req) marshaled)
        })"

section \<open>When a pod is gated\<close>

text \<open>
  Reads that do not change while the webhook runs: there is a set of worlds, left by no read,
  in which \<open>get\<close> answers for claims and \<open>lst\<close> for lists of autoscalers. \<open>waits_offline\<close>: the
  claim can be read, its resize needs the volume detached, and its autoscaler wants that.
\<close>

definition reads_as ::
  "('q, 'w) client \<Rightarrow> 'w set \<Rightarrow> (key \<Rightarrow> go_error + 'q pvc) \<Rightarrow> (string \<Rightarrow> (string \<times> string) list \<Rightarrow> go_error + 'q pvca list) \<Rightarrow> bool" where
  "reads_as c W get lst \<longleftrightarrow>
     (\<forall>w \<in> W. \<forall>k. \<exists>w' \<in> W. Get_PVC c k w = (get k, w')) \<and>
     (\<forall>w \<in> W. \<forall>ns fs. \<exists>w' \<in> W. List_PVCAs c (Some ns) fs w = (lst ns fs, w'))"

lemma reads_asD:
  assumes "reads_as c W get lst" "w \<in> W"
  shows "\<exists>w' \<in> W. Get_PVC c k w = (get k, w')" "\<exists>w' \<in> W. List_PVCAs c (Some ns) fs w = (lst ns fs, w')"
  using assms unfolding reads_as_def by blast+

definition waits_offline ::
  "(key \<Rightarrow> go_error + 'q pvc) \<Rightarrow> (string \<Rightarrow> (string \<times> string) list \<Rightarrow> go_error + 'q pvca list) \<Rightarrow>
    (string \<Rightarrow> string) \<Rightarrow> string \<Rightarrow> key \<Rightarrow> bool" where
  "waits_offline get lst quote autoscalerName k =
     (case get k of
        Inl _ \<Rightarrow> False
      | Inr p \<Rightarrow> held p \<and> IsOfflineResizeRequired p \<and>
          (case lst (pvc_namespace p) (owner_fields (pvc_name p) autoscalerName) of
             Inl _ \<Rightarrow> False | Inr pvcas \<Rightarrow> offline_enabled quote (pvc_name p) pvcas))"

lemma gate_loop_step:
  assumes "reads_as c W get lst" "world s \<in> W"
  shows "\<exists>w' \<in> W. run_state (gate_loop quote c n ns (Some claim # vs)) s =
    (if waits_offline get lst quote n (ns, claim) then (True, s\<lparr>world := w'\<rparr>)
     else run_state (gate_loop quote c n ns vs) (s\<lparr>world := w'\<rparr>))"
proof -
  obtain w1 where g: "Get_PVC c (ns, claim) (world s) = (get (ns, claim), w1)" and w1: "w1 \<in> W"
    using reads_asD(1) [OF assms] by blast
  show ?thesis
  proof (cases "get (ns, claim)")
    case (Inl err)
    with g w1 show ?thesis by (auto simp: run_bind run_api waits_offline_def)
  next
    case (Inr p)
    obtain w2 where l: "List_PVCAs c (Some (pvc_namespace p)) (owner_fields (pvc_name p) n) w1 =
        (lst (pvc_namespace p) (owner_fields (pvc_name p) n), w2)" and w2: "w2 \<in> W"
      using reads_asD(2) [OF assms(1) w1] by blast
    show ?thesis
    proof (cases "held p \<and> IsOfflineResizeRequired p")
      case False
      then show ?thesis using g Inr
        by (intro bexI [OF _ w1]) (auto simp: run_bind run_api waits_offline_def held_def)
    next
      case True
      then show ?thesis using g Inr l
        by (intro bexI [OF _ w2]) (auto dest: IsOfflineResizeEnabled_policy
            simp: run_bind run_api run_FindOwning waits_offline_def held_def
            offline_enabled_def State_Monad.run_state_return split: sum.split list.split option.splits)
    qed
  qed
qed

lemma gate_loop_run:
  assumes "reads_as c W get lst"
  shows "world s \<in> W \<Longrightarrow> \<exists>w' \<in> W. run_state (gate_loop quote c n ns vs) s =
    (\<exists>claim. Some claim \<in> set vs \<and> waits_offline get lst quote n (ns, claim), s\<lparr>world := w'\<rparr>)"
proof (induction vs arbitrary: s)
  case Nil
  then show ?case by (intro bexI [of _ "world s"]) (simp_all add: State_Monad.run_state_return)
next
  case (Cons v vs)
  show ?case
  proof (cases v)
    case None
    with Cons.IH [of s] Cons.prems show ?thesis by auto
  next
    case (Some claim)
    obtain w1 where step: "run_state (gate_loop quote c n ns (v # vs)) s =
      (if waits_offline get lst quote n (ns, claim) then (True, s\<lparr>world := w1\<rparr>)
       else run_state (gate_loop quote c n ns vs) (s\<lparr>world := w1\<rparr>))"
      and w1: "w1 \<in> W"
      using gate_loop_step [OF assms Cons.prems] Some by blast
    obtain w2 where "w2 \<in> W" "run_state (gate_loop quote c n ns vs) (s\<lparr>world := w1\<rparr>) =
      (\<exists>claim. Some claim \<in> set vs \<and> waits_offline get lst quote n (ns, claim), s\<lparr>world := w2\<rparr>)"
      using Cons.IH [of "s\<lparr>world := w1\<rparr>"] w1 by auto
    with step w1 Some show ?thesis by (cases "waits_offline get lst quote n (ns, claim)") auto
  qed
qed

lemma shouldGate_run:
  assumes "reads_as (mt_client m) W get lst" "world s \<in> W"
  shows "\<exists>w' \<in> W. run_state (shouldGate quote m pod) s =
    (\<exists>claim. Some claim \<in> set (pod_volumes pod) \<and>
       waits_offline get lst quote (mt_autoscalerName m) (pod_namespace pod, claim), s\<lparr>world := w'\<rparr>)"
  unfolding shouldGate_def by (rule gate_loop_run [OF assms])

text \<open>
  C18: The webhook gates exactly the right pods and never blocks one. It has no side effects. A
  request that cannot be decoded, or whose pod cannot be encoded, gets an error response with
  code 500; every other pod is answered with itself, with the offline-resize gate added
  (if it does not have it yet) exactly when one of its claims can be read, waits for an offline resize
  and has an autoscaler of the configured name that enables it. Claims that cannot be read
  and autoscalers that cannot be listed count as not waiting.
\<close>

theorem webhook_gates_iff:
  fixes m :: "('q, 'w, 'req) mutator"
  assumes "reads_as (mt_client m) W get lst" "world s \<in> W"
  shows "\<exists>s'. effects s' = effects s \<and> run_state (Handle quote raw marshal m req) s =
    (case mt_decode m req of
       Inl err \<Rightarrow> Errored 500 err
     | Inr pod \<Rightarrow>
         (case marshal (if \<exists>claim. Some claim \<in> set (pod_volumes pod) \<and>
               waits_offline get lst quote (mt_autoscalerName m) (pod_namespace pod, claim)
             then AddSchedulingGate pod SchedulingGateOfflineResize else pod) of
            Inl err \<Rightarrow> Errored 500 err
          | Inr enc \<Rightarrow> PatchResponseFromRaw (raw req) enc), s')"
proof (cases "mt_decode m req")
  case (Inl err)
  then show ?thesis by (auto simp: Handle_def State_Monad.run_state_return)
next
  case (Inr pod)
  obtain w' where "run_state (shouldGate quote m pod) s =
      (\<exists>claim. Some claim \<in> set (pod_volumes pod) \<and>
        waits_offline get lst quote (mt_autoscalerName m) (pod_namespace pod, claim), s\<lparr>world := w'\<rparr>)"
    using shouldGate_run [OF assms] by blast
  then show ?thesis
    by (intro exI [of _ "s\<lparr>world := w'\<rparr>"]) (simp add: Handle_def Inr run_bind Let_def State_Monad.run_state_return)
qed

text \<open>
  The reference server answers reads from its lists; in particular the assumption on the reads
  is met by each of its states.
\<close>

definition claim_of :: "'q cluster \<Rightarrow> key \<Rightarrow> 'q pvc option" where
  "claim_of w k = find (\<lambda>p. pvc_key p = k) (cl_pvcs w)"

lemma memory_get: "Get_PVC memory_client k w = (case claim_of w k of Some p \<Rightarrow> Inr p | None \<Rightarrow> Inl not_found, w)"
  by (simp add: claim_of_def)

lemma memory_reads:
  "reads_as memory_client {w} (\<lambda>k. case claim_of w k of Some p \<Rightarrow> Inr p | None \<Rightarrow> Inl not_found)
     (\<lambda>ns fs. fst (List_PVCAs memory_client (Some ns) fs w))"
  by (simp add: reads_as_def memory_get del: memory_client_simps(1))

definition memory_waits :: "(string \<Rightarrow> string) \<Rightarrow> string \<Rightarrow> 'q cluster \<Rightarrow> key \<Rightarrow> bool" where
  "memory_waits quote name w =
     waits_offline (\<lambda>k. case claim_of w k of Some p \<Rightarrow> Inr p | None \<Rightarrow> Inl not_found)
       (\<lambda>ns fs. fst (List_PVCAs memory_client (Some ns) fs w)) quote name"

lemma example_claim_of [simp]:
  "claim_of (offline_world st cs ps) (''ns'', ''data'') = Some (example_claim ''data'' cs)"
  "claim_of (offline_world st cs ps) (''ns'', ''logs'') = Some (example_claim ''logs'' [])"
  by (simp_all add: claim_of_def)

lemma example_waits [simp]:
  "memory_waits quote '''' (offline_world PreferInPlaceVolumeResizeStrategy [offline_error] ps) (''ns'', ''data'')"
  by (simp add: memory_waits_def waits_offline_def offline_required)

text \<open>The new pod of a claim that waits for its volume to be detached is gated.\<close>

theorem webhook_gates_iff_witness:
  "\<exists>s'. effects s' = [] \<and>
    run_state (Handle id id Inr (NewMutator memory_client Inr '''') (example_pod ''db-0'' [None, Some ''data'']))
      (start_state (offline_world PreferInPlaceVolumeResizeStrategy [offline_error] [])) =
    (PatchResponseFromRaw (example_pod ''db-0'' [None, Some ''data''])
       (AddSchedulingGate (example_pod ''db-0'' [None, Some ''data'']) SchedulingGateOfflineResize :: pod), s')"
proof -
  let ?m = "NewMutator memory_client Inr '''' :: (int, int cluster, pod) mutator"
  let ?w = "offline_world PreferInPlaceVolumeResizeStrategy [offline_error] []"
  have m: "mt_client ?m = memory_client" "mt_decode ?m = Inr" "mt_autoscalerName ?m = ''''"
    by (simp_all add: NewMutator_def)
  have r: "reads_as (mt_client ?m) W get lst \<longleftrightarrow> reads_as memory_client W get lst" for W get lst by (simp only: m)
  show ?thesis
    using webhook_gates_iff [OF iffD2 [OF r memory_reads [of ?w]], of "start_state ?w" id id Inr
        "example_pod ''db-0'' [None, Some ''data'']", folded memory_waits_def]
    by (simp add: m start_state_def)
qed

end
