(* ===== verification/Gate_Lifecycle.thy ===== *)
theory Gate_Lifecycle
  imports Pod_Webhook
begin

text \<open>
  The offline-resize controller, its watches and the pod webhook together: the webhook gates a
  pod exactly when the controller would evict it, and a step relation on the cluster and the
  work queue shows that a gate is not forgotten. The API server is the reference server of
  \<^verbatim>\<open>Example_Cluster\<close>. Two lemmas at the end show situations the program does not handle.
\<close>

section \<open>The webhook and the controller agree\<close>

lemma Reconcile_requeues_iff:
  assumes "reads_as (rc_client r) W get lst" "world s \<in> W"
  shows "fst (fst (run_state (Reconcile quote r k) s)) = (if waits_offline get lst quote (rc_autoscalerName r) k then 10 * 10 ^ 9 else 0)"
proof -
  obtain w1 where g: "Get_PVC (rc_client r) k (world s) = (get k, w1)" and w1: "w1 \<in> W"
    using reads_asD(1) [OF assms] by blast
  show ?thesis
  proof (cases "get k")
    case (Inl err)
    with g show ?thesis by (simp add: Reconcile_no_claim waits_offline_def)
  next
    case (Inr p)
    note g' = g [unfolded Inr]
    obtain w2 where l: "List_PVCAs (rc_client r) (Some (pvc_namespace p)) (owner_fields (pvc_name p) (rc_autoscalerName r)) w1 =
        (lst (pvc_namespace p) (owner_fields (pvc_name p) (rc_autoscalerName r)), w2)"
      using reads_asD(2) [OF assms(1) w1] by blast
    consider "\<not> held p" | "held p" "\<not> waits_offline get lst quote (rc_autoscalerName r) k"
      | "held p" "waits_offline get lst quote (rc_autoscalerName r) k" by blast
    then show ?thesis
    proof cases
      case 1
      then show ?thesis by (simp add: Reconcile_release [OF g' 1] waits_offline_def Inr split: prod.split)
    next
      case 2
      then have "\<exists>err. run_state (Reconcile quote r k) s = ((0, err), s\<lparr>world := w2\<rparr>)"
        by (intro Reconcile_idle [OF g' 2(1) l]) (auto simp: waits_offline_def Inr)
      with 2 show ?thesis by auto
    next
      case 3
      then obtain pvcas where p: "lst (pvc_namespace p) (owner_fields (pvc_name p) (rc_autoscalerName r)) = Inr pvcas"
          "offline_enabled quote (pvc_name p) pvcas" "IsOfflineResizeRequired p"
        by (auto simp: waits_offline_def Inr split: sum.splits)
      with 3 show ?thesis
        by (simp add: Reconcile_evict [OF g' 3(1) l [unfolded p(1)] p(2,3)] requeueDurationOnControllerResizeError_def split: prod.split)
    qed
  qed
qed

text \<open>
  C15: Webhook and controller agree. With the same client, the same autoscaler name and stable
  reads, the webhook gates a new pod exactly when reconciling one of its claims takes the
  eviction branch, the one that asks to be repeated after 10 seconds. So an evicted pod that is
  created again in the same situation is always held back, and no pod is held back for a claim
  whose pods the controller would leave alone.
\<close>

theorem webhook_controller_agree:
  fixes m :: "('q, 'w, 'req) mutator" and r :: "('q, 'w) reconciler"
  assumes "reads_as (rc_client r) W get lst" "world s \<in> W" "mt_client m = rc_client r" "mt_autoscalerName m = rc_autoscalerName r"
  shows "fst (run_state (shouldGate quote m pod) s) \<longleftrightarrow>
    (\<exists>k \<in> set (MapPodToPVCs (PodObject pod)). fst (fst (run_state (Reconcile quote r k) s)) = 10 * 10 ^ 9)"
proof -
  obtain w' where "run_state (shouldGate quote m pod) s =
      (\<exists>claim. Some claim \<in> set (pod_volumes pod) \<and>
        waits_offline get lst quote (rc_autoscalerName r) (pod_namespace pod, claim), s\<lparr>world := w'\<rparr>)"
    using shouldGate_run [of m W get lst s quote pod] assms by auto
  then show ?thesis by (auto simp: Reconcile_requeues_iff [OF assms(1,2)] MapPodToPVCs_set)
qed

text \<open>Both decide alike for the waiting claim of the example.\<close>

theorem webhook_controller_agree_witness:
  "fst (run_state (shouldGate id (NewMutator memory_client (Inr :: pod \<Rightarrow> _) '''') (example_pod ''db-0'' [Some ''data'']))
      (start_state (offline_world PreferInPlaceVolumeResizeStrategy [offline_error] []))) \<longleftrightarrow>
   fst (fst (run_state (Reconcile id example_reconciler (''ns'', ''data''))
      (start_state (offline_world PreferInPlaceVolumeResizeStrategy [offline_error] [])))) = 10 * 10 ^ 9"
proof -
  let ?w = "offline_world PreferInPlaceVolumeResizeStrategy [offline_error] []"
  show ?thesis
    using webhook_controller_agree [OF memory_reads [of ?w, folded example_reconciler_sel(1)], of "start_state ?w"
        "NewMutator memory_client (Inr :: pod \<Rightarrow> _) ''''" id "example_pod ''db-0'' [Some ''data'']"]
    by (simp add: NewMutator_def start_state_def MapPodToPVCs_set)
qed

section \<open>What a reconciliation changes in the cluster\<close>

text \<open>
  Programs that move the world along a preorder. The rules follow the structure of a program;
  the two instances are what the life cycle of the gate needs: no reconciliation changes a
  claim, and one that evicts only removes pods.
\<close>

definition moves :: "('w \<Rightarrow> 'w \<Rightarrow> bool) \<Rightarrow> ('q, 'w, 'a) prog \<Rightarrow> bool" where
  "moves R m \<longleftrightarrow> (\<forall>s. R (world s) (world (snd (run_state m s))))"

lemma movesD: "moves R m \<Longrightarrow> run_state m s = (x, s') \<Longrightarrow> R (world s) (world s')"
  unfolding moves_def by (metis snd_conv)

locale world_order =
  fixes R :: "'w \<Rightarrow> 'w \<Rightarrow> bool"
  assumes refl: "R w w" and trans: "R u v \<Longrightarrow> R v w \<Longrightarrow> R u w"
begin

lemma moves_ret: "moves R (ret x)"
  by (simp add: moves_def refl)

lemma moves_emit: "moves R (emit e)"
  by (simp add: moves_def run_emit refl)

lemma moves_api: "(\<And>w. R w (snd (f w))) \<Longrightarrow> moves R (api f)"
  by (simp add: moves_def run_api split: prod.split) (metis snd_conv)

lemma moves_bind: "moves R m \<Longrightarrow> (\<And>x. moves R (f x)) \<Longrightarrow> moves R (m \<bind> f)"
  unfolding moves_def run_bind by (auto split: prod.split) (metis snd_conv trans)

lemma moves_if: "moves R m \<Longrightarrow> moves R n \<Longrightarrow> moves R (if b then m else n)"
  by simp

lemma moves_sum: "(\<And>e. moves R (f e)) \<Longrightarrow> (\<And>y. moves R (g y)) \<Longrightarrow> moves R (case x of Inl e \<Rightarrow> f e | Inr y \<Rightarrow> g y)"
  by (cases x) auto

lemma moves_option: "moves R m \<Longrightarrow> (\<And>y. moves R (f y)) \<Longrightarrow> moves R (case x of None \<Rightarrow> m | Some y \<Rightarrow> f y)"
  by (cases x) auto

lemma moves_let: "moves R (f x) \<Longrightarrow> moves R (let y = x in f y)"
  by simp

lemma moves_pair: "(\<And>a b. moves R (f a b)) \<Longrightarrow> moves R (case x of (a, b) \<Rightarrow> f a b)"
  by (cases x) simp

lemmas moves = moves_ret moves_emit moves_bind moves_if moves_sum moves_option moves_let moves_pair

lemma moves_gates_loop:
  assumes "\<And>old new w. R w (snd (Patch_Pod c old new w))"
  shows "moves R (remove_gates_loop c p pods)"
proof (induction pods)
  case (Cons pod pods)
  show ?case unfolding remove_gates_loop.simps patch_pod_def
    by (intro moves moves_api assms Cons.IH)
qed (simp add: moves_ret)

lemma moves_evict_loop:
  assumes "\<And>pod w. R w (snd (Create_Eviction c pod w))"
  shows "moves R (evict_loop c p pods b)"
proof (induction pods arbitrary: b)
  case (Cons pod pods)
  show ?case unfolding evict_loop.simps evict_def create_eviction_def
    by (intro moves moves_api assms Cons.IH)
qed (simp add: moves_ret)

end

definition same_claims :: "'q cluster \<Rightarrow> 'q cluster \<Rightarrow> bool" where
  "same_claims w w' \<longleftrightarrow> cl_pvcs w' = cl_pvcs w"

definition fewer_pods :: "'q cluster \<Rightarrow> 'q cluster \<Rightarrow> bool" where
  "fewer_pods w w' \<longleftrightarrow> cl_pvcs w' = cl_pvcs w \<and> (\<exists>f. cl_pods w' = filter f (cl_pods w))"

interpretation claims: world_order same_claims
  by unfold_locales (simp_all add: same_claims_def)

interpretation fewer: world_order fewer_pods
proof unfold_locales
  show "fewer_pods w w" for w :: "'q cluster"
    by (auto simp: fewer_pods_def intro: exI [of _ "\<lambda>_. True"])
  show "fewer_pods u w" if "fewer_pods u v" "fewer_pods v w" for u v w :: "'q cluster"
    using that by (auto simp: fewer_pods_def)
qed

lemma claims_remove_gates_loop: "moves same_claims (remove_gates_loop memory_client p pods)"
  by (rule claims.moves_gates_loop) (simp add: same_claims_def)

lemma fewer_evict_loop: "moves fewer_pods (evict_loop memory_client p pods b)"
  by (rule fewer.moves_evict_loop) (auto simp: fewer_pods_def intro: exI [of _ "\<lambda>_. True"])

lemma run_memory_evict:
  assumes "run_state (evictPodsUsingPVC memory_client p) s = (x, s')"
  shows "fewer_pods (world s) (world s')"
proof -
  have "fewer_pods w (snd (List_Pods memory_client ns sel w))" for w :: "'a cluster" and ns sel
    by (simp add: fewer.refl)
  then have "moves fewer_pods (evictPodsUsingPVC memory_client p)"
    unfolding evictPodsUsingPVC_def podsUsingPVC_def
    by (intro fewer.moves fewer.moves_api fewer_evict_loop)
  from movesD [OF this assms] show ?thesis .
qed

lemma run_memory_release:
  assumes "run_state (removeSchedulingGates memory_client p) s = (x, s')"
  shows "cl_pvcs (world s') = cl_pvcs (world s)"
proof -
  have "moves same_claims (removeSchedulingGates memory_client p)"
    unfolding removeSchedulingGates_def podsUsingPVC_def
    by (intro claims.moves claims.moves_api claims_remove_gates_loop) (simp add: same_claims_def)
  from movesD [OF this assms] show ?thesis by (simp add: same_claims_def)
qed

text \<open>The three outcomes of a reconciliation on the reference server.\<close>

definition memory_reconciler :: "string \<Rightarrow> ('q, 'q cluster) reconciler" where
  "memory_reconciler n = \<lparr>rc_client = memory_client, rc_autoscalerName = n\<rparr>"

lemma memory_reconciler_sel [simp]:
  "rc_client (memory_reconciler n) = memory_client" "rc_autoscalerName (memory_reconciler n) = n"
  by (simp_all add: memory_reconciler_def)

lemma claim_of_key: "claim_of w k = Some p \<Longrightarrow> pvc_key p = k"
  by (auto simp: claim_of_def find_Some_iff)

lemma reconcile_keeps:
  fixes s :: "('q, 'q cluster) rstate"
  assumes "run_state (Reconcile quote (memory_reconciler n) k) s = (r, s')"
    and "claim_of (world s) k = None \<or> (\<exists>p. claim_of (world s) k = Some p \<and> held p)"
  shows "fewer_pods (world s) (world s')"
  using assms(2)
proof (elim disjE exE conjE)
  assume "claim_of (world s) k = None"
  then have "Get_PVC (rc_client (memory_reconciler n)) k (world s) = (Inl not_found, world s)"
    by (simp add: memory_get del: memory_client_simps)
  from Reconcile_no_claim [OF this, of quote] assms(1) show ?thesis by (auto simp: fewer.refl)
next
  fix p assume p: "claim_of (world s) k = Some p" "held p"
  then have g: "Get_PVC (rc_client (memory_reconciler n)) k (world s) = (Inr p, world s)"
    by (simp add: memory_get del: memory_client_simps)
  obtain l w' where l: "List_PVCAs (rc_client (memory_reconciler n)) (Some (pvc_namespace p))
      (owner_fields (pvc_name p) (rc_autoscalerName (memory_reconciler n :: ('q, 'q cluster) reconciler))) (world s) = (l, w')" and w': "w' = world s"
    by simp
  show ?thesis
  proof (cases "\<exists>pvcas. l = Inr pvcas \<and> offline_enabled quote (pvc_name p) pvcas \<and> IsOfflineResizeRequired p")
    case True
    then obtain pvcas where e: "l = Inr pvcas" "offline_enabled quote (pvc_name p) pvcas" "IsOfflineResizeRequired p" by blast
    show ?thesis
      using Reconcile_evict [OF g p(2) l [unfolded e(1)] e(2,3)] assms(1) run_memory_evict w'
      by (fastforce split: prod.splits)
  next
    case False
    then show ?thesis using Reconcile_idle [OF g p(2) l False] assms(1) w' by (auto simp: fewer.refl)
  qed
qed

lemma reconcile_releases:
  assumes "claim_of (world s) (ns, n) = Some p" "\<not> held p" "distinct (map pod_key (cl_pods (world s)))"
  shows "\<exists>s'. run_state (Reconcile quote (memory_reconciler name) (ns, n)) s = ((0, None), s') \<and>
    cl_pvcs (world s') = cl_pvcs (world s) \<and>
    cl_pods (world s') = map (\<lambda>pod. if pod_namespace pod = ns \<and> Some n \<in> set (pod_volumes pod)
      then RemoveSchedulingGate pod SchedulingGateOfflineResize else pod) (cl_pods (world s))"
proof -
  have st: "stores_pods (rc_client (memory_reconciler name)) cl_pods" by (simp add: memory_client_stores)
  have g: "Get_PVC (rc_client (memory_reconciler name)) (ns, n) (world s) = (Inr p, world s)"
    using assms(1) by (simp add: memory_get del: memory_client_simps)
  obtain s' where s': "run_state (Reconcile quote (memory_reconciler name) (ns, n)) s = ((0, None), s')"
      "cl_pods (world s') = map (\<lambda>pod. if pod_namespace pod = ns \<and> Some n \<in> set (pod_volumes pod)
        then RemoveSchedulingGate pod SchedulingGateOfflineResize else pod) (cl_pods (world s))"
    using Reconcile_releases [OF st g claim_of_key [OF assms(1)] assms(2,3), of quote] by blast
  have "cl_pvcs (world s') = cl_pvcs (world s)"
    using s'(1) Reconcile_release [OF g assms(2), of quote] run_memory_release
    by (fastforce split: prod.splits)
  with s' show ?thesis by blast
qed

section \<open>The life cycle of the gate\<close>

text \<open>
  Webhook, watches and controller together: the cluster and the work queue of the controller (a
  set, since it drops duplicates). Pods are created through the webhook, claims and autoscalers
  change and disappear, and the controller takes any queued claim; it puts the claim back when
  \<open>Reconcile\<close> asks for it or fails. The event of every change goes through the watches. A claim
  may change in every way but one: the resize of a claim that holds its pods back ends with a
  pending filesystem resize (and keeps the annotation).
\<close>

record 'q gate_system =
  gs_cluster :: "'q cluster"
  gs_queue :: "key set"

definition after_reconcile :: "key \<Rightarrow> int \<times> go_error option \<Rightarrow> key set \<Rightarrow> key set" where
  "after_reconcile k res q = (if fst res > 0 \<or> snd res \<noteq> None then insert k q else q - {k})"

inductive gate_step ::
  "(string \<Rightarrow> string) \<Rightarrow> ('q VolumePolicy list \<Rightarrow> 'q VolumePolicy list \<Rightarrow> bool) \<Rightarrow> string \<Rightarrow>
    'q gate_system \<Rightarrow> 'q gate_system \<Rightarrow> bool"
  for quote :: "string \<Rightarrow> string" and deepEqual :: "'q VolumePolicy list \<Rightarrow> 'q VolumePolicy list \<Rightarrow> bool" and name :: string
where
  create_pod:
  "gate_step quote deepEqual name \<lparr>gs_cluster = w, gs_queue = q\<rparr>
     \<lparr>gs_cluster = w\<lparr>cl_pods := cl_pods w @ [pod']\<rparr>,
      gs_queue = q \<union> set (SetupWithManager deepEqual (CreateEvent (PodObject pod')))\<rparr>"
  if "pod_key pod \<notin> pod_key ` set (cl_pods w)" "\<not> HasSchedulingGate pod SchedulingGateOfflineResize"
    "fst (run_state (Handle quote id Inr (NewMutator memory_client Inr name) pod) (start_state w)) =
      PatchResponseFromRaw pod pod'"
| delete_pod:
  "gate_step quote deepEqual name \<lparr>gs_cluster = w, gs_queue = q\<rparr>
     \<lparr>gs_cluster = w\<lparr>cl_pods := filter (\<lambda>p. pod_key p \<noteq> k) (cl_pods w)\<rparr>, gs_queue = q\<rparr>"
| update_claim:
  "gate_step quote deepEqual name \<lparr>gs_cluster = w, gs_queue = q\<rparr>
     \<lparr>gs_cluster = w\<lparr>cl_pvcs := replace pvc_key p' (cl_pvcs w)\<rparr>,
      gs_queue = q \<union> set (SetupWithManager deepEqual (UpdateEvent (PVCObject p) (PVCObject p')))\<rparr>"
  if "claim_of w (pvc_key p') = Some p"
    "held p \<longrightarrow> held p' \<or> annotated p' \<and> IsPersistentVolumeClaimConditionTrue p' PVCFileSystemResizePending"
| delete_claim:
  "gate_step quote deepEqual name \<lparr>gs_cluster = w, gs_queue = q\<rparr>
     \<lparr>gs_cluster = w\<lparr>cl_pvcs := filter (\<lambda>p. pvc_key p \<noteq> k) (cl_pvcs w)\<rparr>, gs_queue = q\<rparr>"
| update_pvca:
  "gate_step quote deepEqual name \<lparr>gs_cluster = w, gs_queue = q\<rparr>
     \<lparr>gs_cluster = w\<lparr>cl_pvcas := replace pvca_key a' (cl_pvcas w)\<rparr>,
      gs_queue = q \<union> set (SetupWithManager deepEqual (UpdateEvent (PVCAObject a) (PVCAObject a')))\<rparr>"
  if "a \<in> set (cl_pvcas w)" "pvca_key a = pvca_key a'"
| reconcile:
  "gate_step quote deepEqual name \<lparr>gs_cluster = w, gs_queue = q\<rparr>
     \<lparr>gs_cluster = world s', gs_queue = after_reconcile k res q\<rparr>"
  if "k \<in> q" "run_state (Reconcile quote (memory_reconciler name) k) (start_state w) = (res, s')"

inductive_cases gate_stepE: "gate_step quote deepEqual name x y"

text \<open>
  A gated pod is not forgotten: one of its claims is missing, holds it back, or is queued.
\<close>

definition remembered :: "'q cluster \<Rightarrow> key set \<Rightarrow> pod \<Rightarrow> bool" where
  "remembered w q pod \<longleftrightarrow>
     (\<exists>n. Some n \<in> set (pod_volumes pod) \<and>
        (case claim_of w (pod_namespace pod, n) of
           None \<Rightarrow> True | Some p \<Rightarrow> held p \<or> (pod_namespace pod, n) \<in> q))"

definition gate_inv :: "'q gate_system \<Rightarrow> bool" where
  "gate_inv x \<longleftrightarrow> distinct (map pod_key (cl_pods (gs_cluster x))) \<and>
     (\<forall>pod \<in> set (cl_pods (gs_cluster x)). HasSchedulingGate pod SchedulingGateOfflineResize \<longrightarrow>
        remembered (gs_cluster x) (gs_queue x) pod)"

lemma gate_invD:
  assumes "gate_inv x"
  shows "distinct (map pod_key (cl_pods (gs_cluster x)))"
    and "pod \<in> set (cl_pods (gs_cluster x)) \<Longrightarrow> HasSchedulingGate pod SchedulingGateOfflineResize \<Longrightarrow>
      remembered (gs_cluster x) (gs_queue x) pod"
  using assms unfolding gate_inv_def by blast+

text \<open>A pod stays remembered when no claim it is remembered by is lost.\<close>

lemma remembered_mono:
  assumes "remembered w q pod"
    and "\<And>n p'. Some n \<in> set (pod_volumes pod) \<Longrightarrow> claim_of w' (pod_namespace pod, n) = Some p' \<Longrightarrow> \<not> held p' \<Longrightarrow>
      claim_of w (pod_namespace pod, n) = None \<or> (\<exists>p. claim_of w (pod_namespace pod, n) = Some p \<and> held p) \<or>
      (pod_namespace pod, n) \<in> q \<Longrightarrow> (pod_namespace pod, n) \<in> q'"
  shows "remembered w' q' pod"
proof -
  obtain n where n: "Some n \<in> set (pod_volumes pod)" and
    c: "case claim_of w (pod_namespace pod, n) of None \<Rightarrow> True | Some p \<Rightarrow> held p \<or> (pod_namespace pod, n) \<in> q"
    using assms(1) unfolding remembered_def by blast
  then have "claim_of w (pod_namespace pod, n) = None \<or> (\<exists>p. claim_of w (pod_namespace pod, n) = Some p \<and> held p) \<or>
      (pod_namespace pod, n) \<in> q" by (auto split: option.splits)
  then show ?thesis using n assms(2) [OF n] unfolding remembered_def by (fastforce split: option.split)
qed

lemma claim_of_update:
  "claim_of (w\<lparr>cl_pvcs := replace pvc_key p' (cl_pvcs w)\<rparr>) k =
     (if k = pvc_key p' then map_option (\<lambda>_. p') (claim_of w k) else claim_of w k)"
proof -
  have "find (\<lambda>p. pvc_key p = k) (replace pvc_key p' ps) =
      (if k = pvc_key p' then map_option (\<lambda>_. p') (find (\<lambda>p. pvc_key p = k) ps) else find (\<lambda>p. pvc_key p = k) ps)" for ps
    by (induction ps) (auto simp: replace_def)
  then show ?thesis by (simp add: claim_of_def)
qed

lemma claim_of_delete:
  "claim_of (w\<lparr>cl_pvcs := filter (\<lambda>p. pvc_key p \<noteq> k) (cl_pvcs w)\<rparr>) k' = (if k' = k then None else claim_of w k')"
proof -
  have "find (\<lambda>p. pvc_key p = k') (filter (\<lambda>p. pvc_key p \<noteq> k) ps) =
      (if k' = k then None else find (\<lambda>p. pvc_key p = k') ps)" for ps :: "'a pvc list"
    by (induction ps) auto
  then show ?thesis by (simp add: claim_of_def)
qed

lemma claim_of_same [simp]:
  "claim_of (w\<lparr>cl_pods := ps\<rparr>) = claim_of w" "claim_of (w\<lparr>cl_pvcas := as\<rparr>) = claim_of w"
  by (simp_all add: claim_of_def fun_eq_iff)

lemma claim_of_cong: "cl_pvcs w = cl_pvcs w' \<Longrightarrow> claim_of w = claim_of w'"
  by (simp add: claim_of_def fun_eq_iff)

text \<open>The pod the webhook lets in: gated only if a claim of it holds it back.\<close>

lemma memory_webhook:
  fixes w :: "'q cluster"
  shows "fst (run_state (Handle quote id Inr (NewMutator memory_client Inr name) pod) (start_state w)) =
    PatchResponseFromRaw pod
      (if \<exists>n. Some n \<in> set (pod_volumes pod) \<and> memory_waits quote name w (pod_namespace pod, n)
       then AddSchedulingGate pod SchedulingGateOfflineResize else pod)"
proof -
  let ?m = "NewMutator memory_client Inr name :: ('q, 'q cluster, pod) mutator"
  obtain w' where "run_state (shouldGate quote ?m pod) (start_state w) =
      (\<exists>n. Some n \<in> set (pod_volumes pod) \<and> memory_waits quote name w (pod_namespace pod, n), (start_state w)\<lparr>world := w'\<rparr>)"
    using shouldGate_run [of ?m "{w}" _ _ "start_state w" quote pod] memory_reads [of w]
    unfolding memory_waits_def by (auto simp: NewMutator_def start_state_def)
  then show ?thesis
    by (simp add: Handle_def NewMutator_def run_bind State_Monad.run_state_return Let_def)
qed

lemma created_pod:
  assumes "fst (run_state (Handle quote id Inr (NewMutator memory_client Inr name) pod) (start_state w)) =
      PatchResponseFromRaw pod pod'" "\<not> HasSchedulingGate pod SchedulingGateOfflineResize"
  shows "pod_key pod' = pod_key pod"
    and "HasSchedulingGate pod' SchedulingGateOfflineResize \<Longrightarrow>
      \<exists>n p. Some n \<in> set (pod_volumes pod') \<and> claim_of w (pod_namespace pod', n) = Some p \<and> held p"
proof -
  let ?g = "\<exists>n. Some n \<in> set (pod_volumes pod) \<and> memory_waits quote name w (pod_namespace pod, n)"
  have pod': "pod' = (if ?g then AddSchedulingGate pod SchedulingGateOfflineResize else pod)"
    using assms(1) unfolding memory_webhook by simp
  show "pod_key pod' = pod_key pod"
    unfolding pod' by (simp add: AddSchedulingGate_def pod_key_def)
  assume gated: "HasSchedulingGate pod' SchedulingGateOfflineResize"
  have "?g" using gated assms(2) pod' by (cases ?g) simp_all
  then obtain n p where "Some n \<in> set (pod_volumes pod)" "claim_of w (pod_namespace pod, n) = Some p" "held p"
    unfolding memory_waits_def waits_offline_def by (auto split: option.splits)
  moreover have "pod_volumes pod' = pod_volumes pod" "pod_namespace pod' = pod_namespace pod"
    unfolding pod' by (simp_all add: AddSchedulingGate_def)
  ultimately show "\<exists>n p. Some n \<in> set (pod_volumes pod') \<and> claim_of w (pod_namespace pod', n) = Some p \<and> held p"
    by auto
qed

lemma inv_shrink:
  assumes "gate_inv \<lparr>gs_cluster = w, gs_queue = q\<rparr>" "cl_pods w' = filter f (cl_pods w)"
    and "\<And>k. claim_of w' k = claim_of w k \<or> claim_of w' k = None"
    and "\<And>k p. k \<in> q \<Longrightarrow> claim_of w' k = Some p \<Longrightarrow> \<not> held p \<Longrightarrow> k \<in> q'"
  shows "gate_inv \<lparr>gs_cluster = w', gs_queue = q'\<rparr>"
proof -
  have "remembered w' q' pod" if "remembered w q pod" for pod
  proof (rule remembered_mono [OF that])
    fix n p' assume *: "claim_of w' (pod_namespace pod, n) = Some p'" "\<not> held p'"
      "claim_of w (pod_namespace pod, n) = None \<or> (\<exists>p. claim_of w (pod_namespace pod, n) = Some p \<and> held p) \<or> (pod_namespace pod, n) \<in> q"
    from assms(3) [of "(pod_namespace pod, n)"] * have "(pod_namespace pod, n) \<in> q" by auto
    from assms(4) [OF this *(1,2)] show "(pod_namespace pod, n) \<in> q'" .
  qed
  with gate_invD [OF assms(1)] show ?thesis
    unfolding gate_inv_def by (auto simp: assms(2) distinct_map_filter)
qed

lemma inv_create:
  assumes "gate_inv \<lparr>gs_cluster = w, gs_queue = q\<rparr>" "pod_key pod' \<notin> pod_key ` set (cl_pods w)"
    and "HasSchedulingGate pod' SchedulingGateOfflineResize \<Longrightarrow>
      \<exists>n p. Some n \<in> set (pod_volumes pod') \<and> claim_of w (pod_namespace pod', n) = Some p \<and> held p"
    and "q \<subseteq> q'"
  shows "gate_inv \<lparr>gs_cluster = w\<lparr>cl_pods := cl_pods w @ [pod']\<rparr>, gs_queue = q'\<rparr>"
proof -
  have "remembered (w\<lparr>cl_pods := ps\<rparr>) q' pod" if "remembered w q pod" for pod ps
    by (rule remembered_mono [OF that]) (use assms(4) in auto)
  moreover have "remembered (w\<lparr>cl_pods := ps\<rparr>) q' pod'" if "HasSchedulingGate pod' SchedulingGateOfflineResize" for ps
    using assms(3) [OF that] unfolding remembered_def by fastforce
  ultimately show ?thesis
    using gate_invD [OF assms(1)] assms(2) unfolding gate_inv_def by auto
qed

lemma inv_update_claim:
  assumes "gate_inv \<lparr>gs_cluster = w, gs_queue = q\<rparr>" "claim_of w (pvc_key p') = Some p" "q \<subseteq> q'"
    and "held p \<Longrightarrow> \<not> held p' \<Longrightarrow> pvc_key p' \<in> q'"
  shows "gate_inv \<lparr>gs_cluster = w\<lparr>cl_pvcs := replace pvc_key p' (cl_pvcs w)\<rparr>, gs_queue = q'\<rparr>"
proof -
  have "remembered (w\<lparr>cl_pvcs := replace pvc_key p' (cl_pvcs w)\<rparr>) q' pod" if "remembered w q pod" for pod
    by (rule remembered_mono [OF that]) (use assms(2-4) in \<open>auto simp: claim_of_update split: if_splits\<close>)
  with gate_invD [OF assms(1)] show ?thesis unfolding gate_inv_def by auto
qed

lemma inv_release:
  assumes "gate_inv \<lparr>gs_cluster = w, gs_queue = q\<rparr>" "cl_pvcs w' = cl_pvcs w"
    and "cl_pods w' = map (\<lambda>pod. if pod_namespace pod = ns \<and> Some n \<in> set (pod_volumes pod)
      then RemoveSchedulingGate pod SchedulingGateOfflineResize else pod) (cl_pods w)"
  shows "gate_inv \<lparr>gs_cluster = w', gs_queue = q - {(ns, n)}\<rparr>"
proof -
  have keys: "map pod_key (cl_pods w') = map pod_key (cl_pods w)" by (simp add: assms(3))
  have "remembered w' (q - {(ns, n)}) pod'"
    if pod': "pod' \<in> set (cl_pods w')" "HasSchedulingGate pod' SchedulingGateOfflineResize" for pod'
  proof -
    from pod'(1) obtain pod where p: "pod \<in> set (cl_pods w)" "pod' = (if pod_namespace pod = ns \<and> Some n \<in> set (pod_volumes pod)
      then RemoveSchedulingGate pod SchedulingGateOfflineResize else pod)" unfolding assms(3) by auto
    with pod'(2) have kept: "\<not> (pod_namespace pod = ns \<and> Some n \<in> set (pod_volumes pod))" "pod' = pod"
      by (auto simp: gates.has_remove split: if_splits)
    have "remembered w q pod" using gate_invD(2) [OF assms(1)] p(1) pod'(2) kept(2) by simp
    then show ?thesis unfolding kept(2)
      by (rule remembered_mono) (use kept(1) claim_of_cong [OF assms(2)] in auto)
  qed
  with gate_invD(1) [OF assms(1)] keys show ?thesis unfolding gate_inv_def by simp
qed

lemma queue_grows: "gate_inv \<lparr>gs_cluster = w, gs_queue = q\<rparr> \<Longrightarrow> cl_pvcs w' = cl_pvcs w \<Longrightarrow> cl_pods w' = cl_pods w \<Longrightarrow>
    q \<subseteq> q' \<Longrightarrow> gate_inv \<lparr>gs_cluster = w', gs_queue = q'\<rparr>"
  by (erule inv_shrink [where f = "\<lambda>_. True"]) (auto simp: claim_of_def)

lemma inv_reconcile:
  fixes w :: "'q cluster"
  assumes "gate_inv \<lparr>gs_cluster = w, gs_queue = q\<rparr>"
    and run: "run_state (Reconcile quote (memory_reconciler name) k) (start_state w) = (res, s')"
  shows "gate_inv \<lparr>gs_cluster = world s', gs_queue = after_reconcile k res q\<rparr>"
proof (cases "claim_of w k = None \<or> (\<exists>p. claim_of w k = Some p \<and> held p)")
  case True
  then have fewer: "fewer_pods w (world s')" using reconcile_keeps [OF run] by (simp add: start_state_def)
  then obtain f where f: "cl_pods (world s') = filter f (cl_pods w)" and same: "claim_of (world s') = claim_of w"
    by (auto simp: fewer_pods_def dest: claim_of_cong)
  show ?thesis
    by (rule inv_shrink [OF assms(1) f]) (use True in \<open>auto simp: same after_reconcile_def\<close>)
next
  case False
  then obtain p ns n where p: "claim_of w k = Some p" "\<not> held p" "k = (ns, n)" by (cases k) auto
  obtain s1 where s1: "run_state (Reconcile quote (memory_reconciler name) (ns, n)) (start_state w) = ((0, None), s1)"
      "cl_pvcs (world s1) = cl_pvcs w"
      "cl_pods (world s1) = map (\<lambda>pod. if pod_namespace pod = ns \<and> Some n \<in> set (pod_volumes pod)
        then RemoveSchedulingGate pod SchedulingGateOfflineResize else pod) (cl_pods w)"
    using reconcile_releases [of "start_state w" ns n p quote name] p gate_invD(1) [OF assms(1)]
    by (auto simp: start_state_def)
  with run p(3) have "res = (0, None)" "s' = s1" by auto
  with inv_release [OF assms(1) s1(2,3)] p(3) show ?thesis by (simp add: after_reconcile_def)
qed

lemma gate_step_inv:
  assumes "gate_step quote deepEqual name x y" "gate_inv x"
  shows "gate_inv y"
  using assms
proof (induction rule: gate_step.induct)
  case (create_pod pod w pod' q)
  note new = created_pod [OF create_pod(3,2)]
  show ?case by (rule inv_create [OF create_pod(4)]) (use create_pod(1) new in auto)
next
  case (delete_pod w q k)
  then show ?case by (rule inv_shrink [where f = "\<lambda>p. pod_key p \<noteq> k"]) auto
next
  case (update_claim w p' p q)
  show ?case
    by (rule inv_update_claim [OF update_claim(3,1)])
      (use update_claim(2) in \<open>auto simp: SetupWithManager_def PVC_filter_iff\<close>)
next
  case (delete_claim w q k)
  then show ?case by (rule inv_shrink [where f = "\<lambda>_. True"]) (auto simp: claim_of_delete)
next
  case (update_pvca a w a' q)
  show ?case by (rule queue_grows [OF update_pvca(3)]) auto
next
  case (reconcile k q w res s')
  then show ?case by (intro inv_reconcile)
qed

definition gate_start :: "'q gate_system \<Rightarrow> bool" where
  "gate_start x \<longleftrightarrow> distinct (map pod_key (cl_pods (gs_cluster x))) \<and>
     (\<forall>pod \<in> set (cl_pods (gs_cluster x)). \<not> HasSchedulingGate pod SchedulingGateOfflineResize)"

lemma gate_start_inv: "gate_start x \<Longrightarrow> gate_inv x"
  by (simp add: gate_start_def gate_inv_def)

lemma reachable_inv:
  assumes "(gate_step quote deepEqual name)\<^sup>*\<^sup>* x y" "gate_start x"
  shows "gate_inv y"
  using assms by (induction rule: rtranclp_induct) (auto intro: gate_step_inv gate_start_inv)

text \<open>
  C4: No gate is forgotten. From a cluster without gated pods, after any interleaving of pod
  creations through the webhook, changes of claims and autoscalers and reconciliations, as long
  as a failing resize ends with a pending filesystem resize: a gated pod whose claims all exist
  and none of which holds it back has a claim in the work queue, and reconciling that claim
  removes the gate from the pod.
\<close>

theorem gated_pod_freed:
  fixes x y :: "'q gate_system"
  assumes "gate_start x" "(gate_step quote deepEqual name)\<^sup>*\<^sup>* x y"
    and "pod \<in> set (cl_pods (gs_cluster y))" "HasSchedulingGate pod SchedulingGateOfflineResize"
    and "\<forall>n. Some n \<in> set (pod_volumes pod) \<longrightarrow> (\<exists>p. claim_of (gs_cluster y) (pod_namespace pod, n) = Some p \<and> \<not> held p)"
  shows "\<exists>k z. k \<in> gs_queue y \<and> gate_step quote deepEqual name y z \<and> gs_queue z = gs_queue y - {k} \<and>
    RemoveSchedulingGate pod SchedulingGateOfflineResize \<in> set (cl_pods (gs_cluster z))"
proof -
  let ?w = "gs_cluster y"
  have inv: "gate_inv y" by (rule reachable_inv [OF assms(2,1)])
  obtain n p where n: "Some n \<in> set (pod_volumes pod)" "claim_of ?w (pod_namespace pod, n) = Some p" "\<not> held p"
      "(pod_namespace pod, n) \<in> gs_queue y"
    using gate_invD(2) [OF inv assms(3,4)] assms(5) unfolding remembered_def by fastforce
  let ?k = "(pod_namespace pod, n)"
  obtain s' where s': "run_state (Reconcile quote (memory_reconciler name) ?k) (start_state ?w) = ((0, None), s')"
      "cl_pods (world s') = map (\<lambda>q. if pod_namespace q = pod_namespace pod \<and> Some n \<in> set (pod_volumes q)
        then RemoveSchedulingGate q SchedulingGateOfflineResize else q) (cl_pods ?w)"
    using reconcile_releases [of "start_state ?w" "pod_namespace pod" n p quote name] n(2,3) gate_invD(1) [OF inv]
    by (auto simp: start_state_def)
  have "gate_step quote deepEqual name y \<lparr>gs_cluster = world s', gs_queue = after_reconcile ?k (0, None) (gs_queue y)\<rparr>"
    using gate_step.reconcile [OF n(4) s'(1), of deepEqual] by (cases y) simp
  moreover have "RemoveSchedulingGate pod SchedulingGateOfflineResize \<in> set (cl_pods (world s'))"
    unfolding s'(2) set_map by (rule image_eqI [OF _ assms(3)]) (use n(1) in simp)
  ultimately show ?thesis using n(4) by (fastforce simp: after_reconcile_def)
qed

definition resize_pending :: pvc_condition where
  "resize_pending = \<lparr>pc_type = PVCFileSystemResizePending, pc_status = ConditionTrue, pc_message = ''''\<rparr>"

lemma example_conditions [simp]:
  "IsPersistentVolumeClaimConditionTrue (example_claim n [resize_pending]) PVCFileSystemResizePending"
  "\<not> held (example_claim n [resize_pending])" "annotated (example_claim n cs)"
  by (simp_all add: held_def pvc_condition_defs resize_pending_def annotated_def)

lemma example_world_update [simp]:
  "(offline_world st cs ps)\<lparr>cl_pods := qs\<rparr> = offline_world st cs qs"
  "(offline_world st cs ps)\<lparr>cl_pvcs := replace pvc_key (example_claim ''data'' ds) [example_claim ''data'' cs, example_claim ''logs'' []]\<rparr>
     = offline_world st ds ps"
  by (simp_all add: offline_world_def replace_def)

lemma example_not_gated [simp]: "\<not> HasSchedulingGate (example_pod n vs) g"
  by (simp add: HasSchedulingGate_def)

theorem gated_pod_freed_witness:
  "\<exists>y k z. (gate_step id (=) '''')\<^sup>*\<^sup>*
      \<lparr>gs_cluster = offline_world PreferInPlaceVolumeResizeStrategy [offline_error] [], gs_queue = {}\<rparr> y \<and>
     k \<in> gs_queue y \<and> gate_step id (=) '''' y z \<and>
     RemoveSchedulingGate (AddSchedulingGate (example_pod ''db-0'' [Some ''data'']) SchedulingGateOfflineResize) SchedulingGateOfflineResize
       \<in> set (cl_pods (gs_cluster z))"
proof -
  let ?pod = "example_pod ''db-0'' [Some ''data'']"
  let ?gated = "AddSchedulingGate ?pod SchedulingGateOfflineResize"
  let ?x0 = "\<lparr>gs_cluster = offline_world PreferInPlaceVolumeResizeStrategy [offline_error] [], gs_queue = {}\<rparr>"
  let ?q1 = "{} \<union> set (SetupWithManager ((=) :: int VolumePolicy list \<Rightarrow> _) (CreateEvent (PodObject ?gated)))"
  let ?x1 = "\<lparr>gs_cluster = offline_world PreferInPlaceVolumeResizeStrategy [offline_error] [?gated], gs_queue = ?q1\<rparr>"
  let ?q2 = "?q1 \<union> set (SetupWithManager ((=) :: int VolumePolicy list \<Rightarrow> _) (UpdateEvent (PVCObject (example_claim ''data'' [offline_error])) (PVCObject (example_claim ''data'' [resize_pending]))))"
  let ?x2 = "\<lparr>gs_cluster = offline_world PreferInPlaceVolumeResizeStrategy [resize_pending] [?gated], gs_queue = ?q2\<rparr>"
  have s1: "gate_step id (=) '''' ?x0 ?x1"
    using gate_step.create_pod [of ?pod "offline_world PreferInPlaceVolumeResizeStrategy [offline_error] []" id "''''" ?gated "(=)" "{}"]
    by (simp add: memory_webhook)
  have s2: "gate_step id (=) '''' ?x1 ?x2"
    using gate_step.update_claim [of "offline_world PreferInPlaceVolumeResizeStrategy [offline_error] [?gated]"
        "example_claim ''data'' [resize_pending]" "example_claim ''data'' [offline_error]" id "(=)" "''''" ?q1]
    by simp
  have reach: "(gate_step id (=) '''')\<^sup>*\<^sup>* ?x0 ?x2" by (rule converse_rtranclp_into_rtranclp [OF s1 r_into_rtranclp [of "gate_step id (=) ''''", OF s2]])
  have start: "gate_start ?x0" by (simp add: gate_start_def)
  have mem: "?gated \<in> set (cl_pods (gs_cluster ?x2))" by simp
  have has: "HasSchedulingGate ?gated SchedulingGateOfflineResize" by (simp add: gates.has_add)
  have claims: "\<forall>n. Some n \<in> set (pod_volumes ?gated) \<longrightarrow>
      (\<exists>p. claim_of (gs_cluster ?x2) (pod_namespace ?gated, n) = Some p \<and> \<not> held p)"
    by (simp add: AddSchedulingGate_def)
  from gated_pod_freed [OF start reach mem has claims] reach show ?thesis by blast
qed

section \<open>Two situations the controller does not handle\<close>

text \<open>
  A pod of the claims \<^verbatim>\<open>data\<close> and \<^verbatim>\<open>logs\<close>: the resize of the first waits for the volume to be
  detached, the second is healthy. The webhook gates the pod, its creation queues both claims,
  and the reconciliation of \<^verbatim>\<open>logs\<close> removes the gate, although the claim \<^verbatim>\<open>data\<close> still holds the
  pod back.
\<close>

lemma two_claims_gate_lost:
  defines "pod \<equiv> example_pod ''db-0'' [Some ''data'', Some ''logs'']"
    and "w \<equiv> offline_world PreferInPlaceVolumeResizeStrategy [offline_error]"
  defines "gated \<equiv> AddSchedulingGate pod SchedulingGateOfflineResize"
  shows "fst (run_state (Handle id id Inr (NewMutator memory_client Inr '''') pod) (start_state (w []))) = PatchResponseFromRaw pod gated"
    and "(''ns'', ''logs'') \<in> set (SetupWithManager deepEqual (CreateEvent (PodObject gated)))"
    and "\<exists>s'. run_state (Reconcile id (memory_reconciler '''') (''ns'', ''logs'')) (start_state (w [gated])) = ((0, None), s') \<and>
      cl_pods (world s') = [pod] \<and> (\<exists>p. claim_of (world s') (''ns'', ''data'') = Some p \<and> held p \<and> IsOfflineResizeRequired p)"
proof -
  have gated: "pod_volumes gated = [Some ''data'', Some ''logs'']" "pod_namespace gated = ''ns''"
      "RemoveSchedulingGate gated SchedulingGateOfflineResize = pod" "HasSchedulingGate gated SchedulingGateOfflineResize"
    by (simp_all add: gated_def pod_def gates.remove_add gates.has_add) (simp_all add: AddSchedulingGate_def)
  show "fst (run_state (Handle id id Inr (NewMutator memory_client Inr '''') pod) (start_state (w []))) = PatchResponseFromRaw pod gated"
    unfolding memory_webhook by (auto simp: pod_def gated_def w_def)
  show "(''ns'', ''logs'') \<in> set (SetupWithManager deepEqual (CreateEvent (PodObject gated)))"
    using gated by (simp add: SetupWithManager_def PodWithSchedulingGatePredicate_def MapPodToPVCs_set)
  obtain s' where s': "run_state (Reconcile id (memory_reconciler '''') (''ns'', ''logs'')) (start_state (w [gated])) = ((0, None), s')"
      "cl_pvcs (world s') = cl_pvcs (w [gated])" "cl_pods (world s') = [pod]"
    using reconcile_releases [of "start_state (w [gated])" "''ns''" "''logs''" "example_claim ''logs'' []" id "''''"] gated
    by (auto simp: start_state_def w_def)
  have "claim_of (world s') (''ns'', ''data'') = Some (example_claim ''data'' [offline_error])"
    unfolding claim_of_cong [OF s'(2)] by (simp add: w_def)
  with s' show "\<exists>s'. run_state (Reconcile id (memory_reconciler '''') (''ns'', ''logs'')) (start_state (w [gated])) = ((0, None), s') \<and>
      cl_pods (world s') = [pod] \<and> (\<exists>p. claim_of (world s') (''ns'', ''data'') = Some p \<and> held p \<and> IsOfflineResizeRequired p)"
    by (auto simp: offline_required)
qed

text \<open>
  A gated pod whose autoscaler no longer enables offline resize: the reconciliation leaves the
  claim alone and does not ask to be repeated. When the resize then ends without a pending
  filesystem resize, the event of this change requests nothing, although a reconciliation would
  now release the pod.
\<close>

lemma offline_pvca_policy:
  "GetVolumePolicy quote ''data'' (VolumePolicies (Spec (offline_pvca st))) =
     Inr (Some ((example_policy ''*'' (2 ^ 40))\<lparr>ScaleUp := Some (example_rules st)\<rparr>))"
  unfolding offline_pvca_def example_pvca_def
  by (subst GetVolumePolicy_plain) (simp_all add: example_policy_def plain_def del: GetVolumePolicy.simps)

lemma gate_stranded:
  defines "w \<equiv> \<lambda>conds. offline_world InPlaceVolumeResizeStrategy conds [gated_pod ''db-0'' [Some ''data'']]"
  shows "\<exists>s'. run_state (Reconcile id (memory_reconciler '''') (''ns'', ''data'')) (start_state (w [offline_error])) = ((0, None), s') \<and> effects s' = []"
    and "SetupWithManager deepEqual (UpdateEvent (PVCObject (example_claim ''data'' [offline_error])) (PVCObject (example_claim ''data'' []))) = []"
    and "\<exists>s'. run_state (Reconcile id (memory_reconciler '''') (''ns'', ''data'')) (start_state (w [])) = ((0, None), s') \<and>
      (\<forall>pod \<in> set (cl_pods (world s')). \<not> HasSchedulingGate pod SchedulingGateOfflineResize)"
proof -
  have "IsPersistentVolumeClaimConditionTrue (example_claim ''data'' [offline_error]) PVCControllerResizeError"
       "\<not> IsPersistentVolumeClaimConditionTrue (example_claim ''data'' [offline_error]) PVCFileSystemResizePending"
    using held_example(1) [of "''data''"] by (simp_all add: held_def)
  then show "\<exists>s'. run_state (Reconcile id (memory_reconciler '''') (''ns'', ''data'')) (start_state (w [offline_error])) = ((0, None), s') \<and> effects s' = []"
    by (simp add: Reconcile_def run_bind run_api run_FindOwning start_state_def w_def offline_pvca_policy
        IsOfflineResizeEnabled_def State_Monad.run_state_return Option.is_none_def
        InPlaceVolumeResizeStrategy_def PreferInPlaceVolumeResizeStrategy_def)
  show "SetupWithManager deepEqual (UpdateEvent (PVCObject (example_claim ''data'' [offline_error])) (PVCObject (example_claim ''data'' []))) = []"
    by (simp add: SetupWithManager_def PVC_filter_iff pvc_condition_defs
        PVCARecommendationsOrPoliciesChangedPredicate_def PodWithSchedulingGatePredicate_def)
  obtain s' where s': "run_state (Reconcile id (memory_reconciler '''') (''ns'', ''data'')) (start_state (w [])) = ((0, None), s')"
      "cl_pods (world s') = [RemoveSchedulingGate (gated_pod ''db-0'' [Some ''data'']) SchedulingGateOfflineResize]"
    using reconcile_releases [of "start_state (w [])" "''ns''" "''data''" "example_claim ''data'' []" id "''''"]
    by (auto simp: start_state_def w_def)
  then show "\<exists>s'. run_state (Reconcile id (memory_reconciler '''') (''ns'', ''data'')) (start_state (w [])) = ((0, None), s') \<and>
      (\<forall>pod \<in> set (cl_pods (world s')). \<not> HasSchedulingGate pod SchedulingGateOfflineResize)"
    by (auto simp: gates.has_remove)
qed

end
