(* ===== verification/Process_Wiring.thy ===== *)
theory Process_Wiring
  imports Runner_Safety Metrics_Prometheus Gate_Lifecycle
begin

text \<open>
  The wiring of \<^verbatim>\<open>cmd/pvc-autoscaler/main.go\<close>: which components the process consists of and
  which configuration each gets. The manager of \<^verbatim>\<open>controller-runtime\<close>, the clients it hands
  out and the environment are the record \<open>process_env\<close>; the flags are the record \<open>flags\<close>. Every
  failing call ends the process with code 1 after a log line, modelled as \<open>Exit\<close> with the message
  of the line. What runs in the blocking \<^verbatim>\<open>mgr.Start\<close> is the \<open>process\<close>. How the flags are read from
  the command line and what \<^verbatim>\<open>mgr.Start\<close> returns is in \<open>Command_Line\<close>.
\<close>

record flags =
  fl_metricsAddr :: string
  fl_enableLeaderElection :: bool
  fl_leaderElectionID :: string
  fl_probeAddr :: string
  fl_secureMetrics :: bool
  fl_enableHTTP2 :: bool
  fl_interval :: int
  fl_prometheusAddress :: string
  fl_availableBytesQuery :: string
  fl_capacityBytesQuery :: string
  fl_availableInodesQuery :: string
  fl_capacityInodesQuery :: string
  fl_autoscalerName :: string

text \<open>The options of the manager. A TLS option changes the configuration of a server.\<close>

record tls_Config =
  NextProtos :: "string list"

definition disableHTTP2 :: "tls_Config \<Rightarrow> tls_Config" where
  "disableHTTP2 c = c\<lparr>NextProtos := [''http/1.1'']\<rparr>"

definition tlsOpts :: "flags \<Rightarrow> (tls_Config \<Rightarrow> tls_Config) list" where
  "tlsOpts F = (if \<not> fl_enableHTTP2 F then [] @ [disableHTTP2] else [])"

record manager_options =
  Metrics_BindAddress :: string
  Metrics_SecureServing :: bool
  Metrics_TLSOpts :: "(tls_Config \<Rightarrow> tls_Config) list"
  WebhookServer_TLSOpts :: "(tls_Config \<Rightarrow> tls_Config) list"
  HealthProbeBindAddress :: string
  LeaderElection :: bool
  LeaderElectionID :: string

definition ctrl_Options :: "flags \<Rightarrow> manager_options" where
  "ctrl_Options F =
     \<lparr>Metrics_BindAddress = fl_metricsAddr F, Metrics_SecureServing = fl_secureMetrics F, Metrics_TLSOpts = tlsOpts F,
      WebhookServer_TLSOpts = tlsOpts F, HealthProbeBindAddress = fl_probeAddr F,
      LeaderElection = fl_enableLeaderElection F, LeaderElectionID = fl_leaderElectionID F\<rparr>"

record ('q, 'w, 'req) process_env =
  ctrl_GetConfig :: "go_error option"
  ctrl_NewManager :: "manager_options \<Rightarrow> go_error option"
  mgr_IndexField :: "string \<Rightarrow> go_error option"
  mgr_RESTMapper :: rest_mapper
  mgr_Client :: "('q, 'w) client"
  mgr_Add :: "go_error option"
  mgr_Complete :: "go_error option"
  NewWebhookManagedBy_Complete :: "go_error option"
  mgr_Decoder :: "'req \<Rightarrow> go_error + pod"
  mgr_AddHealthzCheck :: "go_error option"
  mgr_AddReadyzCheck :: "go_error option"
  ENABLE_WEBHOOKS :: string
  clock_Now :: int
  prom_NewClient :: "prom_config \<Rightarrow> go_error option"
  prom_Query :: "'w query_api"
  prom_order :: "(string \<times> value_mapper) list \<Rightarrow> (string \<times> value_mapper) list"
  clientset_New :: "go_error option"
  clientset_ServerVersion :: "go_error + string"
  scaleclient_New :: "go_error + 'w scale_getter"
  env_parsers :: parsers
  env_order :: "'q pvc_map \<Rightarrow> 'q pvc_map"

record ('q, 'w, 'req) process =
  pr_runner :: "('q, 'w) runner"
  pr_heartbeat :: heartbeat
  pr_reconciler :: "('q, 'w) reconciler"
  pr_mutator :: "('q, 'w, 'req) mutator option"

datatype 'p outcome = Exit string | Running 'p

definition newScalesClient :: "('q, 'w, 'req) process_env \<Rightarrow> go_error + 'w scale_getter \<times> string" where
  "newScalesClient E =
     (case clientset_New E of
        Some err \<Rightarrow> Inl (Wrapped ''failed to create new clientset'' err)
      | None \<Rightarrow>
        (case clientset_ServerVersion E of
           Inl err \<Rightarrow> Inl (Wrapped ''failed to discover Kubernetes server version'' err)
         | Inr gitVersion \<Rightarrow>
           (case scaleclient_New E of
              Inl err \<Rightarrow> Inl (Wrapped ''failed to create new scale client'' err)
            | Inr scaleClient \<Rightarrow> Inr (scaleClient, gitVersion))))"

definition newPVCFetcher :: "('q, 'w, 'req) process_env \<Rightarrow> go_error + ('q, 'w) pvcFetcher \<times> string" where
  "newPVCFetcher E =
     (case newScalesClient E of
        Inl err \<Rightarrow> Inl (Wrapped ''unable to create scales client'' err)
      | Inr (scalesClient, kubernetesVersion) \<Rightarrow>
        (case selectorFetcher_New [WithRESTMapper (mgr_RESTMapper E), WithScaleClient scalesClient] of
           Inl err \<Rightarrow> Inl (Wrapped ''unable to create selector fetcher'' err)
         | Inr selectorFetcher \<Rightarrow>
           (case pvcFetcher_New [pvcFetcher_WithClient (mgr_Client E), WithSelectorFetcher (selector_Fetch (env_parsers E) selectorFetcher)] of
              Inl err \<Rightarrow> Inl err
            | Inr fetcher \<Rightarrow> Inr (fetcher, kubernetesVersion))))"

definition PVCA_SetupWebhookWithManager :: "('q, 'w, 'req) process_env \<Rightarrow> go_error option" where
  "PVCA_SetupWebhookWithManager E = NewWebhookManagedBy_Complete E"

definition exit_on :: "go_error option \<Rightarrow> string \<Rightarrow> 'p outcome \<Rightarrow> 'p outcome" where
  "exit_on err msg continue = (case err of Some _ \<Rightarrow> Exit msg | None \<Rightarrow> continue)"

definition main_process :: "flags \<Rightarrow> ('q, 'w, 'req) process_env \<Rightarrow> ('q, 'w, 'req) process outcome" where
  "main_process F E =
     exit_on (ctrl_GetConfig E) ''unable to get kubeconfig'' (
     exit_on (ctrl_NewManager E (ctrl_Options F)) ''unable to start manager'' (
     exit_on (mgr_IndexField E AutoscalerNameIndexKey) ''unable to set up autoscaler name field indexer'' (
     exit_on (mgr_IndexField E VolumeRecommendationIndexKey) ''unable to set up volume recommendation field indexer'' (
     case Prometheus_New (prom_NewClient E)
            [WithAddress (fl_prometheusAddress F), WithAvailableBytesQuery (fl_availableBytesQuery F),
             WithCapacityBytesQuery (fl_capacityBytesQuery F), WithAvailableInodesQuery (fl_availableInodesQuery F),
             WithCapacityInodesQuery (fl_capacityInodesQuery F)] of
       Inl err \<Rightarrow> Exit ''unable to create metrics source''
     | Inr metricsSource \<Rightarrow>
     (case newPVCFetcher E of
       Inl err \<Rightarrow> Exit ''unable to create PersistentVolumeClaim fetcher''
     | Inr (pvcFetcher, kubernetesVersion) \<Rightarrow>
       let heartbeat = NewHeartbeat (wrap64 (fl_interval F * 5)) (clock_Now E) in
     (case Runner_New
            [Runner_WithClient (mgr_Client E), Runner_WithInterval (fl_interval F),
             WithMetricsSource (Prometheus_Get (prom_Query E) (prom_order E) metricsSource), Runner_WithEventRecorder,
             WithPVCFetcher (pvc_Fetch (ref_String (env_parsers E)) (env_order E) pvcFetcher), WithHeartbeat True,
             Runner_WithAutoscalerName (fl_autoscalerName F), WithKubernetesVersion kubernetesVersion] of
       Inl err \<Rightarrow> Exit ''unable to create periodic runner''
     | Inr runner \<Rightarrow>
     exit_on (mgr_Add E) ''unable to add periodic runner to manager'' (
     case Reconciler_New
            [Reconciler_WithClient (mgr_Client E), Reconciler_WithEventRecorder,
             Reconciler_WithAutoscalerName (fl_autoscalerName F)] of
       Inl err \<Rightarrow> Exit ''unable to create offline-resize reconciler''
     | Inr reconciler \<Rightarrow>
     exit_on (mgr_Complete E) ''unable to set up offline-resize reconciler with manager'' (
     exit_on (if ENABLE_WEBHOOKS E \<noteq> ''false'' then PVCA_SetupWebhookWithManager E else None) ''unable to create webhook'' (
     let (server, err) = (if ENABLE_WEBHOOKS E \<noteq> ''false''
       then Mutator_SetupWebhookWithManager (NewMutator (mgr_Client E) (mgr_Decoder E) (fl_autoscalerName F)) Map.empty
       else (Map.empty, None)) in
     exit_on err ''unable to create webhook'' (
     exit_on (mgr_AddHealthzCheck E) ''unable to set up health check'' (
     exit_on (mgr_AddReadyzCheck E) ''unable to set up ready check'' (
     Running \<lparr>pr_runner = runner, pr_heartbeat = heartbeat, pr_reconciler = reconciler,
       pr_mutator = server webhookPath\<rparr>))))))))))))"

section \<open>When the process starts, and with what\<close>

lemma exit_on_Running [simp]: "exit_on err msg k = Running p \<longleftrightarrow> err = None \<and> k = Running p"
  by (simp add: exit_on_def split: option.split)

definition scales_ok :: "('q, 'w, 'req) process_env \<Rightarrow> bool" where
  "scales_ok E \<longleftrightarrow> clientset_New E = None \<and> \<not> isl (clientset_ServerVersion E) \<and> \<not> isl (scaleclient_New E)"

definition wired_fetcher :: "('q, 'w, 'req) process_env \<Rightarrow> ('q, 'w) pvcFetcher" where
  "wired_fetcher E = \<lparr>pf_client = Some (mgr_Client E), pf_selectorFetcher = Some (selector_Fetch (env_parsers E)
     \<lparr>sf_scaleClient = Some (projr (scaleclient_New E)), sf_restMapper = Some (mgr_RESTMapper E)\<rparr>)\<rparr>"

lemma newPVCFetcher_cases:
  "if scales_ok E then newPVCFetcher E = Inr (wired_fetcher E, projr (clientset_ServerVersion E))
   else \<exists>err. newPVCFetcher E = Inl err"
  by (auto simp: newPVCFetcher_def newScalesClient_def scales_ok_def wired_fetcher_def selectorFetcher_New_def pvcFetcher_New_def
      WithRESTMapper_def WithScaleClient_def pvcFetcher_WithClient_def WithSelectorFetcher_def isl_def
      split: option.split sum.split)

definition prometheus_config :: "flags \<Rightarrow> prom_config" where
  "prometheus_config F = \<lparr>Config_Address = fl_prometheusAddress F, Config_Client = None, Config_RoundTripper = None\<rparr>"

definition wired_prometheus :: "flags \<Rightarrow> Prometheus" where
  "wired_prometheus F = \<lparr>address = fl_prometheusAddress F, httpClient = None, roundTripper = None,
     availableBytesQuery = or_default KubeletVolumeStatsAvailableBytes (fl_availableBytesQuery F),
     capacityBytesQuery = or_default KubeletVolumeStatsCapacityBytes (fl_capacityBytesQuery F),
     availableInodesQuery = or_default KubeletVolumeStatsInodesFree (fl_availableInodesQuery F),
     capacityInodesQuery = or_default KubeletVolumeStatsInodes (fl_capacityInodesQuery F)\<rparr>"

lemma main_Prometheus_New:
  "Prometheus_New NewClient [WithAddress (fl_prometheusAddress F), WithAvailableBytesQuery (fl_availableBytesQuery F),
      WithCapacityBytesQuery (fl_capacityBytesQuery F), WithAvailableInodesQuery (fl_availableInodesQuery F),
      WithCapacityInodesQuery (fl_capacityInodesQuery F)] =
    (if fl_prometheusAddress F = '''' then Inl (Sentinel ErrNoPrometheusAddress)
     else case NewClient (prometheus_config F) of Some e \<Rightarrow> Inl e | None \<Rightarrow> Inr (wired_prometheus F))"
  by (simp add: Prometheus_New_def Let_def wired_prometheus_def prometheus_config_def WithAddress_def WithAvailableBytesQuery_def
      WithCapacityBytesQuery_def WithAvailableInodesQuery_def WithCapacityInodesQuery_def split: option.split)

definition wired_runner :: "flags \<Rightarrow> ('q, 'w, 'req) process_env \<Rightarrow> ('q, 'w) runner" where
  "wired_runner F E = \<lparr>rn_client = mgr_Client E, rn_interval = fl_interval F,
     rn_metricsSource = Prometheus_Get (prom_Query E) (prom_order E) (wired_prometheus F),
     rn_pvcFetcher = pvc_Fetch (ref_String (env_parsers E)) (env_order E) (wired_fetcher E), rn_heartbeat = True,
     rn_autoscalerName = fl_autoscalerName F, rn_kubernetesVersion = projr (clientset_ServerVersion E)\<rparr>"

lemma main_Runner_New:
  "Runner_New [Runner_WithClient c, Runner_WithInterval i, WithMetricsSource src, Runner_WithEventRecorder,
      WithPVCFetcher f, WithHeartbeat b, Runner_WithAutoscalerName n, WithKubernetesVersion v] =
    Inr \<lparr>rn_client = c, rn_interval = i, rn_metricsSource = src, rn_pvcFetcher = f, rn_heartbeat = b,
      rn_autoscalerName = n, rn_kubernetesVersion = v\<rparr>"
  by (simp add: Runner_New_def Let_def empty_config_def Runner_WithClient_def Runner_WithInterval_def WithMetricsSource_def
      Runner_WithEventRecorder_def WithPVCFetcher_def WithHeartbeat_def Runner_WithAutoscalerName_def WithKubernetesVersion_def)

lemma main_Reconciler_New:
  "Reconciler_New [Reconciler_WithClient c, Reconciler_WithEventRecorder, Reconciler_WithAutoscalerName n] =
    Inr \<lparr>rc_client = c, rc_autoscalerName = n\<rparr>"
  by (simp add: Reconciler_New_def Let_def Reconciler_WithClient_def Reconciler_WithEventRecorder_def Reconciler_WithAutoscalerName_def)

lemma main_process_iff:
  "main_process F E = Running p \<longleftrightarrow>
     ctrl_GetConfig E = None \<and> ctrl_NewManager E (ctrl_Options F) = None \<and> mgr_IndexField E AutoscalerNameIndexKey = None \<and>
     mgr_IndexField E VolumeRecommendationIndexKey = None \<and>
     fl_prometheusAddress F \<noteq> '''' \<and> prom_NewClient E (prometheus_config F) = None \<and> scales_ok E \<and>
     mgr_Add E = None \<and> mgr_Complete E = None \<and> (ENABLE_WEBHOOKS E = ''false'' \<or> NewWebhookManagedBy_Complete E = None) \<and>
     mgr_AddHealthzCheck E = None \<and> mgr_AddReadyzCheck E = None \<and>
     p = \<lparr>pr_runner = wired_runner F E, pr_heartbeat = NewHeartbeat (wrap64 (fl_interval F * 5)) (clock_Now E),
          pr_reconciler = \<lparr>rc_client = mgr_Client E, rc_autoscalerName = fl_autoscalerName F\<rparr>,
          pr_mutator = (if ENABLE_WEBHOOKS E = ''false'' then None
            else Some (NewMutator (mgr_Client E) (mgr_Decoder E) (fl_autoscalerName F)))\<rparr>"
proof (cases "scales_ok E")
  case True
  then have f: "newPVCFetcher E = Inr (wired_fetcher E, projr (clientset_ServerVersion E))"
    using newPVCFetcher_cases [of E] by simp
  show ?thesis
    unfolding main_process_def main_Prometheus_New
    by (cases "fl_prometheusAddress F = ''''"; cases "prom_NewClient E (prometheus_config F)")
      (auto simp: f True main_Runner_New main_Reconciler_New wired_runner_def Let_def
        PVCA_SetupWebhookWithManager_def Mutator_SetupWebhookWithManager_def)
next
  case False
  then obtain err where f: "newPVCFetcher E = Inl err" using newPVCFetcher_cases [of E] by auto
  show ?thesis
    unfolding main_process_def main_Prometheus_New
    by (cases "fl_prometheusAddress F = ''''"; cases "prom_NewClient E (prometheus_config F)")
      (simp_all add: f False)
qed

lemma not_isl_iff: "\<not> isl x \<longleftrightarrow> (\<exists>y. x = Inr y)"
  by (cases x) auto

text \<open>
  C40: When the process starts. It starts exactly when a Prometheus address is given and every
  call to the environment succeeds (cluster configuration, manager, both field indexes, Prometheus client, clientset,
  version discovery, scale client, registering the runner, the controller, the webhook of the
  API type unless webhooks are disabled, and the two probes); no component it constructs misses
  a part. Otherwise it exits.
\<close>

theorem main_starts_iff:
  "(\<exists>p. main_process F E = Running p) \<longleftrightarrow>
     fl_prometheusAddress F \<noteq> '''' \<and> ctrl_GetConfig E = None \<and> ctrl_NewManager E (ctrl_Options F) = None \<and>
     mgr_IndexField E AutoscalerNameIndexKey = None \<and> mgr_IndexField E VolumeRecommendationIndexKey = None \<and>
     prom_NewClient E (prometheus_config F) = None \<and> clientset_New E = None \<and>
     (\<exists>v. clientset_ServerVersion E = Inr v) \<and> (\<exists>sc. scaleclient_New E = Inr sc) \<and>
     mgr_Add E = None \<and> mgr_Complete E = None \<and> (ENABLE_WEBHOOKS E = ''false'' \<or> NewWebhookManagedBy_Complete E = None) \<and>
     mgr_AddHealthzCheck E = None \<and> mgr_AddReadyzCheck E = None"
  by (auto simp: main_process_iff scales_ok_def not_isl_iff)

lemma wired_runner_ok:
  assumes "quantity_laws (lb_quantity L) amount" "sane_client (lb_quantity L) amount (mgr_Client E)"
    and "lists_namespace (mgr_Client E)" "\<forall>m. mset (env_order E m) = mset m" "\<forall>xs. mset (lb_order L xs) = mset xs"
    and "0 < fl_interval F"
  shows "\<exists>e. runner_ok L amount e (wired_runner F E)"
proof -
  let ?sf = "\<lparr>sf_scaleClient = Some (projr (scaleclient_New E)), sf_restMapper = Some (mgr_RESTMapper E)\<rparr>"
  let ?e = "\<lparr>fe_refString = ref_String (env_parsers E), fe_order = env_order E, fe_fetcher = wired_fetcher E, fe_client = mgr_Client E\<rparr>"
  have sf: "selectorFetcher_New [WithRESTMapper (mgr_RESTMapper E), WithScaleClient (projr (scaleclient_New E))] = Inr ?sf"
    by (simp add: selectorFetcher_New_def WithRESTMapper_def WithScaleClient_def)
  have "valid (selector_Fetch (env_parsers E) ?sf ns ref) (\<lambda>_. False) (\<lambda>r. r \<noteq> None)" for ns ref
    by (rule valid_weaken [OF valid_selector_Fetch [OF sf]]) auto
  then have "fetch_env_ok ?e"
    using assms(2-4) by (auto simp: fetch_env_ok_def wired_fetcher_def dest: sane_clientD(1))
  moreover have "pvc_Fetch (ref_String (env_parsers E)) (env_order E) (wired_fetcher E) = env_Fetch ?e"
    by (simp add: env_Fetch_def fun_eq_iff)
  ultimately show ?thesis
    using assms by (intro exI [of _ ?e]) (simp add: runner_ok_def wired_runner_def)
qed

text \<open>
  The components fit together: with a positive interval and a server that returns sane objects, the
  runner \<open>main\<close> builds meets the assumptions of its safety theorems, and all components act with
  the same client for the same autoscaler name.
\<close>

lemma main_process_fits:
  fixes p :: "('q, 'w, 'req) process"
  assumes "main_process F E = Running p" "0 < fl_interval F" "quantity_laws (lb_quantity L) amount"
    and "sane_client (lb_quantity L) amount (mgr_Client E)" "lists_namespace (mgr_Client E)"
    and "\<forall>m. mset (env_order E m) = mset m" "\<forall>xs. mset (lb_order L xs) = mset xs"
    and "run_state (Runner_Start L (pr_runner p) evs (pr_heartbeat p)) s = (x, s')"
  shows "x \<noteq> None \<and>
    (\<exists>es. effects s' = effects s @ es \<and> list_all (run_effect L amount (mgr_Client E) (fl_autoscalerName F)) es) \<and>
    rc_client (pr_reconciler p) = rn_client (pr_runner p) \<and>
    rc_autoscalerName (pr_reconciler p) = rn_autoscalerName (pr_runner p) \<and>
    (pr_mutator p = None \<longleftrightarrow> ENABLE_WEBHOOKS E = ''false'') \<and>
    (\<forall>m. pr_mutator p = Some m \<longrightarrow> mt_client m = rn_client (pr_runner p) \<and> mt_autoscalerName m = rn_autoscalerName (pr_runner p))"
proof -
  have r: "pr_runner p = wired_runner F E" using assms(1) by (simp add: main_process_iff)
  obtain e where "runner_ok L amount e (wired_runner F E)" using wired_runner_ok [OF assms(3-7,2)] by blast
  note run = validD [OF valid_Runner_Start [OF this] assms(8) [unfolded r]]
  have "rn_client (wired_runner F E) = mgr_Client E" "rn_autoscalerName (wired_runner F E) = fl_autoscalerName F"
    by (simp_all add: wired_runner_def)
  with run r assms(1) show ?thesis by (auto simp: main_process_iff NewMutator_def)
qed

section \<open>The health probe\<close>

lemma runner_loop_heartbeat:
  assumes "run_state (runner_loop L r evs h) s = (Some h', s')" "rn_heartbeat r" "lastActivity h = Now (rn_client r) (world s)"
  shows "lastActivity h' = Now (rn_client r) (world s') \<and> checkTimeout h' = checkTimeout h \<and> activityTimeout h' = activityTimeout h"
  using assms
proof (induction evs arbitrary: h s)
  case (Cons ev evs)
  show ?case
  proof (cases ev)
    case Tick
    obtain y s1 where y: "run_state (reconcileAll L r) s = (y, s1)" by fastforce
    with Cons.prems Tick obtain z where "y = Some z" by (cases y) (auto simp: run_simps)
    with Cons.prems Tick y have "run_state (runner_loop L r evs (UpdateLastActivity (Now (rn_client r) (world s1)) h)) s1 = (Some h', s')"
      by (simp add: run_simps)
    from Cons.IH [OF this Cons.prems(2)] show ?thesis by (simp add: UpdateLastActivity_def)
  next
    case Done
    with Cons.prems show ?thesis by (simp add: run_simps)
  qed
qed (simp add: run_simps)

text \<open>
  C39: The health probe is exact. However many passes the runner of the process has made,
  successful or not, the probe that \<open>main\<close> registers fails at a time exactly when more than five
  intervals (in 64-bit arithmetic) have gone by since the runner started or its last pass ended.
\<close>

theorem health_probe_exact:
  fixes p :: "('q, 'w, 'req) process"
  assumes "main_process F E = Running p" "run_state (Runner_Start L (pr_runner p) evs (pr_heartbeat p)) s = (Some h, s')"
  shows "Check dur clk h \<noteq> None \<longleftrightarrow> Now (mgr_Client E) (world s') + wrap64 (fl_interval F * 5) < clk"
proof -
  let ?r = "wired_runner F E" and ?h = "NewHeartbeat (wrap64 (fl_interval F * 5)) (clock_Now E)"
  have r: "pr_runner p = ?r" "pr_heartbeat p = ?h" using assms(1) by (simp_all add: main_process_iff)
  have sel: "rn_client ?r = mgr_Client E" "rn_heartbeat ?r" by (simp_all add: wired_runner_def)
  have "run_state (runner_loop L ?r evs (StartMonitoring (Now (mgr_Client E) (world s)) ?h)) s = (Some h, s')"
    using assms(2) by (auto simp: r Runner_Start_def run_simps sel split: if_splits)
  from runner_loop_heartbeat [OF this sel(2)]
  have "lastActivity h = Now (mgr_Client E) (world s') \<and> checkTimeout h \<and> activityTimeout h = wrap64 (fl_interval F * 5)"
    by (simp add: sel StartMonitoring_def NewHeartbeat_def)
  then show ?thesis by (simp add: Check_def Let_def)
qed


section \<open>An example process\<close>

definition example_flags :: flags where
  "example_flags = \<lparr>fl_metricsAddr = '':8080'', fl_enableLeaderElection = True, fl_leaderElectionID = ''lease'',
     fl_probeAddr = '':8081'', fl_secureMetrics = False, fl_enableHTTP2 = False, fl_interval = 300 * 10 ^ 9, fl_prometheusAddress = ''http://localhost:9090'', fl_availableBytesQuery = '''', fl_capacityBytesQuery = '''',
     fl_availableInodesQuery = '''', fl_capacityInodesQuery = '''', fl_autoscalerName = ''''\<rparr>"

definition example_process_env :: "(int, int cluster, pod) process_env" where
  "example_process_env = \<lparr>ctrl_GetConfig = None, ctrl_NewManager = (\<lambda>_. None), mgr_IndexField = (\<lambda>_. None), mgr_RESTMapper = (\<lambda>_. Inr [''statefulsets'']),
     mgr_Client = checking_client byte_quantities of_int, mgr_Add = None, mgr_Complete = None, NewWebhookManagedBy_Complete = None,
     mgr_Decoder = Inr, mgr_AddHealthzCheck = None, mgr_AddReadyzCheck = None, ENABLE_WEBHOOKS = '''', clock_Now = 0,
     prom_NewClient = (\<lambda>_. None), prom_Query = (\<lambda>q w. (Inr (Vector []), w)), prom_order = rev, clientset_New = None,
     clientset_ServerVersion = Inr ''v1.34.0'', scaleclient_New = Inr (\<lambda>ns gr n w. (Inr ''app=db'', w)),
     env_parsers = \<lparr>ParseGroupVersion = Inr, ParseSelector = Inr, ref_String = ref_name\<rparr>, env_order = rev\<rparr>"

lemma example_process_env_sel [simp]:
  "mgr_Client example_process_env = checking_client byte_quantities of_int" "env_order example_process_env = rev"
  by (simp_all add: example_process_env_def)

lemma example_process: "\<exists>p. main_process example_flags example_process_env = Running p"
  by (simp add: main_process_iff example_process_env_def example_flags_def scales_ok_def)

lemma checking_client_lists: "lists_namespace (checking_client Q amount)"
  by (auto simp: lists_namespace_def checking_client_def)

theorem health_probe_exact_witness:
  "\<exists>p h s'. main_process example_flags example_process_env = Running p \<and>
     run_state (Runner_Start example_libs (pr_runner p) [Done] (pr_heartbeat p)) (start_state example_world) = (Some h, s') \<and>
     Check show_int (1500 * 10 ^ 9) h = None \<and> Check show_int (1500 * 10 ^ 9 + 1) h \<noteq> None"
proof -
  obtain p where p: "main_process example_flags example_process_env = Running p" using example_process by blast
  then have "pr_runner p = wired_runner example_flags example_process_env" by (simp add: main_process_iff)
  then obtain h where run: "run_state (Runner_Start example_libs (pr_runner p) [Done] (pr_heartbeat p)) (start_state example_world) = (Some h, start_state example_world)"
    by (auto simp: Runner_Start_def run_simps wired_runner_def example_flags_def)
  have "wrap64 (fl_interval example_flags * 5) = 1500 * 10 ^ 9" by (simp add: example_flags_def wrap64_def)
  with health_probe_exact [OF p run, of show_int "1500 * 10 ^ 9"] health_probe_exact [OF p run, of show_int "1500 * 10 ^ 9 + 1"] p run
  show ?thesis by (auto simp: start_state_def)
qed

end
