(* ===== verification/Go_Flags.thy ===== *)
theory Go_Flags
  imports Go_Float64
begin

text \<open>
  The part of Go's packages \<^verbatim>\<open>flag\<close>, \<^verbatim>\<open>time\<close> and \<^verbatim>\<open>strconv\<close> that reads a command line:
  \<^verbatim>\<open>time.ParseDuration\<close>, \<^verbatim>\<open>strconv.ParseBool\<close>, and the argument loop of \<^verbatim>\<open>flag.Parse\<close>. The main facts:
  a duration written as a number and a unit is read as that many units (\<open>ParseDuration_unit\<close>), and
  arguments that spell settings of flags are read as these settings (\<open>flag_Parse_spelled\<close>).
\<close>

section \<open>Durations\<close>

definition isdigit :: "char \<Rightarrow> bool" where
  "isdigit c \<longleftrightarrow> digit c \<noteq> None"

text \<open>
  The leading digits as a \<^verbatim>\<open>uint64\<close>, an error (\<open>None\<close>) above \<^verbatim>\<open>2^63\<close>; the digits after a point, which stop
  counting when they no longer fit, and the power of ten they are divided by.
\<close>

fun leadingInt :: "nat \<Rightarrow> string \<Rightarrow> (nat \<times> string) option" where
  "leadingInt x [] = Some (x, [])"
| "leadingInt x (c # s) =
     (case digit c of
        None \<Rightarrow> Some (x, c # s)
      | Some d \<Rightarrow>
          if x > 2 ^ 63 div 10 then None
          else if x * 10 + d > 2 ^ 63 then None
          else leadingInt (x * 10 + d) s)"

fun leadingFraction :: "bool \<Rightarrow> nat \<Rightarrow> rat \<Rightarrow> string \<Rightarrow> nat \<times> rat \<times> string" where
  "leadingFraction overflow x scale [] = (x, scale, [])"
| "leadingFraction overflow x scale (c # s) =
     (case digit c of
        None \<Rightarrow> (x, scale, c # s)
      | Some d \<Rightarrow>
          if overflow then leadingFraction True x scale s
          else if x > (2 ^ 63 - 1) div 10 then leadingFraction True x scale s
          else if x * 10 + d > 2 ^ 63 then leadingFraction True x scale s
          else leadingFraction False (x * 10 + d) (float64 (scale * 10)) s)"

definition unitMap :: "string \<rightharpoonup> nat" where
  "unitMap = map_of
     [(''ns'', 1), (''us'', 10 ^ 3), ([CHR 0xC2, CHR 0xB5, CHR ''s''], 10 ^ 3), ([CHR 0xCE, CHR 0xBC, CHR ''s''], 10 ^ 3),
      (''ms'', 10 ^ 6), (''s'', 10 ^ 9), (''m'', 60 * 10 ^ 9), (''h'', 3600 * 10 ^ 9)]"

text \<open>The optional fraction: its digits, their scale, what follows, and whether there was a digit.\<close>

definition fraction :: "string \<Rightarrow> nat \<times> rat \<times> string \<times> bool" where
  "fraction s =
     (case s of
        [] \<Rightarrow> (0, 1, [], False)
      | c # t \<Rightarrow>
          if c = CHR ''.'' then (let (f, scale, u) = leadingFraction False 0 1 t in (f, scale, u, length t \<noteq> length u))
          else (0, 1, s, False))"

text \<open>A unit ends before a point or a digit.\<close>

definition unit_char :: "char \<Rightarrow> bool" where
  "unit_char c \<longleftrightarrow> \<not> (c = CHR ''.'' \<or> isdigit c)"

text \<open>One number with its unit, in nanoseconds, and what follows.\<close>

definition duration_term :: "string \<Rightarrow> (nat \<times> string) option" where
  "duration_term s =
     (if unit_char (hd s) then None
      else case leadingInt 0 s of
        None \<Rightarrow> None
      | Some (v, s1) \<Rightarrow>
          (case fraction s1 of (f, scale, s2, post) \<Rightarrow>
             let pre = (length s \<noteq> length s1);
                 u = takeWhile unit_char s2;
                 s3 = dropWhile unit_char s2
             in if \<not> pre \<and> \<not> post then None
                else if u = [] then None
                else (case unitMap u of
                   None \<Rightarrow> None
                 | Some unit \<Rightarrow>
                     if v > 2 ^ 63 div unit then None
                     else if f = 0 then Some (v * unit, s3)
                     else let v' = v * unit + nat (trunc (float64 (float64 (of_nat f) * float64 (of_nat unit / scale))))
                       in if v' > 2 ^ 63 then None else Some (v', s3))))"

lemma leadingInt_shorter: "leadingInt x s = Some (v, t) \<Longrightarrow> length t \<le> length s"
  by (induction x s rule: leadingInt.induct) (auto split: option.splits if_splits)

lemma leadingFraction_shorter: "leadingFraction b x sc s = (f, sc', t) \<Longrightarrow> length t \<le> length s"
  by (induction b x sc s rule: leadingFraction.induct) (auto split: option.splits if_splits)

lemma fraction_shorter: "fraction s = (f, sc, t, p) \<Longrightarrow> length t \<le> length s"
  by (auto simp: fraction_def dest!: leadingFraction_shorter split: list.splits if_splits prod.splits)

lemma duration_term_shorter:
  assumes "duration_term s = Some (v, t)"
  shows "length t < length s"
proof -
  from assms obtain v1 s1 f sc s2 p where s: "leadingInt 0 s = Some (v1, s1)" "fraction s1 = (f, sc, s2, p)"
    and u: "takeWhile unit_char s2 \<noteq> []"
    and t: "t = dropWhile unit_char s2"
    by (auto simp: duration_term_def Let_def split: if_splits option.splits prod.splits)
  from u have "length t < length s2"
    unfolding t using arg_cong [OF takeWhile_dropWhile_id [of unit_char s2], of length]
    by (simp only: length_append) (metis length_greater_0_conv less_add_same_cancel2)
  with leadingInt_shorter [OF s(1)] fraction_shorter [OF s(2)] show ?thesis by simp
qed

text \<open>The terms add up in a \<^verbatim>\<open>uint64\<close>.\<close>

function duration_terms :: "nat \<Rightarrow> string \<Rightarrow> nat option" where
  "duration_terms d s =
     (if s = [] then Some d
      else case duration_term s of
        None \<Rightarrow> None
      | Some (v, t) \<Rightarrow> let d' = (d + v) mod 2 ^ 64 in if d' > 2 ^ 63 then None else duration_terms d' t)"
  by pat_completeness auto
termination
  by (relation "measure (\<lambda>(d, s). length s)") (auto dest: duration_term_shorter)

declare duration_terms.simps [simp del]

definition ParseDuration :: "string \<Rightarrow> int option" where
  "ParseDuration orig =
     (let signed = (orig \<noteq> [] \<and> (hd orig = CHR ''-'' \<or> hd orig = CHR ''+''));
          neg = (signed \<and> hd orig = CHR ''-'');
          s = (if signed then tl orig else orig)
      in if s = ''0'' then Some 0
         else if s = [] then None
         else case duration_terms 0 s of
           None \<Rightarrow> None
         | Some d \<Rightarrow>
             if neg then Some (wrap64 (- wrap64 (int d)))
             else if d > 2 ^ 63 - 1 then None else Some (int d))"

text \<open>A number followed by a unit is that many units.\<close>

lemma read_digits_ge: "read_digits a s = Some n \<Longrightarrow> a \<le> n"
  by (induction a s rule: read_digits.induct) (auto split: option.splits)

lemma leadingInt_digits:
  assumes "read_digits a s = Some n" "n \<le> 2 ^ 63" "t = [] \<or> \<not> isdigit (hd t)"
  shows "leadingInt a (s @ t) = Some (n, t)"
  using assms(1)
proof (induction s arbitrary: a)
  case Nil
  with assms(3) show ?case by (cases t) (auto simp: isdigit_def split: option.split)
next
  case (Cons c s)
  then obtain d where d: "digit c = Some d" "read_digits (10 * a + d) s = Some n" by (auto split: option.splits)
  then have "10 * a + d \<le> 2 ^ 63" using read_digits_ge assms(2) order_trans by blast
  with Cons.IH [OF d(2)] d(1) show ?case by (simp add: mult.commute)
qed

lemma unitMap_chars: "unitMap u = Some k \<Longrightarrow> u \<noteq> [] \<and> 0 < k \<and> list_all unit_char u"
  by (auto simp: unitMap_def unit_char_def isdigit_def digit_def split: if_splits)

lemma show_nat_hd: "show_nat n \<noteq> [] \<and> isdigit (hd (show_nat n))"
  using show_nat_digit [of n] digit_char by (auto simp: isdigit_def)

lemma duration_term_unit:
  assumes "unitMap u = Some k" "n * k \<le> 2 ^ 63"
  shows "duration_term (show_nat n @ u) = Some (n * k, [])"
proof -
  note u = unitMap_chars [OF assms(1)]
  have "n \<le> n * k" using u by simp
  from this assms(2) have n: "n \<le> 2 ^ 63" by (rule order_trans)
  have k: "n \<le> 2 ^ 63 div k" using assms(2) u by (simp add: less_eq_div_iff_mult_less_eq)
  then have "hd u \<noteq> CHR ''.''" "\<not> isdigit (hd u)" using u by (cases u; simp add: unit_char_def)+
  then have "leadingInt 0 (show_nat n @ u) = Some (n, u)" "fraction u = (0, 1, u, False)"
    using leadingInt_digits [OF read_digits_show_nat n, of u] by (auto simp: fraction_def split: list.split)
  moreover have w: "takeWhile unit_char u = u" "dropWhile unit_char u = []"
    using u by (simp_all add: takeWhile_eq_all_conv list_all_iff)
  moreover have "\<not> unit_char (hd (show_nat n @ u))" using show_nat_hd [of n] by (simp add: unit_char_def)
  ultimately show ?thesis
    using u show_nat_hd [of n] assms k by (simp add: duration_term_def Let_def w)
qed

lemma ParseDuration_unit:
  assumes "unitMap u = Some k" "n * k < 2 ^ 63"
  shows "ParseDuration (show_nat n @ u) = Some (int (n * k))"
proof -
  obtain d :: nat and t where t: "d < 10" "show_nat n = char_of (48 + d) # t" using show_nat_digit by blast
  have "digit (CHR ''-'') = None" "digit (CHR ''+'') = None" by (simp_all add: digit_def)
  with digit_char [OF t(1)] have c: "char_of (48 + d) \<noteq> CHR ''-''" "char_of (48 + d) \<noteq> CHR ''+''" by auto
  have "show_nat n @ u \<noteq> ''0''" using unitMap_chars [OF assms(1)] t(2) by (cases u) auto
  moreover have "duration_terms 0 (show_nat n @ u) = Some (n * k)"
    using assms(2) duration_term_unit [OF assms(1), of n] t(2) by (simp add: duration_terms.simps Let_def)
  ultimately show ?thesis using assms(2) c t(2) unitMap_chars [OF assms(1)] by (simp add: ParseDuration_def Let_def del: of_nat_mult)
qed

lemma ParseDuration_negative:
  assumes "unitMap u = Some k" "n * k \<le> 2 ^ 63"
  shows "ParseDuration (CHR ''-'' # show_nat n @ u) = Some (- int (n * k))"
proof -
  obtain d :: nat and t where t: "show_nat n = char_of (48 + d) # t" using show_nat_digit by blast
  have "show_nat n @ u \<noteq> ''0''" using unitMap_chars [OF assms(1)] t by (cases u) auto
  moreover have "duration_terms 0 (show_nat n @ u) = Some (n * k)"
    using assms(2) duration_term_unit [OF assms(1), of n] t by (simp add: duration_terms.simps Let_def)
  moreover have "wrap64 (- wrap64 (int (n * k))) = - int (n * k)"
  proof (cases "n * k = 2 ^ 63")
    case True
    then have "int (n * k) = 2 ^ 63" by (metis of_nat_numeral of_nat_power)
    then show ?thesis by (simp add: wrap64_def del: of_nat_mult)
  next
    case False
    with assms(2) have "int (n * k) < 2 ^ 63"
      by (metis le_neq_implies_less of_nat_less_iff of_nat_numeral of_nat_power)
    then have "int64 (int (n * k))" "int64 (- int (n * k))" by (simp_all add: int64_def del: of_nat_mult)
    then show ?thesis by (simp add: wrap64_id del: of_nat_mult)
  qed
  ultimately show ?thesis using unitMap_chars [OF assms(1)] by (simp add: ParseDuration_def Let_def del: of_nat_mult)
qed

text \<open>Every duration is read back from its number of nanoseconds.\<close>

lemma ParseDuration_nanoseconds: "int64 n \<Longrightarrow> ParseDuration (show_int n @ ''ns'') = Some n"
  using ParseDuration_unit [of "''ns''" 1 "nat n"] ParseDuration_negative [of "''ns''" 1 "nat (- n)"]
  by (auto simp: show_int_def unitMap_def int64_def nat_less_iff)

section \<open>Flags\<close>

definition ParseBool :: "string \<Rightarrow> bool option" where
  "ParseBool s =
     (if s \<in> set [''1'', ''t'', ''T'', ''true'', ''TRUE'', ''True''] then Some True
      else if s \<in> set [''0'', ''f'', ''F'', ''false'', ''FALSE'', ''False''] then Some False
      else None)"

text \<open>
  A flag: whether it is Boolean, so that it needs no value, and how its value is set; \<open>None\<close> is a
  value that does not parse. \<open>'s\<close> is the state of all variables that flags set.
\<close>

record 's go_flag =
  IsBoolFlag :: bool
  Set :: "string \<Rightarrow> 's \<Rightarrow> 's option"

definition StringVar :: "(string \<Rightarrow> 's \<Rightarrow> 's) \<Rightarrow> 's go_flag" where
  "StringVar put = \<lparr>IsBoolFlag = False, Set = (\<lambda>v s. Some (put v s))\<rparr>"

definition BoolVar :: "(bool \<Rightarrow> 's \<Rightarrow> 's) \<Rightarrow> 's go_flag" where
  "BoolVar put = \<lparr>IsBoolFlag = True, Set = (\<lambda>v s. map_option (\<lambda>b. put b s) (ParseBool v))\<rparr>"

definition DurationVar :: "(int \<Rightarrow> 's \<Rightarrow> 's) \<Rightarrow> 's go_flag" where
  "DurationVar put = \<lparr>IsBoolFlag = False, Set = (\<lambda>v s. map_option (\<lambda>d. put d s) (ParseDuration v))\<rparr>"

datatype flag_error =
    BadSyntax string
  | NotDefined string
  | ErrHelp
  | InvalidBoolean string string
  | NeedsArgument string
  | InvalidValue string string

text \<open>One argument: a flag was set, or the flags end, or an error.\<close>

datatype 's flag_step = Seen "string list" 's | Finished "string list" | Failed flag_error

definition set_flag :: "'s go_flag \<Rightarrow> string \<Rightarrow> string option \<Rightarrow> string list \<Rightarrow> 's \<Rightarrow> 's flag_step" where
  "set_flag f name val args s =
     (if IsBoolFlag f then
        (case Set f (case val of Some v \<Rightarrow> v | None \<Rightarrow> ''true'') s of
           None \<Rightarrow> Failed (InvalidBoolean (case val of Some v \<Rightarrow> v | None \<Rightarrow> ''true'') name)
         | Some s' \<Rightarrow> Seen args s')
      else
        (case (case val of Some v \<Rightarrow> Some (v, args) | None \<Rightarrow> (case args of [] \<Rightarrow> None | v # args' \<Rightarrow> Some (v, args'))) of
           None \<Rightarrow> Failed (NeedsArgument name)
         | Some (v, args') \<Rightarrow>
             (case Set f v s of None \<Rightarrow> Failed (InvalidValue v name) | Some s' \<Rightarrow> Seen args' s')))"

text \<open>The name, and the value after the first equals sign behind the first character.\<close>

definition split_name :: "string \<Rightarrow> string \<times> string option" where
  "split_name arg =
     (let rest = dropWhile (\<lambda>c. c \<noteq> CHR ''='') (tl arg)
      in (hd arg # takeWhile (\<lambda>c. c \<noteq> CHR ''='') (tl arg), if rest = [] then None else Some (tl rest)))"

definition parseOne :: "(string \<rightharpoonup> 's go_flag) \<Rightarrow> string list \<Rightarrow> 's \<Rightarrow> 's flag_step" where
  "parseOne formal args s =
     (case args of
        [] \<Rightarrow> Finished []
      | a # rest \<Rightarrow>
          if length a < 2 \<or> hd a \<noteq> CHR ''-'' then Finished args
          else if a = ''--'' then Finished rest
          else let arg = (if a ! 1 = CHR ''-'' then drop 2 a else drop 1 a)
            in if arg = [] \<or> hd arg = CHR ''-'' \<or> hd arg = CHR ''='' then Failed (BadSyntax a)
               else (case split_name arg of (name, val) \<Rightarrow>
                 (case formal name of
                    None \<Rightarrow> Failed (if name = ''help'' \<or> name = ''h'' then ErrHelp else NotDefined name)
                  | Some f \<Rightarrow> set_flag f name val rest s)))"

lemma set_flag_shorter: "set_flag f name val args s = Seen args' s' \<Longrightarrow> length args' \<le> length args"
  by (auto simp: set_flag_def split: if_splits option.splits list.splits)

lemma parseOne_shorter: "parseOne formal args s = Seen args' s' \<Longrightarrow> length args' < length args"
  by (auto simp: parseOne_def Let_def less_Suc_eq_le split: if_splits option.splits list.splits prod.splits
      dest!: set_flag_shorter)

function flag_Parse :: "(string \<rightharpoonup> 's go_flag) \<Rightarrow> string list \<Rightarrow> 's \<Rightarrow> flag_error + 's \<times> string list" where
  "flag_Parse formal args s =
     (case parseOne formal args s of
        Seen args' s' \<Rightarrow> flag_Parse formal args' s'
      | Finished rest \<Rightarrow> Inr (s, rest)
      | Failed e \<Rightarrow> Inl e)"
  by pat_completeness auto
termination
  by (relation "measure (\<lambda>(f, args, s). length args)") (auto dest: parseOne_shorter)

declare flag_Parse.simps [simp del]

section \<open>Command lines that spell settings\<close>

text \<open>
  The ways to write that a flag has a value: with one or two dashes, with the value behind an equals
  sign or, unless the flag is Boolean, as the next argument; a Boolean flag alone means true.
\<close>

definition flag_name :: "string \<Rightarrow> bool" where
  "flag_name n \<longleftrightarrow> n \<noteq> [] \<and> hd n \<noteq> CHR ''-'' \<and> CHR ''='' \<notin> set n"

definition spells :: "'s go_flag \<Rightarrow> string \<Rightarrow> string \<Rightarrow> string list \<Rightarrow> bool" where
  "spells f n v as \<longleftrightarrow>
     list_ex (\<lambda>dash. as = [dash @ n @ ''='' @ v] \<or> (if IsBoolFlag f then v = ''true'' \<and> as = [dash @ n] else as = [dash @ n, v]))
       [''-'', ''--'']"

definition spelled :: "(string \<rightharpoonup> 's go_flag) \<Rightarrow> string \<times> string \<Rightarrow> string list \<Rightarrow> bool" where
  "spelled formal x as \<longleftrightarrow> flag_name (fst x) \<and> (case formal (fst x) of None \<Rightarrow> False | Some f \<Rightarrow> spells f (fst x) (snd x) as)"

fun apply_settings :: "(string \<rightharpoonup> 's go_flag) \<Rightarrow> (string \<times> string) list \<Rightarrow> 's \<Rightarrow> 's option" where
  "apply_settings formal [] s = Some s"
| "apply_settings formal (x # xs) s =
     (case formal (fst x) of
        None \<Rightarrow> None
      | Some f \<Rightarrow> (case Set f (snd x) s of None \<Rightarrow> None | Some s' \<Rightarrow> apply_settings formal xs s'))"

lemma split_name_plain: "flag_name n \<Longrightarrow> split_name n = (n, None)"
  by (cases n) (auto simp: split_name_def flag_name_def Let_def takeWhile_eq_all_conv)

lemma split_name_value: "flag_name n \<Longrightarrow> split_name (n @ ''='' @ v) = (n, Some v)"
  by (cases n) (auto simp: split_name_def flag_name_def Let_def takeWhile_append dropWhile_append)

lemma flag_name_hd: "flag_name n \<Longrightarrow> n \<noteq> [] \<and> hd n \<noteq> CHR ''-'' \<and> hd n \<noteq> CHR ''=''"
  by (cases n) (auto simp: flag_name_def)

lemma parseOne_flag:
  assumes "dash \<in> {''-'', ''--''}" "arg \<noteq> []" "hd arg \<noteq> CHR ''-''" "hd arg \<noteq> CHR ''=''" "split_name arg = (n, val)" "formal n = Some f"
  shows "parseOne formal ((dash @ arg) # rest) s = set_flag f n val rest s"
  using assms by (cases arg) (auto simp: parseOne_def Let_def)

lemma parseOne_spelled:
  assumes "spelled formal x as" "formal (fst x) = Some f" "Set f (snd x) s = Some s'"
  shows "parseOne formal (as @ rest) s = Seen rest s'"
proof -
  obtain n v where x: "x = (n, v)" by fastforce
  have n: "flag_name n" and "spells f n v as" using assms(1,2) by (simp_all add: spelled_def x)
  from this(2) obtain dash where d: "dash \<in> {''-'', ''--''}"
    and as: "as = [dash @ n @ ''='' @ v] \<or> (if IsBoolFlag f then v = ''true'' \<and> as = [dash @ n] else as = [dash @ n, v])"
    unfolding spells_def list_ex_iff set_simps by blast
  have "parseOne formal ((dash @ n @ ''='' @ v) # r) s = set_flag f n (Some v) r s" for r
    by (rule parseOne_flag [OF d]) (use flag_name_hd [OF n] assms(2) split_name_value [OF n, of v] x in auto)
  moreover have "parseOne formal ((dash @ n) # r) s = set_flag f n None r s" for r
    by (rule parseOne_flag [OF d]) (use flag_name_hd [OF n] assms(2) split_name_plain [OF n] x in auto)
  ultimately show ?thesis
    using as assms(3) x by (auto simp: set_flag_def split: if_splits)
qed

lemma flag_Parse_spelled:
  assumes "list_all2 (spelled formal) xs segs" "apply_settings formal xs s = Some s'" "rest = [] \<or> length (hd rest) < 2 \<or> hd (hd rest) \<noteq> CHR ''-''"
  shows "flag_Parse formal (concat segs @ rest) s = Inr (s', rest)"
  using assms(1,2)
proof (induction arbitrary: s rule: list_all2_induct)
  case Nil
  with assms(3) show ?case by (cases rest) (simp_all add: flag_Parse.simps parseOne_def)
next
  case (Cons x xs as segs)
  from Cons.prems obtain f s1 where f: "formal (fst x) = Some f" "Set f (snd x) s = Some s1" "apply_settings formal xs s1 = Some s'"
    by (auto split: option.splits)
  from parseOne_spelled [OF Cons.hyps(1) f(1,2)] Cons.IH [OF f(3)] show ?case
    by (simp add: flag_Parse.simps [of _ "as @ _"])
qed

end
