(* ===== verification/Command_Line.thy ===== *)
theory Command_Line
  imports Process_Wiring Go_Flags
begin

text \<open>
  The program from its start to its exit (\<^verbatim>\<open>cmd/pvc-autoscaler/main.go\<close>): the initialisation of the
  packages, which panics when a registration fails; the flags and their defaults; reading the command
  line; the process of \<open>Process_Wiring\<close>; and the exit status. The flags that other packages add to the
  same flag set (logging, \<^verbatim>\<open>kubeconfig\<close>) are the parameter \<open>other\<close>, their variables the state \<open>'z\<close>.
\<close>

section \<open>Initialisation\<close>

record ('c, 'r) init_env =
  semver_NewConstraint :: "string \<Rightarrow> go_error + 'c"
  Registry_Register :: "string \<times> string list \<Rightarrow> 'r \<Rightarrow> go_error + 'r"
  ctrlmetrics_Registry :: 'r
  clientgo_AddToScheme :: "go_error option"
  Builder_AddToScheme :: "scheme_builder \<Rightarrow> go_error option"

text \<open>\<open>AddToScheme\<close> of the API package, and \<open>init\<close> of \<open>main\<close>, which panics (\<open>False\<close>) on an error.\<close>

definition AddToScheme :: "('c, 'r) init_env \<Rightarrow> go_error option" where
  "AddToScheme I = Builder_AddToScheme I (types_init SchemeBuilder)"

definition main_init :: "('c, 'r) init_env \<Rightarrow> bool" where
  "main_init I \<longleftrightarrow> clientgo_AddToScheme I = None \<and> AddToScheme I = None"

definition package_init :: "('c, 'r) init_env \<Rightarrow> bool" where
  "package_init I \<longleftrightarrow>
     constraintGreaterEqual134 (semver_NewConstraint I) \<noteq> None \<and>
     metrics_init (Registry_Register I) (ctrlmetrics_Registry I) \<noteq> None \<and> main_init I"

section \<open>The flags\<close>

definition default_flags :: flags where
  "default_flags =
     \<lparr>fl_metricsAddr = '':8080'', fl_enableLeaderElection = False, fl_leaderElectionID = ''2b09b108.gardener.cloud'',
      fl_probeAddr = '':8081'', fl_secureMetrics = False, fl_enableHTTP2 = False, fl_interval = 5 * 60 * 10 ^ 9,
      fl_prometheusAddress = ''http://localhost:9090'', fl_availableBytesQuery = KubeletVolumeStatsAvailableBytes,
      fl_capacityBytesQuery = KubeletVolumeStatsCapacityBytes, fl_availableInodesQuery = KubeletVolumeStatsInodesFree,
      fl_capacityInodesQuery = KubeletVolumeStatsInodes, fl_autoscalerName = ''''\<rparr>"

definition main_flags :: "(string \<times> flags go_flag) list" where
  "main_flags =
     [(''metrics-bind-address'', StringVar (\<lambda>v F. F\<lparr>fl_metricsAddr := v\<rparr>)),
      (''health-probe-bind-address'', StringVar (\<lambda>v F. F\<lparr>fl_probeAddr := v\<rparr>)),
      (''prometheus-address'', StringVar (\<lambda>v F. F\<lparr>fl_prometheusAddress := v\<rparr>)),
      (''metrics-available-bytes-query'', StringVar (\<lambda>v F. F\<lparr>fl_availableBytesQuery := v\<rparr>)),
      (''metrics-capacity-bytes-query'', StringVar (\<lambda>v F. F\<lparr>fl_capacityBytesQuery := v\<rparr>)),
      (''metrics-available-inodes-query'', StringVar (\<lambda>v F. F\<lparr>fl_availableInodesQuery := v\<rparr>)),
      (''metrics-capacity-inodes-query'', StringVar (\<lambda>v F. F\<lparr>fl_capacityInodesQuery := v\<rparr>)),
      (''leader-elect'', BoolVar (\<lambda>v F. F\<lparr>fl_enableLeaderElection := v\<rparr>)),
      (''leader-election-id'', StringVar (\<lambda>v F. F\<lparr>fl_leaderElectionID := v\<rparr>)),
      (''metrics-secure'', BoolVar (\<lambda>v F. F\<lparr>fl_secureMetrics := v\<rparr>)),
      (''enable-http2'', BoolVar (\<lambda>v F. F\<lparr>fl_enableHTTP2 := v\<rparr>)),
      (''interval'', DurationVar (\<lambda>v F. F\<lparr>fl_interval := v\<rparr>)),
      (''autoscaler-name'', StringVar (\<lambda>v F. F\<lparr>fl_autoscalerName := v\<rparr>))]"

text \<open>The flag set \<^verbatim>\<open>flag.CommandLine\<close>: the flags of \<open>main\<close> and those of other packages.\<close>

definition on_fst :: "'s go_flag \<Rightarrow> ('s \<times> 'z) go_flag" where
  "on_fst f = \<lparr>IsBoolFlag = IsBoolFlag f, Set = (\<lambda>v s. map_option (\<lambda>t. (t, snd s)) (Set f v (fst s)))\<rparr>"

definition on_snd :: "'z go_flag \<Rightarrow> ('s \<times> 'z) go_flag" where
  "on_snd f = \<lparr>IsBoolFlag = IsBoolFlag f, Set = (\<lambda>v s. map_option (\<lambda>t. (fst s, t)) (Set f v (snd s)))\<rparr>"

definition CommandLine :: "(string \<rightharpoonup> 'z go_flag) \<Rightarrow> string \<rightharpoonup> (flags \<times> 'z) go_flag" where
  "CommandLine other n =
     (case map_of main_flags n of Some f \<Rightarrow> Some (on_fst f) | None \<Rightarrow> map_option on_snd (other n))"

section \<open>The program\<close>

datatype 'p main_outcome =
    Panicked
  | Usage flag_error
  | Main flags "'p outcome"

text \<open>Defining a flag twice panics.\<close>

definition main ::
  "('c, 'r) init_env \<Rightarrow> (string \<rightharpoonup> 'z go_flag) \<Rightarrow> 'z \<Rightarrow> string list \<Rightarrow> ('q, 'w, 'req) process_env \<Rightarrow>
    ('q, 'w, 'req) process main_outcome" where
  "main I other z args E =
     (if \<not> package_init I then Panicked
      else if list_ex (\<lambda>n. other n \<noteq> None) (map fst main_flags) then Panicked
      else (case flag_Parse (CommandLine other) args (default_flags, z) of
         Inl e \<Rightarrow> Usage e
       | Inr ((F, z'), rest) \<Rightarrow> Main F (main_process F E)))"

text \<open>The exit status, when \<^verbatim>\<open>mgr.Start\<close> returns \<open>stop\<close>.\<close>

definition exit_status :: "go_error option \<Rightarrow> 'p main_outcome \<Rightarrow> nat" where
  "exit_status stop r =
     (case r of
        Panicked \<Rightarrow> 2
      | Usage e \<Rightarrow> if e = ErrHelp then 0 else 2
      | Main F (Exit msg) \<Rightarrow> 1
      | Main F (Running p) \<Rightarrow> if stop \<noteq> None then 1 else 0)"

lemma main_Running: "main I other z args E = Main F (Running p) \<Longrightarrow> main_process F E = Running p"
  by (auto simp: main_def split: if_splits sum.splits)

section \<open>What a command line means\<close>

text \<open>
  The reference: a flag has the value of its last setting, or its default. \<open>valid_setting\<close> says that
  the flag exists and its value can be read.
\<close>

definition last_value :: "(string \<times> string) list \<Rightarrow> string \<Rightarrow> string option" where
  "last_value xs n = map_of (rev xs) n"

definition string_value :: "(string \<times> string) list \<Rightarrow> string \<Rightarrow> string \<Rightarrow> string" where
  "string_value xs n d = (case last_value xs n of Some v \<Rightarrow> v | None \<Rightarrow> d)"

definition parsed_value :: "(string \<Rightarrow> 'v option) \<Rightarrow> (string \<times> string) list \<Rightarrow> string \<Rightarrow> 'v \<Rightarrow> 'v" where
  "parsed_value parse xs n d = (case last_value xs n of Some v \<Rightarrow> (case parse v of Some x \<Rightarrow> x | None \<Rightarrow> d) | None \<Rightarrow> d)"

definition flags_of :: "(string \<times> string) list \<Rightarrow> flags" where
  "flags_of xs =
     \<lparr>fl_metricsAddr = string_value xs ''metrics-bind-address'' '':8080'',
      fl_enableLeaderElection = parsed_value ParseBool xs ''leader-elect'' False,
      fl_leaderElectionID = string_value xs ''leader-election-id'' ''2b09b108.gardener.cloud'',
      fl_probeAddr = string_value xs ''health-probe-bind-address'' '':8081'',
      fl_secureMetrics = parsed_value ParseBool xs ''metrics-secure'' False,
      fl_enableHTTP2 = parsed_value ParseBool xs ''enable-http2'' False,
      fl_interval = parsed_value ParseDuration xs ''interval'' (5 * 60 * 10 ^ 9),
      fl_prometheusAddress = string_value xs ''prometheus-address'' ''http://localhost:9090'',
      fl_availableBytesQuery = string_value xs ''metrics-available-bytes-query'' KubeletVolumeStatsAvailableBytes,
      fl_capacityBytesQuery = string_value xs ''metrics-capacity-bytes-query'' KubeletVolumeStatsCapacityBytes,
      fl_availableInodesQuery = string_value xs ''metrics-available-inodes-query'' KubeletVolumeStatsInodesFree,
      fl_capacityInodesQuery = string_value xs ''metrics-capacity-inodes-query'' KubeletVolumeStatsInodes,
      fl_autoscalerName = string_value xs ''autoscaler-name'' ''''\<rparr>"

definition valid_setting :: "string \<times> string \<Rightarrow> bool" where
  "valid_setting x \<longleftrightarrow>
     fst x \<in> set (map fst main_flags) \<and>
     (fst x \<in> set [''leader-elect'', ''metrics-secure'', ''enable-http2''] \<longrightarrow> ParseBool (snd x) \<noteq> None) \<and>
     (fst x = ''interval'' \<longrightarrow> ParseDuration (snd x) \<noteq> None)"

lemma last_value_snoc [simp]:
  "last_value [] n = None"
  "last_value (xs @ [x]) n = (if fst x = n then Some (snd x) else last_value xs n)"
  by (cases x; simp add: last_value_def)+

lemma apply_settings_snoc:
  "apply_settings formal (xs @ ys) s = (case apply_settings formal xs s of None \<Rightarrow> None | Some s' \<Rightarrow> apply_settings formal ys s')"
  by (induction xs arbitrary: s) (auto split: option.split)

lemma string_value_snoc [simp]: "string_value (xs @ [x]) n d = (if fst x = n then snd x else string_value xs n d)"
  by (simp add: string_value_def)

lemma parsed_value_snoc [simp]:
  "parsed_value p (xs @ [x]) n d = (if fst x = n then (case p (snd x) of Some y \<Rightarrow> y | None \<Rightarrow> d) else parsed_value p xs n d)"
  by (simp add: parsed_value_def)

lemma flags_of_snoc:
  assumes "valid_setting x"
  shows "\<exists>f. map_of main_flags (fst x) = Some f \<and> Set f (snd x) (flags_of xs) = Some (flags_of (xs @ [x]))"
proof -
  obtain n v where x: "x = (n, v)" by fastforce
  have v: "n \<in> set (map fst main_flags)" "n \<in> {''leader-elect'', ''metrics-secure'', ''enable-http2''} \<Longrightarrow> \<exists>b. ParseBool v = Some b"
    "n = ''interval'' \<Longrightarrow> \<exists>i. ParseDuration v = Some i"
    using assms by (simp_all add: valid_setting_def x)
  from v(1) show ?thesis unfolding main_flags_def x
    by (simp only: list.map fst_conv set_simps, elim insertE)
      (insert v(2,3), simp_all add: flags_of_def StringVar_def BoolVar_def DurationVar_def, (elim exE, simp)+)
qed

lemma apply_settings_flags_of:
  "list_all valid_setting xs \<Longrightarrow> apply_settings (map_of main_flags) xs default_flags = Some (flags_of xs)"
proof (induction xs rule: rev_induct)
  case Nil
  show ?case by (simp add: default_flags_def flags_of_def string_value_def parsed_value_def)
next
  case (snoc x xs)
  with flags_of_snoc [of x xs] show ?case by (auto simp: apply_settings_snoc)
qed

text \<open>The flags of other packages do not interfere.\<close>

lemma CommandLine_main: "map_of main_flags n = Some f \<Longrightarrow> CommandLine other n = Some (on_fst f)"
  by (simp add: CommandLine_def)

lemma spelled_CommandLine: "spelled (map_of main_flags) x as \<Longrightarrow> spelled (CommandLine other) x as"
  by (auto simp: spelled_def CommandLine_def spells_def on_fst_def split: option.splits)

lemma apply_settings_CommandLine:
  "apply_settings (map_of main_flags) xs F = Some F' \<Longrightarrow> apply_settings (CommandLine other) xs (F, z) = Some (F', z)"
  by (induction xs arbitrary: F) (auto simp: CommandLine_main on_fst_def split: option.splits)

text \<open>An argument that names no flag ends the program, whatever comes before and after it.\<close>

lemma flag_Parse_undefined:
  assumes "list_all2 (spelled formal) xs segs" "apply_settings formal xs s = Some s'"
    and "flag_name n" "formal n = None"
  shows "flag_Parse formal (concat segs @ (''--'' @ n) # rest) s = Inl (if n = ''help'' \<or> n = ''h'' then ErrHelp else NotDefined n)"
  using assms(1,2)
proof (induction arbitrary: s rule: list_all2_induct)
  case Nil
  with flag_name_hd [OF assms(3)] split_name_plain [OF assms(3)] assms(4) show ?case
    by (simp add: flag_Parse.simps parseOne_def Let_def)
next
  case (Cons x xs as segs)
  from Cons.prems obtain f s1 where f: "formal (fst x) = Some f" "Set f (snd x) s = Some s1" "apply_settings formal xs s1 = Some s'"
    by (auto split: option.splits)
  from parseOne_spelled [OF Cons.hyps(1) f(1,2)] Cons.IH [OF f(3)] show ?case
    by (simp add: flag_Parse.simps [of _ "as @ _"])
qed

lemma main_parses:
  assumes "package_init I" "\<forall>n \<in> set (map fst main_flags). other n = None"
  shows "main I other z args E =
    (case flag_Parse (CommandLine other) args (default_flags, z) of Inl e \<Rightarrow> Usage e | Inr ((F, z'), rest) \<Rightarrow> Main F (main_process F E))"
  using assms unfolding main_def list_ex_iff by (metis (no_types, lifting))

text \<open>
  C24: The command line means what it says. When the packages initialise and no other package
  defines a flag of the program, a command line that spells settings of its flags, each with one or
  two dashes, with an equals sign or a following argument, Boolean ones also without a value, runs
  the process with exactly these settings: every flag has the value it was set to last, and its
  default otherwise; the servers of the manager offer HTTP/2 only when it was enabled. An argument
  that names no flag ends the program before anything runs, with status 0 when it asks for help and
  2 otherwise.
\<close>

theorem command_line_settings:
  assumes "package_init I" "\<forall>n \<in> set (map fst main_flags). other n = None"
    and "list_all2 (spelled (map_of main_flags)) xs segs" "list_all valid_setting xs"
  shows "main I other z (concat segs) E = Main (flags_of xs) (main_process (flags_of xs) E) \<and>
    (parsed_value ParseBool xs ''enable-http2'' False \<or>
      (\<forall>c. list_all (\<lambda>opts. NextProtos (fold (\<lambda>opt c. opt c) opts c) = [''http/1.1''])
         [Metrics_TLSOpts (ctrl_Options (flags_of xs)), WebhookServer_TLSOpts (ctrl_Options (flags_of xs))])) \<and>
    (flag_name n \<and> CommandLine other n = None \<longrightarrow>
      exit_status stop (main I other z (concat segs @ (''--'' @ n) # rest) E) = (if n = ''help'' \<or> n = ''h'' then 0 else 2))"
proof (intro conjI impI)
  note m = main_parses [OF assms(1,2)]
  note ap = list_all2_mono [OF assms(3) spelled_CommandLine] apply_settings_CommandLine [OF apply_settings_flags_of [OF assms(4)]]
  show "main I other z (concat segs) E = Main (flags_of xs) (main_process (flags_of xs) E)"
    using flag_Parse_spelled [OF ap, of "[]" other z] by (simp add: m)
  show "parsed_value ParseBool xs ''enable-http2'' False \<or>
      (\<forall>c. list_all (\<lambda>opts. NextProtos (fold (\<lambda>opt c. opt c) opts c) = [''http/1.1''])
         [Metrics_TLSOpts (ctrl_Options (flags_of xs)), WebhookServer_TLSOpts (ctrl_Options (flags_of xs))])"
    by (simp add: ctrl_Options_def tlsOpts_def disableHTTP2_def flags_of_def)
  assume n: "flag_name n \<and> CommandLine other n = None"
  then have f: "flag_name n" "CommandLine other n = None" by simp_all
  show "exit_status stop (main I other z (concat segs @ (''--'' @ n) # rest) E) = (if n = ''help'' \<or> n = ''h'' then 0 else 2)"
  proof -
    have "flag_Parse (CommandLine other) (concat segs @ (''--'' @ n) # rest) (default_flags, z) =
        Inl (if n = ''help'' \<or> n = ''h'' then ErrHelp else NotDefined n)"
      by (rule flag_Parse_undefined [OF ap f])
    then show ?thesis by (simp add: m exit_status_def)
  qed
qed

definition example_init :: "(unit, string set) init_env" where
  "example_init = \<lparr>semver_NewConstraint = (\<lambda>s. Inr ()),
     Registry_Register = (\<lambda>d r. if fst d \<in> r then Inl (ErrorString ''duplicate'') else Inr (insert (fst d) r)),
     ctrlmetrics_Registry = {''workqueue_depth''}, clientgo_AddToScheme = None, Builder_AddToScheme = (\<lambda>_. None)\<rparr>"

lemma example_init_ok: "package_init example_init"
proof -
  have "registers (Registry_Register example_init) (\<lambda>r. r)" by (simp add: registers_def example_init_def)
  from metrics_init_succeeds [OF this, of "ctrlmetrics_Registry example_init"]
  have "metrics_init (Registry_Register example_init) (ctrlmetrics_Registry example_init) \<noteq> None"
    by (auto simp: example_init_def metric_vectors_def metric_defs)
  then show ?thesis
    by (simp add: package_init_def main_init_def AddToScheme_def constraintGreaterEqual134_def mustNewConstraint_def example_init_def)
qed

definition zap_flags :: "string \<rightharpoonup> string go_flag" where
  "zap_flags = [''zap-log-level'' \<mapsto> StringVar (\<lambda>v _. v)]"

text \<open>The example: leader election, an interval of 90 seconds given twice, and a name.\<close>

definition example_settings :: "(string \<times> string) list" where
  "example_settings = [(''interval'', ''1m''), (''leader-elect'', ''true''), (''interval'', ''90s''), (''autoscaler-name'', ''blue'')]"

definition example_args :: "string list list" where
  "example_args = [[''--interval=1m''], [''--leader-elect''], [''-interval'', ''90s''], [''--autoscaler-name=blue'']]"

lemma example_settings_spelled: "list_all2 (spelled (map_of main_flags)) example_settings example_args"
  by (simp add: example_settings_def example_args_def spelled_def flag_name_def spells_def main_flags_def
      StringVar_def BoolVar_def DurationVar_def)

lemma example_durations: "ParseDuration ''1m'' = Some (60 * 10 ^ 9)" "ParseDuration ''90s'' = Some (90 * 10 ^ 9)"
  using ParseDuration_unit [of "''m''" "60 * 10 ^ 9" 1] ParseDuration_unit [of "''s''" "10 ^ 9" 90]
  by (simp_all add: unitMap_def show_nat.simps char_of_def bit_0)

lemma example_settings_valid: "list_all valid_setting example_settings"
  by (simp add: example_settings_def valid_setting_def main_flags_def example_durations ParseBool_def)

lemma example_flags_of:
  "fl_interval (flags_of example_settings) = 90 * 10 ^ 9" "fl_enableLeaderElection (flags_of example_settings)"
  "fl_autoscalerName (flags_of example_settings) = ''blue''"
  "fl_prometheusAddress (flags_of example_settings) = ''http://localhost:9090''"
  by (simp_all add: flags_of_def parsed_value_def string_value_def last_value_def example_settings_def example_durations ParseBool_def)

lemma zap_flags_other: "\<forall>n \<in> set (map fst main_flags). zap_flags n = None"
  by (simp add: main_flags_def zap_flags_def)

lemma example_main_runs:
  "\<exists>F p. main example_init zap_flags ''info'' (concat example_args) example_process_env = Main F (Running p) \<and> 0 < fl_interval F"
proof -
  have "flag_Parse (CommandLine zap_flags) (concat example_args @ []) (default_flags, ''info'') = Inr ((flags_of example_settings, ''info''), [])"
    by (rule flag_Parse_spelled [OF list_all2_mono [OF example_settings_spelled spelled_CommandLine]
          apply_settings_CommandLine [OF apply_settings_flags_of [OF example_settings_valid]]]) simp_all
  moreover have "\<exists>p. main_process (flags_of example_settings) example_process_env = Running p"
    using example_flags_of(4) by (simp add: main_process_iff example_process_env_def scales_ok_def)
  ultimately show ?thesis using example_flags_of(1) by (auto simp: main_parses [OF example_init_ok zap_flags_other])
qed

theorem command_line_settings_witness:
  "\<exists>F. main example_init zap_flags ''info'' (concat example_args) example_process_env = Main F (main_process F example_process_env) \<and>
     fl_interval F = 90 * 10 ^ 9 \<and> fl_enableLeaderElection F \<and> fl_autoscalerName F = ''blue'' \<and>
     fl_prometheusAddress F = ''http://localhost:9090''"
  using command_line_settings [OF example_init_ok zap_flags_other example_settings_spelled example_settings_valid,
      of "''info''" example_process_env] example_flags_of by blast

end
