(* ===== verification/Policy_Webhook.thy ===== *)
theory Policy_Webhook
  imports Utils Example_Cluster
begin

text \<open>
  \<^verbatim>\<open>api/autoscaling/v1alpha1/persistentvolumeclaimautoscaler_webhook.go\<close>: the validating
  webhook. \<^verbatim>\<open>IsValidPathSegmentName\<close> and \<^verbatim>\<open>IsDNS1123Subdomain\<close> are library functions
  that return the list of what is wrong with a name; they are parameters. An error of the list
  is a \<open>field_error\<close>. \<^verbatim>\<open>resource.MustParse\<close> panics on a malformed literal, which is
  \<open>None\<close>.
\<close>

datatype field_error = Required string | Invalid string string string

record name_validators =
  IsValidPathSegmentName :: "string \<Rightarrow> string list"
  IsDNS1123Subdomain :: "string \<Rightarrow> string list"

definition validateVolumePolicyMatchName :: "name_validators \<Rightarrow> string \<Rightarrow> string list" where
  "validateVolumePolicyMatchName V matchName =
     (let replaced = ReplaceAll matchName (CHR ''*'') ''a'' in IsDNS1123Subdomain V replaced)"

text \<open>The checks of one policy; the text of a duration (\<^verbatim>\<open>Duration.String\<close>) is a parameter.\<close>

definition validateVolumePolicy ::
  "'q quantity_ops \<Rightarrow> name_validators \<Rightarrow> (int \<Rightarrow> string) \<Rightarrow> 'q \<Rightarrow> nat \<Rightarrow> 'q VolumePolicy \<Rightarrow> field_error list" where
  "validateVolumePolicy Q V durationString minStep i policy =
     (let policyPath = ''spec.volumePolicies['' @ show_nat i @ '']'' in
      map (Invalid (policyPath @ ''.match.name'') (match_name (vp_match policy)))
          (validateVolumePolicyMatchName V (match_name (vp_match policy))) @
      (if Cmp Q (MaxCapacity policy) (ZeroQuantity Q) \<le> 0
       then [Invalid (policyPath @ ''.maxCapacity'') (QuantityString Q (MaxCapacity policy)) ''must be > 0''] else []) @
      (case ScaleUp policy of None \<Rightarrow> [] | Some r \<Rightarrow>
         (case MinStepAbsolute r of None \<Rightarrow> [] | Some m \<Rightarrow>
            if Cmp Q m minStep < 0
            then [Invalid (policyPath @ ''.scaleUp.minStepAbsolute'') (QuantityString Q m) ''must be >= 1Gi''] else [])) @
      (case ScaleUp policy of None \<Rightarrow> [] | Some r \<Rightarrow>
         (case CooldownDuration r of None \<Rightarrow> [] | Some d \<Rightarrow>
            if d \<le> 0 then [Invalid (policyPath @ ''.scaleUp.cooldownDuration'') (durationString d) ''must be > 0s''] else [])))"

definition validateVolumePolicies ::
  "'q quantity_ops \<Rightarrow> name_validators \<Rightarrow> (int \<Rightarrow> string) \<Rightarrow> 'q VolumePolicy list \<Rightarrow> field_error list option" where
  "validateVolumePolicies Q V durationString policies =
     (case ParseQuantity Q ''1Gi'' of
        Inl _ \<Rightarrow> None
      | Inr minStep \<Rightarrow>
          Some (concat (map (\<lambda>(i, policy). validateVolumePolicy Q V durationString minStep i policy)
                            (enumerate 0 policies))))"

definition validateResourceSpec ::
  "'q quantity_ops \<Rightarrow> name_validators \<Rightarrow> (int \<Rightarrow> string) \<Rightarrow> 'q pvca \<Rightarrow> field_error list option" where
  "validateResourceSpec Q V durationString pvca =
     (let ref = TargetRef (Spec pvca);
          kindErrs = (if ref_kind ref = '''' then [Required ''spec.targetRef.kind'']
            else map (Invalid ''spec.targetRef.kind'' (ref_kind ref)) (IsValidPathSegmentName V (ref_kind ref)));
          nameErrs = (if ref_name ref = '''' then [Required ''spec.targetRef.name'']
            else map (Invalid ''spec.targetRef.name'' (ref_name ref)) (IsValidPathSegmentName V (ref_name ref)));
          versionErrs = (if ref_apiVersion ref = '''' then [Required ''spec.targetRef.apiVersion''] else [])
      in map_option (\<lambda>policyErrs. kindErrs @ nameErrs @ versionErrs @ policyErrs)
           (validateVolumePolicies Q V durationString (VolumePolicies (Spec pvca))))"

text \<open>\<open>ToAggregate\<close>: no error when the list is empty. A deletion is always admitted.\<close>

definition ValidateCreate ::
  "'q quantity_ops \<Rightarrow> name_validators \<Rightarrow> (int \<Rightarrow> string) \<Rightarrow> 'q pvca \<Rightarrow> field_error list option option" where
  "ValidateCreate Q V durationString obj =
     map_option (\<lambda>errs. if errs = [] then None else Some errs) (validateResourceSpec Q V durationString obj)"

definition ValidateUpdate ::
  "'q quantity_ops \<Rightarrow> name_validators \<Rightarrow> (int \<Rightarrow> string) \<Rightarrow> 'q pvca \<Rightarrow> 'q pvca \<Rightarrow> field_error list option option" where
  "ValidateUpdate Q V durationString oldObj newObj =
     map_option (\<lambda>errs. if errs = [] then None else Some errs) (validateResourceSpec Q V durationString newObj)"

definition ValidateDelete :: "'q pvca \<Rightarrow> field_error list option option" where
  "ValidateDelete obj = Some None"

section \<open>What validation guarantees\<close>

text \<open>
  Documented behaviour of \<^verbatim>\<open>IsDNS1123Subdomain\<close>: an accepted name consists of lower case
  alphanumeric characters, \<open>-\<close> and \<open>.\<close>.
\<close>

definition dns_char :: "char \<Rightarrow> bool" where
  "dns_char c \<longleftrightarrow> c \<in> set ''abcdefghijklmnopqrstuvwxyz0123456789-.''"

definition dns1123_laws :: "name_validators \<Rightarrow> bool" where
  "dns1123_laws V \<longleftrightarrow> (\<forall>s. IsDNS1123Subdomain V s = [] \<longrightarrow> s \<noteq> '''' \<and> list_all dns_char s)"

definition policy_valid :: "('q \<Rightarrow> rat) \<Rightarrow> name_validators \<Rightarrow> 'q VolumePolicy \<Rightarrow> bool" where
  "policy_valid amount V p \<longleftrightarrow>
     validateVolumePolicyMatchName V (match_name (vp_match p)) = [] \<and> 0 < amount (MaxCapacity p) \<and>
     (\<forall>r m. ScaleUp p = Some r \<longrightarrow> MinStepAbsolute r = Some m \<longrightarrow> 2 ^ 30 \<le> amount m) \<and>
     (\<forall>r d. ScaleUp p = Some r \<longrightarrow> CooldownDuration r = Some d \<longrightarrow> 0 < d)"

lemma validateVolumePolicy_valid:
  assumes "quantity_laws Q amount" "amount minStep = 2 ^ 30"
  shows "validateVolumePolicy Q V ds minStep i p = [] \<longleftrightarrow> policy_valid amount V p"
  by (auto simp: validateVolumePolicy_def policy_valid_def Let_def quantity_lawsD(2,7) [OF assms(1)] assms(2)
      split: option.splits if_splits)

lemma validateVolumePolicies_valid:
  assumes "quantity_laws Q amount"
  shows "\<exists>errs. validateVolumePolicies Q V ds ps = Some errs \<and> (errs = [] \<longleftrightarrow> (\<forall>p \<in> set ps. policy_valid amount V p))"
proof -
  obtain minStep where m: "ParseQuantity Q ''1Gi'' = Inr minStep" "amount minStep = 2 ^ 30"
    using quantity_lawsD(9) [OF assms] by blast
  have "(\<forall>x \<in> set (enumerate 0 ps). P (snd x)) \<longleftrightarrow> (\<forall>p \<in> set ps. P p)" for P
    by (subst map_snd_enumerate [of 0 ps, symmetric]) (simp only: set_map ball_simps)
  from this [of "policy_valid amount V"] show ?thesis
    by (simp add: validateVolumePolicies_def m validateVolumePolicy_valid [OF assms m(2)] case_prod_beta)
qed

lemma dns_char_starred: "dns_char c \<Longrightarrow> starred c"
  unfolding plain_def by (rule ccontr) (auto simp: dns_char_def)

lemma match_name_starred:
  assumes "dns1123_laws V" "validateVolumePolicyMatchName V n = []"
  shows "list_all starred n"
proof -
  have "list_all dns_char (ReplaceAll n (CHR ''*'') ''a'')"
    using assms by (simp add: dns1123_laws_def validateVolumePolicyMatchName_def Let_def)
  then show ?thesis
    by (fastforce simp: ReplaceAll_def list_all_iff dest: dns_char_starred split: if_splits)
qed

text \<open>
  C25: The webhook admits exactly the autoscalers it means to: validation never panics, and
  creating (and equally updating) is admitted if and only if kind, name and API version of the
  target are given and well-formed, and every policy has a valid match name, a positive maximum
  capacity, a minimal step of at least 1 GiB and a positive cooldown where these are set.
\<close>

theorem webhook_admits_iff:
  assumes "quantity_laws Q amount"
  shows "ValidateUpdate Q V ds old obj = ValidateCreate Q V ds obj \<and> ValidateCreate Q V ds obj \<noteq> None \<and>
    (ValidateCreate Q V ds obj = Some None \<longleftrightarrow>
      (let ref = TargetRef (Spec obj) in
       ref_kind ref \<noteq> '''' \<and> IsValidPathSegmentName V (ref_kind ref) = [] \<and>
       ref_name ref \<noteq> '''' \<and> IsValidPathSegmentName V (ref_name ref) = [] \<and>
       ref_apiVersion ref \<noteq> '''' \<and> (\<forall>p \<in> set (VolumePolicies (Spec obj)). policy_valid amount V p)))"
  using validateVolumePolicies_valid [OF assms, of V ds "VolumePolicies (Spec obj)"]
  by (auto simp: ValidateUpdate_def ValidateCreate_def validateResourceSpec_def Let_def)

definition example_validators :: name_validators where
  "example_validators = \<lparr>IsValidPathSegmentName = (\<lambda>s. if CHR ''/'' \<in> set s then [''may not contain /''] else []),
     IsDNS1123Subdomain = (\<lambda>s. if s \<noteq> '''' \<and> list_all dns_char s then [] else [''a lowercase RFC 1123 subdomain'']) \<rparr>"

definition example_object :: "int pvca" where
  "example_object = \<lparr>pvca_namespace = ''ns'', pvca_name = ''pvca'',
     Spec = \<lparr>AutoscalerName = '''', TargetRef = \<lparr>ref_kind = ''StatefulSet'', ref_name = ''db'', ref_apiVersion = ''apps/v1''\<rparr>,
       VolumePolicies = [example_policy ''data-*'' (2 ^ 40)]\<rparr>,
     Status = \<lparr>VolumeRecommendations = [], Conditions = []\<rparr>\<rparr>"

lemma example_validators_laws: "dns1123_laws example_validators"
  by (simp add: dns1123_laws_def example_validators_def)

lemma example_policy_valid: "policy_valid of_int example_validators (example_policy ''data-*'' (2 ^ 40))"
  by (simp add: policy_valid_def example_policy_def example_rules_def validateVolumePolicyMatchName_def ReplaceAll_def
      example_validators_def dns_char_def)

theorem webhook_admits_iff_witness:
  "ValidateCreate byte_quantities example_validators show_int example_object = Some None"
proof -
  have "IsValidPathSegmentName example_validators ''StatefulSet'' = []" "IsValidPathSegmentName example_validators ''db'' = []"
    by (simp_all add: example_validators_def)
  then show ?thesis
    using webhook_admits_iff [OF byte_quantities_laws, of example_validators show_int example_object example_object]
      example_policy_valid by (simp add: example_object_def Let_def)
qed

text \<open>
  C26: For policies that passed validation, selecting the policy of a PVC never fails and
  returns the first policy whose pattern, read as a glob in which \<open>*\<close> stands for any
  sequence of characters other than \<open>/\<close>, matches the name: an accepted match name contains no
  character with another special meaning to \<^verbatim>\<open>path.Match\<close>.
\<close>

theorem validated_policy_selection:
  assumes "quantity_laws Q amount" "dns1123_laws V" "validateVolumePolicies Q V ds policies = Some []"
  shows "GetVolumePolicy quote pvcName policies = Inr (find (\<lambda>p. glob (match_name (vp_match p)) pvcName) policies)"
proof (rule GetVolumePolicy_plain)
  have "\<forall>p \<in> set policies. policy_valid amount V p"
    using validateVolumePolicies_valid [OF assms(1), of V ds policies] assms(3) by auto
  then show "list_all (\<lambda>p. list_all starred (match_name (vp_match p))) policies"
    using match_name_starred [OF assms(2)] unfolding list_all_iff [of _ policies] policy_valid_def by blast
qed

theorem validated_policy_selection_witness:
  "GetVolumePolicy (\<lambda>s. s) ''data-0'' [example_policy ''data-*'' (2 ^ 40)] = Inr (Some (example_policy ''data-*'' (2 ^ 40)))"
proof -
  have "validateVolumePolicies byte_quantities example_validators show_int [example_policy ''data-*'' (2 ^ 40)] = Some []"
    using validateVolumePolicies_valid [OF byte_quantities_laws, of example_validators show_int "[example_policy ''data-*'' (2 ^ 40)]"]
    example_policy_valid by auto
  from validated_policy_selection [OF byte_quantities_laws example_validators_laws this, of "\<lambda>s. s" "''data-0''"]
  show ?thesis by (simp add: example_policy_def)
qed

end
