(* ===== verification/Runner_Progress.thy ===== *)
theory Runner_Progress
  imports Runner_Safety
begin

text \<open>
  What the periodic runner achieves and why it acts: exactly when the pass over a claim grows it
  or recovers a failed expansion, that every growth of a whole run is explained by metrics above
  a threshold, that the cooldown starts with a resize, and that the status stops changing when
  nothing changes. The contracts are again in the calculus of \<open>Kube_Client\<close>; the exact
  characterisations follow the run of the handlers branch by branch.
\<close>

section \<open>When a claim grows\<close>

text \<open>No patch of the claim with the given lock has been sent.\<close>

definition unpatched :: "bool \<Rightarrow> 'q pvc \<Rightarrow> ('q, 'w) rstate \<Rightarrow> bool" where
  "unpatched lock p s \<longleftrightarrow> (\<forall>new. PatchPVC lock p new \<notin> set (effects s))"

lemma unpatched_after:
  assumes "valid m E R" "run_state m s = (x, s')" "unpatched lock p s" "\<And>new. \<not> E (PatchPVC lock p new)"
  shows "unpatched lock p s'"
  using valid_effects [OF assms(1,2)] assms(3,4) unfolding unpatched_def by blast

lemma unpatched_simps [simp]:
  "unpatched lock p (s\<lparr>world := w\<rparr>) = unpatched lock p s"
  "unpatched lock p \<lparr>world = w, effects = es @ [GaugeSet m ls v]\<rparr> = unpatched lock p \<lparr>world = w, effects = es\<rparr>"
  "unpatched lock p (s\<lparr>effects := effects s @ [GaugeSet m ls v]\<rparr>) = unpatched lock p s"
  by (simp_all add: unpatched_def)

definition over_threshold :: "'q VolumePolicy \<Rightarrow> 'q VolumeRecommendation \<Rightarrow> bool" where
  "over_threshold policy vr \<longleftrightarrow>
     (\<exists>rules threshold. ScaleUp policy = Some rules \<and> UtilizationThresholdPercent rules = Some threshold \<and>
        (threshold < deref0 (UsedSpacePercent (Current vr)) \<or> threshold < deref0 (UsedInodesPercent (Current vr))))"

definition cooling_down :: "('q, 'w) client \<Rightarrow> 'q ScalingRules \<Rightarrow> 'q VolumeRecommendation \<Rightarrow> 'w \<Rightarrow> bool" where
  "cooling_down c rules vr w \<longleftrightarrow>
     (\<exists>d t. CooldownDuration rules = Some d \<and> LastResizeTime vr = Some t \<and> Now c w < t + d)"

lemma run_isInCooldown:
  assumes "ResizeStrategy rules \<noteq> OffVolumeResizeStrategy"
  shows "\<exists>agg'. run_state (isInCooldown c p rules vr agg) s = ((cooling_down c rules vr (world s), agg'), s)"
  using assms by (auto simp: isInCooldown_def cooling_down_def run_simps split: option.split)

lemma scalingReason_over:
  assumes "rules_complete policy"
  shows "\<exists>reason b. scalingReason Q p policy vr = Some (reason, b) \<and>
    (reason = ScalingReasonSpaceThreshold \<or> reason = ScalingReasonInodesThreshold \<longleftrightarrow> over_threshold policy vr)"
  using assms
  by (auto simp: scalingReason_def rules_complete_def over_threshold_def ScalingReasonSpaceThreshold_def
      ScalingReasonInodesThreshold_def split: option.splits)

text \<open>Sending the patch: \<open>resizePVC\<close> always does, \<open>resize_step\<close> unless \<open>Off\<close> or cooling down.\<close>

lemma resizePVC_patches:
  assumes "run_state (resizePVC Q c p reason q vr agg) s = (x, s')" "pvc_requests p = Some m"
  shows "PatchPVC False p (resized Q p m q) \<in> set (effects s')"
  using assms
  by (auto simp: resizePVC_def run_simps Let_def patch_pvc_def resized_def split: prod.splits sum.splits)

lemma resize_step_patches_iff:
  assumes "run_state (resize_step L c p policy reason q vr a) s = (x, s')" "unpatched False p s"
    and "ScaleUp policy = Some rules" "pvc_requests p = Some m"
  shows "(\<exists>new. PatchPVC False p new \<in> set (effects s')) \<longleftrightarrow>
      ResizeStrategy rules \<noteq> OffVolumeResizeStrategy \<and> \<not> cooling_down c rules vr (world s)" (is ?iff)
    and "(\<exists>new. PatchPVC False p new \<in> set (effects s')) \<Longrightarrow> PatchPVC False p (resized (lb_quantity L) p m q) \<in> set (effects s')"
proof -
  have "?iff \<and> ((\<exists>new. PatchPVC False p new \<in> set (effects s')) \<longrightarrow> PatchPVC False p (resized (lb_quantity L) p m q) \<in> set (effects s'))"
  proof (cases "ResizeStrategy rules = OffVolumeResizeStrategy")
    case True
    then show ?thesis using assms by (auto simp: resize_step_def run_simps unpatched_def)
  next
    case False
    from run_isInCooldown [OF this] obtain agg where
      cd: "run_state (isInCooldown c p rules vr (ac_resizing a)) s = ((cooling_down c rules vr (world s), agg), s)" by blast
    show ?thesis
    proof (cases "cooling_down c rules vr (world s)")
      case True
      then show ?thesis using assms False cd by (auto simp: resize_step_def run_simps Let_def unpatched_def)
    next
      case c: False
      obtain y s1 where r: "run_state (resizePVC (lb_quantity L) c p reason q vr agg) s = (y, s1)" by fastforce
      then have "s' = s1" using assms(1,3) False cd c by (simp add: resize_step_def run_simps Let_def)
      with resizePVC_patches [OF r assms(4)] False c show ?thesis by blast
    qed
  qed
  then show ?iff "(\<exists>new. PatchPVC False p new \<in> set (effects s')) \<Longrightarrow> PatchPVC False p (resized (lb_quantity L) p m q) \<in> set (effects s')"
    by blast+
qed

text \<open>
  Sizes and rules for which the target size is exact: up to 4 PiB, a step of at most 100 percent
  and a minimal step of at least 1 GiB.
\<close>

definition plain_rules :: "('q \<Rightarrow> rat) \<Rightarrow> 'q ScalingRules \<Rightarrow> bool" where
  "plain_rules amount rules \<longleftrightarrow> UtilizationThresholdPercent rules \<noteq> None \<and>
     (case (StepPercent rules, MinStepAbsolute rules) of
        (Some step, Some minStep) \<Rightarrow> 0 \<le> step \<and> step \<le> 100 \<and> realistic_size amount minStep \<and> 2 ^ 30 \<le> amount minStep
      | _ \<Rightarrow> False)"

lemma plain_rules_complete: "plain_rules amount rules \<Longrightarrow> ScaleUp policy = Some rules \<Longrightarrow> rules_complete policy"
  by (auto simp: plain_rules_def rules_complete_def split: option.splits)

lemma recommendResize_world: "run_state (recommendResize Q p reason policy vr agg) s = (x, s') \<Longrightarrow> world s' = world s"
  by (auto simp: recommendResize_def record_threshold_def recordMaxCapacityReached_def run_simps Let_def
      split: option.splits if_splits)

lemma recommendResize_plain:
  assumes "quantity_laws Q amount" "realistic_size amount (specSize Q p)" "realistic_size amount (MaxCapacity policy)"
    and "ScaleUp policy = Some rules" "plain_rules amount rules"
    and "run_state (recommendResize Q p reason policy vr agg) s = (x, s')"
  shows "\<exists>t agg'. x = Some (t, agg') \<and>
    (t \<noteq> None \<longleftrightarrow> (reason = ScalingReasonSpaceThreshold \<or> reason = ScalingReasonInodesThreshold) \<and> \<not> isAtMaxCapacity Q p policy)"
proof -
  obtain threshold step minStep where r: "UtilizationThresholdPercent rules = Some threshold" "StepPercent rules = Some step" "0 \<le> step" "step \<le> 100"
    "MinStepAbsolute rules = Some minStep" "realistic_size amount minStep" "2 ^ 30 \<le> amount minStep"
    using assms(5) by (auto simp: plain_rules_def split: option.splits)
  show ?thesis
  proof (cases "reason = ScalingReasonSpaceThreshold \<or> reason = ScalingReasonInodesThreshold")
    case True
    with recommendResize_headroom [OF assms(1-4) r True assms(6)] show ?thesis by blast
  next
    case False
    then show ?thesis using assms(4,6) r(1) by (auto simp: recommendResize_def run_simps)
  qed
qed

lemma grow_step_patches_iff:
  assumes "run_state (grow_step L c p policy reason vr a) s = (x, s')" "unpatched False p s"
    and "quantity_laws (lb_quantity L) amount" "realistic_size amount (specSize (lb_quantity L) p)" "realistic_size amount (MaxCapacity policy)"
    and "ScaleUp policy = Some rules" "plain_rules amount rules" "pvc_requests p \<noteq> None"
  shows "(\<exists>new. PatchPVC False p new \<in> set (effects s')) \<longleftrightarrow>
    (reason = ScalingReasonSpaceThreshold \<or> reason = ScalingReasonInodesThreshold) \<and> \<not> isAtMaxCapacity (lb_quantity L) p policy \<and>
    ResizeStrategy rules \<noteq> OffVolumeResizeStrategy \<and> \<not> cooling_down c rules vr (world s)"
proof -
  let ?m = "recommendResize (lb_quantity L) p reason policy vr (ac_resizing a)"
  obtain y s1 where r: "run_state ?m s = (y, s1)" by fastforce
  from recommendResize_plain [OF assms(3-7) r] obtain t agg where t: "y = Some (t, agg)"
    "t \<noteq> None \<longleftrightarrow> (reason = ScalingReasonSpaceThreshold \<or> reason = ScalingReasonInodesThreshold) \<and> \<not> isAtMaxCapacity (lb_quantity L) p policy"
    by blast
  have u: "unpatched False p s1"
    using unpatched_after [OF valid_recommendResize [OF assms(3) realistic_size_ok [OF assms(4)] realistic_size_ok [OF assms(5)]] r assms(2)]
    by simp
  have w: "world s1 = world s" by (rule recommendResize_world [OF r])
  show ?thesis
  proof (cases t)
    case None
    then have "s' = s1" using assms(1) r t(1) by (simp add: grow_step_def run_simps)
    with u t(2) None show ?thesis by (auto simp: unpatched_def)
  next
    case (Some q)
    then have "run_state (resize_step L c p policy reason q vr (a\<lparr>ac_resizing := agg\<rparr>)) s1 = (x, s')"
      using assms(1) r t(1) by (simp add: grow_step_def run_simps)
    from resize_step_patches_iff(1) [OF this u assms(6)] assms(8) t(2) Some w show ?thesis by auto
  qed
qed

lemma scale_step_patches_iff:
  assumes "run_state (scale_step L r pvca p policy vr a) s = (x, s')" "unpatched False p s"
    and "quantity_laws (lb_quantity L) amount" "keeps_identity (rn_client r)" "sane_claim (lb_quantity L) amount p"
    and "realistic_size amount (specSize (lb_quantity L) p)" "realistic_size amount (MaxCapacity policy)"
    and "ScaleUp policy = Some rules" "plain_rules amount rules"
  shows "(\<exists>new. PatchPVC False p new \<in> set (effects s')) \<longleftrightarrow>
    \<not> ShouldRecover p \<and> over_threshold policy vr \<and> \<not> resizing_now (lb_quantity L) p \<and> \<not> isAtMaxCapacity (lb_quantity L) p policy \<and>
    ResizeStrategy rules \<noteq> OffVolumeResizeStrategy \<and> \<not> cooling_down (rn_client r) rules vr (world s)"
proof (cases "ShouldRecover p")
  case True
  have p: "size_ok amount (statusSize (lb_quantity L) p)" "size_ok amount (specSize (lb_quantity L) p)"
    using assms(5) by (auto simp: sane_claim_def)
  obtain y s1 where y: "run_state (Recover (lb_quantity L) (rn_recoverer r) p vr) s = (y, s1)" by fastforce
  have "unpatched False p s1"
    by (rule unpatched_after [OF valid_Recover [OF assms(3) p assms(4)] y assms(2)]) (simp add: recover_effect_def)
  moreover have "s' = s \<or> s' = s1" using assms(1) True y by (auto simp: scale_step_def run_simps split: if_splits)
  ultimately show ?thesis using True assms(2) by (auto simp: unpatched_def)
next
  case False
  from scalingReason_over [OF plain_rules_complete [OF assms(9,8)]] obtain reason b where
    sr: "scalingReason (lb_quantity L) p policy vr = Some (reason, b)"
    "reason = ScalingReasonSpaceThreshold \<or> reason = ScalingReasonInodesThreshold \<longleftrightarrow> over_threshold policy vr" by blast
  obtain inProgress agg where ip: "isResizeInProgress (lb_quantity L) p reason (ac_resizing a) = (inProgress, agg)" by fastforce
  then have now: "inProgress = resizing_now (lb_quantity L) p" using isResizeInProgress_now by (metis fst_conv)
  define s1 where "s1 = s\<lparr>effects := effects s @ [GaugeSet PVCAtMaxCapacity [pvc_namespace p, pvc_name p, pvca_name pvca] (if b then 1 else 0)]\<rparr>"
  have u: "unpatched False p s1" "world s1 = world s" using assms(2) by (simp_all add: s1_def)
  show ?thesis
  proof (cases inProgress)
    case True
    then have "s' = s1" using assms(1) False sr ip by (simp add: scale_step_def run_simps s1_def)
    with u True now show ?thesis by (auto simp: unpatched_def)
  next
    case p: False
    then have "run_state (grow_step L (rn_client r) p policy reason vr (a\<lparr>ac_resizing := agg\<rparr>)) s1 = (x, s')"
      using assms(1) False sr ip by (simp add: scale_step_def run_simps s1_def)
    from grow_step_patches_iff [OF this u(1) assms(3,6,7,8,9)] assms(5) sr(2) False p now u(2) show ?thesis
      by (auto simp: sane_claim_def)
  qed
qed

text \<open>A claim that reaches \<open>scale_step\<close>: one owner, an answer of the server, a policy, validated, fresh metrics.\<close>

lemma run_reconcile_scale:
  assumes "length (owners (NamespacedName_String (pvc_key p0))) \<le> 1"
    and "Get_PVC (rn_client r) (pvc_key p0) (world s) = (Inr p, w)"
    and "GetVolumePolicy (lb_quote L) (pvc_name p) (VolumePolicies (Spec pvca)) = Inr (Some policy)"
    and "run_state (validatePVC (lb_quantity L) (rn_client r) p policy) (s\<lparr>world := w\<rparr>) = (None, s1)"
    and "updateVolumeRecommendationForPVC (lb_quantity L) (ac_recs a) p (md (pvc_key p0)) = Inr vr"
  shows "run_state (reconcile_pvc L r pvca owners md a p0) s = run_state (scale_step L r pvca p policy vr a) s1"
    and "effects s1 = effects s"
proof -
  have "valid (validatePVC (lb_quantity L) (rn_client r) p policy) (\<lambda>_. False) (\<lambda>_. True)"
    by (rule valid_validatePVC) simp
  from validD(2) [OF this assms(4)] obtain es where "effects s1 = effects s @ es" "list_all (\<lambda>_. False) es" by auto
  then show "effects s1 = effects s" by (cases es) auto
  have "\<not> length (owners (NamespacedName_String (pvc_key p0))) > 1" using assms(1) by simp
  with assms(2-5) show "run_state (reconcile_pvc L r pvca owners md a p0) s = run_state (scale_step L r pvca p policy vr a) s1"
    by (simp add: reconcile_pvc_def run_simps Let_def)
qed

text \<open>
  C2: Exactly when a claim grows. Take a claim that one autoscaler selects, that the server
  answers with, that has a policy, passes validation and has fresh metrics, with sizes up to
  4 PiB, a step of at most 100 percent and a minimal step of at least 1 GiB. Its pass sends a
  growth patch if and only if its expansion has not failed, its used space or its used inodes
  exceed the threshold, no resize is in progress, the maximum capacity leaves 1 GiB, the
  strategy is not \<open>Off\<close>, and the cooldown since its last recorded resize has elapsed.
\<close>

theorem growth_iff:
  assumes "quantity_laws (lb_quantity L) amount" "sane_client (lb_quantity L) amount (rn_client r)"
    and "length (owners (NamespacedName_String (pvc_key p0))) \<le> 1"
    and "Get_PVC (rn_client r) (pvc_key p0) (world s) = (Inr p, w)"
    and "GetVolumePolicy (lb_quote L) (pvc_name p) (VolumePolicies (Spec pvca)) = Inr (Some policy)"
    and "run_state (validatePVC (lb_quantity L) (rn_client r) p policy) (s\<lparr>world := w\<rparr>) = (None, s1)"
    and "updateVolumeRecommendationForPVC (lb_quantity L) (ac_recs a) p (md (pvc_key p0)) = Inr vr"
    and "realistic_size amount (specSize (lb_quantity L) p)" "realistic_size amount (MaxCapacity policy)"
    and "ScaleUp policy = Some rules" "plain_rules amount rules" "unpatched False p s"
    and "run_state (reconcile_pvc L r pvca owners md a p0) s = (x, s')"
  shows "(\<exists>new. PatchPVC False p new \<in> set (effects s')) \<longleftrightarrow>
    \<not> ShouldRecover p \<and> over_threshold policy vr \<and> \<not> resizing_now (lb_quantity L) p \<and> \<not> isAtMaxCapacity (lb_quantity L) p policy \<and>
    ResizeStrategy rules \<noteq> OffVolumeResizeStrategy \<and> \<not> cooling_down (rn_client r) rules vr (world s1)"
proof -
  note run = run_reconcile_scale [where md = md and a = a and owners = owners and pvca = pvca and L = L, OF assms(3-7)]
  have "run_state (scale_step L r pvca p policy vr a) s1 = (x, s')" using run(1) assms(13) by simp
  moreover have "unpatched False p s1" using assms(12) run(2) by (simp add: unpatched_def)
  moreover have "sane_claim (lb_quantity L) amount p" by (rule sane_clientD(2) [OF assms(2,4)])
  ultimately show ?thesis
    using scale_step_patches_iff [OF _ _ assms(1) sane_clientD(1) [OF assms(2)] _ assms(8-11)] by blast
qed

section \<open>How often a claim grows\<close>

lemma valid_recommendResize_step:
  assumes "quantity_laws Q amount" "realistic_size amount (specSize Q p)" "realistic_size amount (MaxCapacity policy)"
    and "ScaleUp policy = Some rules" "plain_rules amount rules" "MinStepAbsolute rules = Some minStep"
  shows "valid (recommendResize Q p reason policy vr agg) (note_effect p)
    (\<lambda>x. \<forall>q agg'. x = Some (Some q, agg') \<longrightarrow> \<not> isAtMaxCapacity Q p policy \<and>
       min (amount (specSize Q p) + amount minStep) (amount (MaxCapacity policy)) \<le> amount q)"
proof -
  note ok = realistic_size_ok [OF assms(2)] realistic_size_ok [OF assms(3)]
  obtain threshold step where r: "UtilizationThresholdPercent rules = Some threshold" "StepPercent rules = Some step" "0 \<le> step" "step \<le> 100"
    "MinStepAbsolute rules = Some minStep" "realistic_size amount minStep" "2 ^ 30 \<le> amount minStep"
    using assms(5,6) by (auto simp: plain_rules_def split: option.splits)
  have "\<not> isAtMaxCapacity Q p policy \<and> min (amount (specSize Q p) + amount minStep) (amount (MaxCapacity policy)) \<le> amount q"
    if run: "run_state (recommendResize Q p reason policy vr agg) s = (Some (Some q, agg'), s')" for s s' q agg'
  proof -
    have reason: "reason = ScalingReasonSpaceThreshold \<or> reason = ScalingReasonInodesThreshold"
      using recommendResize_plain [OF assms(1-5) run] by auto
    from recommendResize_headroom [OF assms(1-4) r reason run] show ?thesis by auto
  qed
  moreover have "valid (recommendResize Q p reason policy vr agg) (note_effect p) (\<lambda>_. True)"
    by (rule valid_weaken [OF valid_recommendResize [OF assms(1) ok]]) simp_all
  ultimately show ?thesis unfolding valid_def by (metis prod.collapse)
qed

lemma resize_step_effect:
  assumes "keeps_identity c"
  shows "valid (resize_step L c p policy reason q vr a) (resize_effect (lb_quantity L) p q) (\<lambda>_. True)"
  unfolding resize_step_def Let_def
  by (intro valid_call [OF valid_resizePVC [OF assms]] vcg valid_weaken [OF valid_isInCooldown]) (simp_all add: vcg)

text \<open>A growth patch leaves at least 1 GiB before it and takes the minimal step or reaches the maximum.\<close>

definition full_step :: "'q quantity_ops \<Rightarrow> ('q \<Rightarrow> rat) \<Rightarrow> 'q VolumePolicy \<Rightarrow> 'q \<Rightarrow> 'q pvc \<Rightarrow> 'q effect \<Rightarrow> bool" where
  "full_step Q amount policy minStep p e \<longleftrightarrow> (\<forall>old new. e = PatchPVC False old new \<longrightarrow>
     \<not> isAtMaxCapacity Q p policy \<and> min (amount (specSize Q p) + amount minStep) (amount (MaxCapacity policy)) \<le> amount (specSize Q new))"

lemma full_step_note: "note_effect p e \<Longrightarrow> full_step Q amount policy minStep p e"
  by (auto simp: full_step_def note_effect_def)

lemma full_step_resize:
  assumes "resize_effect Q p q e" "\<not> isAtMaxCapacity Q p policy"
    and "min (amount (specSize Q p) + amount minStep) (amount (MaxCapacity policy)) \<le> amount q"
  shows "full_step Q amount policy minStep p e"
  using assms full_step_note [of p e] by (auto simp: resize_effect_def full_step_def resized_def)

lemma grow_step_full:
  assumes "quantity_laws (lb_quantity L) amount" "realistic_size amount (specSize (lb_quantity L) p)"
    and "realistic_size amount (MaxCapacity policy)"
    and "ScaleUp policy = Some rules" "plain_rules amount rules" "MinStepAbsolute rules = Some minStep" "keeps_identity c"
  shows "valid (grow_step L c p policy reason vr a) (full_step (lb_quantity L) amount policy minStep p) (\<lambda>_. True)"
  unfolding grow_step_def
proof (rule valid_call [OF valid_recommendResize_step [OF assms(1-6)] full_step_note], assumption)
  fix x :: "('a option \<times> resizingConditionAggregator) option"
  assume x: "\<forall>q agg'. x = Some (Some q, agg') \<longrightarrow> \<not> isAtMaxCapacity (lb_quantity L) p policy \<and>
    min (amount (specSize (lb_quantity L) p) + amount minStep) (amount (MaxCapacity policy)) \<le> amount q"
  show "valid (case x of None \<Rightarrow> ret None | Some (target, agg) \<Rightarrow>
      (case target of None \<Rightarrow> ret (Some (set_recommendation (pvc_name p) vr (a\<lparr>ac_resizing := agg\<rparr>)))
       | Some targetSize \<Rightarrow> resize_step L c p policy reason targetSize vr (a\<lparr>ac_resizing := agg\<rparr>)))
      (full_step (lb_quantity L) amount policy minStep p) (\<lambda>_. True)"
    using x by (auto split: option.split intro!: valid_ret intro: valid_weaken [OF resize_step_effect [OF assms(7)]] full_step_resize)
qed

lemma scale_step_full:
  assumes "quantity_laws (lb_quantity L) amount" "realistic_size amount (specSize (lb_quantity L) p)"
    and "realistic_size amount (MaxCapacity policy)"
    and "ScaleUp policy = Some rules" "plain_rules amount rules" "MinStepAbsolute rules = Some minStep"
    and "keeps_identity (rn_client r)" "size_ok amount (statusSize (lb_quantity L) p)"
  shows "valid (scale_step L r pvca p policy vr a) (full_step (lb_quantity L) amount policy minStep p) (\<lambda>_. True)"
proof -
  have rec: "valid (Recover (lb_quantity L) (rn_recoverer r) p vr) (full_step (lb_quantity L) amount policy minStep p) (\<lambda>_. True)"
    by (rule valid_weaken [OF valid_Recover [OF assms(1,8) realistic_size_ok [OF assms(2)] assms(7)]])
      (auto simp: recover_effect_def full_step_def note_effect_def)
  show ?thesis unfolding scale_step_def
    by (intro valid_seq [OF rec] vcg grow_step_full [OF assms(1-7)]) (auto simp: full_step_def)
qed

text \<open>
  C12: Growth ends. When each of \<open>n\<close> passes over a claim sends a growth patch and the next one finds
  the request that was patched (its capacity and everything else may have changed), then \<open>n\<close> is at
  most the distance of the first request to the maximum capacity in whole minimal steps plus
  one: every growth but the last takes at least a whole minimal step.
\<close>

theorem growth_terminates:
  assumes "quantity_laws (lb_quantity L) amount" "keeps_identity (rn_client r)" "realistic_size amount (MaxCapacity policy)"
    and "ScaleUp policy = Some rules" "plain_rules amount rules" "MinStepAbsolute rules = Some minStep"
    and "\<forall>i < n. realistic_size amount (specSize (lb_quantity L) (p i)) \<and> size_ok amount (statusSize (lb_quantity L) (p i))"
    and "\<forall>i < n. \<exists>pvca vr a s x s' new. run_state (scale_step L r pvca (p i) policy vr a) s = (x, s') \<and> effects s = [] \<and>
      PatchPVC False (p i) new \<in> set (effects s') \<and> specSize (lb_quantity L) (p (Suc i)) = specSize (lb_quantity L) new"
  shows "int n \<le> max 0 (\<lfloor>(amount (MaxCapacity policy) - amount (specSize (lb_quantity L) (p 0))) / amount minStep\<rfloor> + 1)"
proof (cases n)
  case (Suc m)
  let ?S = "\<lambda>i. amount (specSize (lb_quantity L) (p i))" and ?M = "amount (MaxCapacity policy)"
  have min0: "2 ^ 30 \<le> amount minStep" using assms(5,6) by (auto simp: plain_rules_def split: option.splits)
  have step: "?S i + 2 ^ 30 < ?M + 1 \<and> min (?S i + amount minStep) ?M \<le> ?S (Suc i)" if i: "i < n" for i
  proof -
    obtain pvca vr a s x s' new where run: "run_state (scale_step L r pvca (p i) policy vr a) s = (x, s')" "effects s = []"
      "PatchPVC False (p i) new \<in> set (effects s')" "specSize (lb_quantity L) (p (Suc i)) = specSize (lb_quantity L) new"
      using assms(8) i by blast
    have ok: "realistic_size amount (specSize (lb_quantity L) (p i))" "size_ok amount (statusSize (lb_quantity L) (p i))"
      using assms(7) i by auto
    from valid_effects [OF scale_step_full [OF assms(1) ok(1) assms(3-6,2) ok(2)] run(1,3)] run(2)
    have f: "\<not> isAtMaxCapacity (lb_quantity L) (p i) policy" "min (?S i + amount minStep) ?M \<le> ?S (Suc i)"
      using run(4) by (auto simp: full_step_def)
    note sizes = realistic_size_ok [OF ok(1)] realistic_size_ok [OF assms(3)]
    have "Value (lb_quantity L) (specSize (lb_quantity L) (p i)) + 2 ^ 30 \<le> Value (lb_quantity L) (MaxCapacity policy)"
      using f(1) by (simp add: isAtMaxCapacity_iff [OF assms(1) sizes] ScalingResolutionBytes_def)
    then have "(of_int (Value (lb_quantity L) (specSize (lb_quantity L) (p i)) + 2 ^ 30) :: rat) \<le> of_int (Value (lb_quantity L) (MaxCapacity policy))"
      by (simp only: of_int_le_iff)
    with f(2) Value_size_ok(4) [OF assms(1) sizes(1)] Value_size_ok(5) [OF assms(1) sizes(2)] show ?thesis by simp
  qed
  have "?S 0 + of_nat i * amount minStep \<le> ?S i" if "i < n" for i
    using that
  proof (induction i)
    case (Suc i)
    then have "?S i + amount minStep \<le> ?S (Suc i)" using step [of i] step [of "Suc i"] by (auto simp: min_def split: if_splits)
    with Suc show ?case by (simp add: algebra_simps)
  qed simp
  from this [of m] step [of m] Suc have "of_nat m * amount minStep \<le> ?M - ?S 0" by simp
  then have "of_int (int m) \<le> (?M - ?S 0) / amount minStep" using min0 by (simp add: field_simps)
  then have "int m \<le> \<lfloor>(?M - ?S 0) / amount minStep\<rfloor>" by (simp only: le_floor_iff)
  then show ?thesis using Suc by simp
qed simp

section \<open>When a failed expansion is recovered\<close>

text \<open>The request that a recovery sets.\<close>

definition recoveryTarget :: "'q quantity_ops \<Rightarrow> 'q pvc \<Rightarrow> 'q" where
  "recoveryTarget Q p = NewQuantity Q (newTargetBytes (Value Q (statusSize Q p)) (Value Q (specSize Q p)))"

lemma grow_step_no_recovery: "valid (grow_step L c p policy reason vr a) (\<lambda>e. \<forall>new. e \<noteq> PatchPVC True p new) (\<lambda>_. True)"
  unfolding grow_step_def resize_step_def resizePVC_def recommendResize_def record_threshold_def recordMaxCapacityReached_def Let_def
  by (intro vcg) simp_all

lemma Recover_patches_iff:
  assumes "run_state (Recover Q c p vr) s = (x, s')" "unpatched True p s" "pvc_requests p = Some m"
  shows "(PatchPVC True p new \<in> set (effects s')) \<longleftrightarrow>
    \<not> IsZero Q (statusSize Q p) \<and> Cmp Q (recoveryTarget Q p) (specSize Q p) < 0 \<and> new = with_request p m (recoveryTarget Q p)"
  using assms
  by (auto simp: Recover_def run_simps Let_def patch_pvc_def unpatched_def recoveryTarget_def split: prod.splits if_splits)

lemma scale_step_recovers_iff:
  assumes "run_state (scale_step L r pvca p policy vr a) s = (x, s')" "unpatched True p s" "pvc_requests p = Some m"
  shows "(PatchPVC True p new \<in> set (effects s')) \<longleftrightarrow>
    ShouldRecover p \<and> IsKubernetesVersionGreaterEqual134 (lb_NewVersion L) (lb_Check L) (rn_kubernetesVersion r) \<and>
    \<not> IsZero (lb_quantity L) (statusSize (lb_quantity L) p) \<and>
    Cmp (lb_quantity L) (recoveryTarget (lb_quantity L) p) (specSize (lb_quantity L) p) < 0 \<and>
    new = with_request p m (recoveryTarget (lb_quantity L) p)"
proof (cases "ShouldRecover p")
  case True
  obtain y s1 where y: "run_state (Recover (lb_quantity L) (rn_recoverer r) p vr) s = (y, s1)" by fastforce
  note iff = Recover_patches_iff [OF y assms(2,3)]
  show ?thesis
    using assms(1,2) True y iff by (auto simp: scale_step_def run_simps unpatched_def split: if_splits)
next
  case False
  have "valid (scale_step L r pvca p policy vr a) (\<lambda>e. \<forall>new. e \<noteq> PatchPVC True p new) (\<lambda>_. True)"
    unfolding scale_step_def using False by (auto intro!: vcg grow_step_no_recovery split: option.split prod.split)
  from unpatched_after [OF this assms(1,2)] False show ?thesis by (simp add: unpatched_def)
qed

text \<open>
  C6: Exactly when a failed expansion is recovered. For a claim that one autoscaler selects,
  that the server answers with, has a policy, passes validation and has fresh metrics, the
  recovery patch is sent if and only if its expansion has failed, the cluster runs Kubernetes
  1.34 or later, its capacity is known and the halved step gives a smaller request than the
  failed one; the patch sets exactly that request. The strategy of the policy plays no role: also
  a claim under the strategy \<open>Off\<close>, which the documentation describes as never resized, is
  patched (\<open>off_claim_recovered\<close> below).
\<close>

theorem recovery_iff:
  assumes "length (owners (NamespacedName_String (pvc_key p0))) \<le> 1"
    and "Get_PVC (rn_client r) (pvc_key p0) (world s) = (Inr p, w)"
    and "GetVolumePolicy (lb_quote L) (pvc_name p) (VolumePolicies (Spec pvca)) = Inr (Some policy)"
    and "run_state (validatePVC (lb_quantity L) (rn_client r) p policy) (s\<lparr>world := w\<rparr>) = (None, s1)"
    and "updateVolumeRecommendationForPVC (lb_quantity L) (ac_recs a) p (md (pvc_key p0)) = Inr vr"
    and "pvc_requests p = Some m" "unpatched True p s"
    and "run_state (reconcile_pvc L r pvca owners md a p0) s = (x, s')"
  shows "(PatchPVC True p new \<in> set (effects s')) \<longleftrightarrow>
    ShouldRecover p \<and> IsKubernetesVersionGreaterEqual134 (lb_NewVersion L) (lb_Check L) (rn_kubernetesVersion r) \<and>
    \<not> IsZero (lb_quantity L) (statusSize (lb_quantity L) p) \<and>
    Cmp (lb_quantity L) (recoveryTarget (lb_quantity L) p) (specSize (lb_quantity L) p) < 0 \<and>
    new = with_request p m (recoveryTarget (lb_quantity L) p)"
proof -
  note run = run_reconcile_scale [where md = md and a = a and owners = owners and pvca = pvca and L = L, OF assms(1-5)]
  have "run_state (scale_step L r pvca p policy vr a) s1 = (x, s')" "unpatched True p s1"
    using run assms(7,8) by (simp_all add: unpatched_def)
  from scale_step_recovers_iff [OF this assms(6)] show ?thesis .
qed

section \<open>Why the runner grows a claim\<close>

text \<open>
  Metrics from the source that put the claim above the threshold of its policy, and the patch
  they explain.
\<close>

definition full_volume :: "'q VolumePolicy \<Rightarrow> VolumeInfo \<Rightarrow> bool" where
  "full_volume policy vi \<longleftrightarrow>
     (\<exists>rules threshold space inodes. ScaleUp policy = Some rules \<and> UtilizationThresholdPercent rules = Some threshold \<and>
        UsedSpacePercentage vi = Inr space \<and> UsedInodesPercentage vi = Inr inodes \<and> (threshold < space \<or> threshold < inodes))"

definition caused :: "'q libs \<Rightarrow> 'q pvca \<Rightarrow> Metrics \<Rightarrow> 'q effect \<Rightarrow> bool" where
  "caused L pvca md e \<longleftrightarrow>
     (\<forall>old new. e = PatchPVC False old new \<longrightarrow>
        (\<exists>policy vi. GetVolumePolicy (lb_quote L) (pvc_name old) (VolumePolicies (Spec pvca)) = Inr (Some policy) \<and>
           md (pvc_key old) = Some vi \<and> full_volume policy vi))"

lemma caused_other [simp]:
  "caused L pvca md (PatchPVC True old new)" "caused L pvca md (PatchPVCAStatus a b)" "caused L pvca md (Eventf k t m i)"
  "caused L pvca md (CounterInc n ls)" "caused L pvca md (GaugeSet n ls v)" "caused L pvca md (GaugeReset n)"
  by (simp_all add: caused_def)

lemma refreshed_full_volume:
  assumes "updateVolumeRecommendationForPVC Q recs p v = Inr vr" "over_threshold policy vr"
  shows "\<exists>vi. v = Some vi \<and> full_volume policy vi"
  using updateVolumeRecommendation_refreshed [OF assms(1)] assms(2)
  by (auto simp: refreshed_def over_threshold_def full_volume_def deref0_def split: option.splits)

text \<open>Without a passed threshold the claim does not get a target.\<close>

lemma valid_recommendResize_caused:
  "valid (recommendResize Q p reason policy vr agg) (caused L pvca md)
    (\<lambda>r. \<forall>t agg'. r = Some (Some t, agg') \<longrightarrow> reason = ScalingReasonSpaceThreshold \<or> reason = ScalingReasonInodesThreshold)"
  unfolding recommendResize_def record_threshold_def recordMaxCapacityReached_def Let_def
  by (intro vcg) auto

lemma scalingReason_passed:
  assumes "scalingReason Q p policy vr = Some (reason, b)" "reason = ScalingReasonSpaceThreshold \<or> reason = ScalingReasonInodesThreshold"
  shows "over_threshold policy vr"
  using assms by (auto simp: scalingReason_def over_threshold_def ScalingReasonSpaceThreshold_def
      ScalingReasonInodesThreshold_def split: option.splits if_splits)

lemma valid_grow_caused:
  fixes L :: "'q libs"
  assumes "\<And>new. reason = ScalingReasonSpaceThreshold \<or> reason = ScalingReasonInodesThreshold \<Longrightarrow> caused L pvca md (PatchPVC False p new)"
  shows "valid (grow_step L c p policy reason vr a) (caused L pvca md) (\<lambda>_. True)"
  unfolding grow_step_def
proof (rule valid_bind [OF valid_recommendResize_caused])
  fix x :: "('q option \<times> resizingConditionAggregator) option"
  assume "\<forall>t agg'. x = Some (Some t, agg') \<longrightarrow> reason = ScalingReasonSpaceThreshold \<or> reason = ScalingReasonInodesThreshold"
  with assms show "valid (case x of None \<Rightarrow> ret None | Some (target, agg) \<Rightarrow>
      (case target of None \<Rightarrow> ret (Some (set_recommendation (pvc_name p) vr (a\<lparr>ac_resizing := agg\<rparr>)))
       | Some targetSize \<Rightarrow> resize_step L c p policy reason targetSize vr (a\<lparr>ac_resizing := agg\<rparr>))) (caused L pvca md) (\<lambda>_. True)"
    unfolding resize_step_def resizePVC_def Let_def by (intro vcg) auto
qed

lemma valid_scale_caused:
  assumes "over_threshold policy vr \<Longrightarrow> \<exists>vi. md (pvc_key p) = Some vi \<and> full_volume policy vi"
    and "GetVolumePolicy (lb_quote L) (pvc_name p) (VolumePolicies (Spec pvca)) = Inr (Some policy)"
  shows "valid (scale_step L r pvca p policy vr a) (caused L pvca md) (\<lambda>_. True)"
proof -
  have g: "valid (grow_step L (rn_client r) p policy reason vr a') (caused L pvca md) (\<lambda>_. True)"
    if "scalingReason (lb_quantity L) p policy vr = Some (reason, b)" for reason b a'
    by (rule valid_grow_caused) (use scalingReason_passed [OF that] assms in \<open>auto simp: caused_def\<close>)
  show ?thesis
    unfolding scale_step_def Recover_def Let_def
    by (intro vcg) (auto intro: g)
qed

lemma valid_reconcile_caused:
  assumes "keeps_identity (rn_client r)"
  shows "valid (reconcile_pvc L r pvca owners md a p) (caused L pvca md) (\<lambda>_. True)"
proof -
  have s: "valid (scale_step L r pvca q policy vr a) (caused L pvca md) (\<lambda>_. True)"
    if "pvc_key q = pvc_key p" "GetVolumePolicy (lb_quote L) (pvc_name q) (VolumePolicies (Spec pvca)) = Inr (Some policy)"
      "updateVolumeRecommendationForPVC (lb_quantity L) (ac_recs a) q (md (pvc_key p)) = Inr vr" for q policy vr
    by (rule valid_scale_caused [OF _ that(2)]) (use refreshed_full_volume [OF that(3)] that(1) in simp)
  show ?thesis
    unfolding reconcile_pvc_def Let_def
    by (rule valid_if, rule valid_ret, rule TrueI, rule valid_get_then [OF assms])
      (auto intro!: s valid_ret valid_seq valid_validatePVC valid_emit split: sum.split option.split)
qed

lemma valid_foldM_any:
  assumes "\<And>b x. x \<in> set xs \<Longrightarrow> valid (f b x) E (\<lambda>_. True)"
  shows "valid (foldM f xs b) E (\<lambda>_. True)"
  using assms
proof (induction xs arbitrary: b)
  case (Cons x xs)
  then show ?case by (auto intro!: valid_seq valid_ret split: option.split)
qed (simp add: valid_ret)

lemma valid_reconcilePVCA_caused:
  assumes "keeps_identity (rn_client r)"
  shows "valid (reconcilePVCA L r owners md (pvca, pvcs)) (caused L pvca md) (\<lambda>_. True)"
  unfolding reconcilePVCA_def setStatus_def Let_def prod.case
  by (rule valid_seq, rule valid_foldM_any, rule valid_reconcile_caused [OF assms]) (intro vcg; simp)

text \<open>The pass over all autoscalers, with the metrics the source returned.\<close>

definition explained :: "'q libs \<Rightarrow> ('q, 'w) runner \<Rightarrow> 'q effect \<Rightarrow> bool" where
  "explained L r e \<longleftrightarrow> (\<forall>old new. e = PatchPVC False old new \<longrightarrow>
     (\<exists>a md w w'. listed (rn_client r) (rn_autoscalerName r) a \<and> rn_metricsSource r w = (Inr md, w') \<and> caused L a md e))"

lemma valid_source_then:
  assumes "\<And>e. valid (f (Inl e)) E R" "\<And>md w w'. src w = (Inr md, w') \<Longrightarrow> valid (f (Inr md)) E R"
  shows "valid (api src \<bind> f) E R"
proof (rule valid_bind [where R = "\<lambda>r. valid (f r) E R"], rule valid_api)
  fix w
  obtain x w' where x: "src w = (x, w')" by fastforce
  then show "valid (f (fst (src w))) E R" using assms by (cases x) auto
qed

lemma valid_pass_explained:
  assumes "runner_ok L amount e r" "fetch_inv pvcas acc" "rn_metricsSource r w = (Inr md, w')"
    and "\<And>a. a \<in> set pvcas \<Longrightarrow> listed (rn_client r) (rn_autoscalerName r) a"
  shows "valid (foldM (\<lambda>_ x. reconcilePVCA L r (fa_owners acc) md x) (lb_order L (fa_pvcas acc)) ()) (explained L r) (\<lambda>_. True)"
proof (rule valid_foldM_any)
  fix b :: unit and x
  assume "x \<in> set (lb_order L (fa_pvcas acc))"
  then have x: "x \<in> set (fa_pvcas acc)" using assms(1) unfolding runner_ok_def by (metis mset_eq_setD)
  obtain a ps where ap: "x = (a, ps)" by fastforce
  with x assms(2,4) have l: "listed (rn_client r) (rn_autoscalerName r) a" by (auto simp: fetch_inv_def)
  have "keeps_identity (rn_client r)" using assms(1) sane_clientD(1) by (auto simp: runner_ok_def)
  from valid_weaken [OF valid_reconcilePVCA_caused [OF this, of L "fa_owners acc" md a ps], of "explained L r" "\<lambda>_. True"]
  show "valid (reconcilePVCA L r (fa_owners acc) md x) (explained L r) (\<lambda>_. True)"
    unfolding ap using l assms(3) by (auto simp: explained_def)
qed

lemma valid_reconcileAll_explained:
  assumes "runner_ok L amount e r"
  shows "valid (reconcileAll L r) (explained L r) (\<lambda>_. True)"
proof -
  have ok: "fetch_env_ok e" "rn_pvcFetcher r = env_Fetch e" "sane_client (lb_quantity L) amount (rn_client r)"
    using assms by (auto simp: runner_ok_def)
  have pass: "valid (fetchPVCsForPVCAs L (rn_client r) (rn_pvcFetcher r) pvcas \<bind> (\<lambda>f.
      case f of None \<Rightarrow> ret None
      | Some acc \<Rightarrow> foldM (\<lambda>_ x. reconcilePVCA L r (fa_owners acc) md x) (lb_order L (fa_pvcas acc)) () \<bind>
          (\<lambda>x. ret (map_option (\<lambda>_. None) x)))) (explained L r) (\<lambda>_. True)"
    if "\<And>a. a \<in> set pvcas \<Longrightarrow> sane_pvca amount a \<and> listed (rn_client r) (rn_autoscalerName r) a"
      "rn_metricsSource r w = (Inr md, w')" for pvcas md w w'
    unfolding ok(2)
    by (rule valid_call [OF pf.valid_fetchPVCsForPVCAs [OF ok(1)]])
      (auto simp: fetch_effect_def explained_def intro!: valid_seq valid_ret valid_pass_explained [OF assms _ that(2)] that(1) [THEN conjunct2])
  have reset: "explained L r (GaugeReset m)" for m by (simp add: explained_def)
  show ?thesis
    unfolding reconcileAll_def
    by (rule valid_seq, rule valid_emit, rule reset, rule TrueI, rule valid_list_pvcas [OF ok(3)])
      (simp_all only: sum.case, rule valid_ret, simp, rule valid_if, rule valid_ret, simp, rule valid_source_then,
        simp_all only: sum.case, rule valid_ret, simp, rule pass, simp_all)
qed

lemma valid_Runner_Start_explained:
  assumes "runner_ok L amount e r"
  shows "valid (Runner_Start L r es h) (explained L r) (\<lambda>_. True)"
proof -
  have loop: "valid (runner_loop L r es h) (explained L r) (\<lambda>_. True)" for h
  proof (induction es arbitrary: h)
    case (Cons ev es)
    then show ?case
      by (cases ev) (auto intro!: valid_seq [OF valid_reconcileAll_explained [OF assms]] valid_seq valid_ret valid_now split: option.split)
  qed (simp add: valid_ret)
  show ?thesis unfolding Runner_Start_def by (intro valid_if valid_ret valid_seq valid_now loop TrueI)
qed

text \<open>
  C7: The runner grows a claim only for a reason. Over any number of passes, for every growth
  patch there is an autoscaler the server listed under the configured name, and metrics the
  metrics source returned, such that the used space or the used inodes of the claim in these
  metrics exceed the threshold of the first policy of the autoscaler that matches the claim.
\<close>

theorem growth_explained:
  fixes r :: "('q, 'w) runner"
  assumes "runner_ok L amount e r" "run_state (Runner_Start L r evs h) s = (x, s')"
    and "effects s = []" "PatchPVC False old new \<in> set (effects s')"
  shows "\<exists>(a :: 'q pvca) policy rules threshold md w w' vi space inodes. listed (rn_client r) (rn_autoscalerName r) a \<and>
    GetVolumePolicy (lb_quote L) (pvc_name old) (VolumePolicies (Spec a)) = Inr (Some policy) \<and>
    ScaleUp policy = Some rules \<and> UtilizationThresholdPercent rules = Some threshold \<and>
    rn_metricsSource r w = (Inr md, w') \<and> md (pvc_key old) = Some vi \<and>
    UsedSpacePercentage vi = Inr space \<and> UsedInodesPercentage vi = Inr inodes \<and> (threshold < space \<or> threshold < inodes)"
proof -
  have "explained L r (PatchPVC False old new)"
    using valid_effects [OF valid_Runner_Start_explained [OF assms(1)] assms(2,4)] assms(3) by simp
  then obtain a :: "'q pvca" and md w w' where a: "listed (rn_client r) (rn_autoscalerName r) a" "rn_metricsSource r w = (Inr md, w')"
    "caused L a md (PatchPVC False old new)" unfolding explained_def by blast
  then obtain policy vi where "GetVolumePolicy (lb_quote L) (pvc_name old) (VolumePolicies (Spec a)) = Inr (Some policy)"
    "md (pvc_key old) = Some vi" "full_volume policy vi" unfolding caused_def by blast
  with a(1,2) show ?thesis unfolding full_volume_def by blast
qed

text \<open>
  C38: The metrics never make the runner panic. Every counter and gauge it changes, over any
  number of passes, is a declared metric vector used with as many label values as it has labels
  (the Prometheus client panics otherwise), and it never touches pods.
\<close>

theorem metrics_well_labelled:
  fixes r :: "('q, 'w) runner"
  assumes "runner_ok L amount e r" "run_state (Runner_Start L r evs h) s = (x, s')"
  shows "\<exists>es. effects s' = effects s @ es \<and>
    (\<forall>m ls. CounterInc m ls \<in> set es \<longrightarrow> (\<exists>labels. metric_labels m = Some labels \<and> length labels = length ls)) \<and>
    (\<forall>m ls v. GaugeSet m ls v \<in> set es \<longrightarrow> (\<exists>labels. metric_labels m = Some labels \<and> length labels = length ls)) \<and>
    (\<forall>pod pod'. PatchPod pod pod' \<notin> set es \<and> Evict pod \<notin> set es)"
proof -
  obtain es where es: "effects s' = effects s @ es" "list_all (run_effect L amount (rn_client r) (rn_autoscalerName r)) es"
    using validD(2) [OF valid_Runner_Start [OF assms(1)] assms(2)] by blast
  then have "run_effect L amount (rn_client r) (rn_autoscalerName r) f" if "f \<in> set es" for f
    using that by (simp add: list_all_iff)
  then have eff: "\<exists>labels. metric_labels m = Some labels \<and> length labels = length ls"
    if "CounterInc m ls \<in> set es \<or> (\<exists>v. GaugeSet m ls v \<in> set es)" for m ls
    using that by (fastforce simp: run_effect_def split: option.splits)
  have "PatchPod pod pod' \<notin> set es \<and> Evict pod \<notin> set es" for pod pod'
    using es(2) by (auto simp: list_all_iff run_effect_def)
  with es(1) eff show ?thesis by blast
qed

section \<open>The status settles\<close>

text \<open>
  What \<^verbatim>\<open>k8s.io/apimachinery/pkg/api/meta\<close> documents of the functions on conditions: setting a
  condition makes it the one found for its type and leaves the others; setting one that is
  already there changes nothing; removing one removes it only; semantic equality is reflexive.
\<close>

definition same_condition :: "condition \<Rightarrow> condition \<Rightarrow> bool" where
  "same_condition d c \<longleftrightarrow> c_type d = c_type c \<and> c_status d = c_status c \<and> c_reason d = c_reason c \<and> c_message d = c_message c"

definition condition_laws :: "'q libs \<Rightarrow> bool" where
  "condition_laws L \<longleftrightarrow>
     (\<forall>t cs c. \<exists>d. FindStatusCondition L (SetStatusCondition L t cs c) (c_type c) = Some d \<and> same_condition d c) \<and>
     (\<forall>t cs c ty. ty \<noteq> c_type c \<longrightarrow> FindStatusCondition L (SetStatusCondition L t cs c) ty = FindStatusCondition L cs ty) \<and>
     (\<forall>t cs c d. FindStatusCondition L cs (c_type c) = Some d \<longrightarrow> same_condition d c \<longrightarrow> SetStatusCondition L t cs c = cs) \<and>
     (\<forall>cs ty. FindStatusCondition L (RemoveStatusCondition L cs ty) ty = None) \<and>
     (\<forall>cs ty ty'. ty' \<noteq> ty \<longrightarrow> FindStatusCondition L (RemoveStatusCondition L cs ty) ty' = FindStatusCondition L cs ty') \<and>
     (\<forall>cs ty. FindStatusCondition L cs ty = None \<longrightarrow> RemoveStatusCondition L cs ty = cs) \<and>
     (\<forall>st. StatusEqual L st st)"

lemma condition_lawsD:
  assumes "condition_laws L"
  shows "\<exists>d. FindStatusCondition L (SetStatusCondition L t cs c) (c_type c) = Some d \<and> same_condition d c"
    and "ty \<noteq> c_type c \<Longrightarrow> FindStatusCondition L (SetStatusCondition L t cs c) ty = FindStatusCondition L cs ty"
    and "FindStatusCondition L cs (c_type c) = Some d \<Longrightarrow> same_condition d c \<Longrightarrow> SetStatusCondition L t cs c = cs"
    and "FindStatusCondition L (RemoveStatusCondition L cs ty) ty = None"
    and "ty' \<noteq> ty \<Longrightarrow> FindStatusCondition L (RemoveStatusCondition L cs ty) ty' = FindStatusCondition L cs ty'"
    and "FindStatusCondition L cs ty = None \<Longrightarrow> RemoveStatusCondition L cs ty = cs"
    and "StatusEqual L st st"
proof -
  note l = assms [unfolded condition_laws_def]
  show "\<exists>d. FindStatusCondition L (SetStatusCondition L t cs c) (c_type c) = Some d \<and> same_condition d c"
    using conjunct1 [OF l] by blast
  note l = conjunct2 [OF l]
  show "ty \<noteq> c_type c \<Longrightarrow> FindStatusCondition L (SetStatusCondition L t cs c) ty = FindStatusCondition L cs ty"
    using conjunct1 [OF l] by simp
  note l = conjunct2 [OF l]
  show "FindStatusCondition L cs (c_type c) = Some d \<Longrightarrow> same_condition d c \<Longrightarrow> SetStatusCondition L t cs c = cs"
    using conjunct1 [OF l] by simp
  note l = conjunct2 [OF l]
  show "FindStatusCondition L (RemoveStatusCondition L cs ty) ty = None" using l by simp
  show "ty' \<noteq> ty \<Longrightarrow> FindStatusCondition L (RemoveStatusCondition L cs ty) ty' = FindStatusCondition L cs ty'" using l by simp
  show "FindStatusCondition L cs ty = None \<Longrightarrow> RemoveStatusCondition L cs ty = cs" using l by simp
  show "StatusEqual L st st" using l by simp
qed

text \<open>The condition is in the list as \<open>status_condition_step\<close> wants it.\<close>

definition recorded :: "'q libs \<Rightarrow> condition \<Rightarrow> condition list \<Rightarrow> bool" where
  "recorded L c cs \<longleftrightarrow>
     (case FindStatusCondition L cs (c_type c) of None \<Rightarrow> c_message c = '''' | Some d \<Rightarrow> c_message c \<noteq> '''' \<and> same_condition d c)"

lemma step_recorded:
  assumes "condition_laws L"
  shows "recorded L c (status_condition_step L t c cs)"
  using condition_lawsD(1) [OF assms, of t cs c] condition_lawsD(4) [OF assms]
  by (auto simp: recorded_def status_condition_step_def)

lemma step_keeps:
  assumes "condition_laws L" "recorded L c cs" "c_type d \<noteq> c_type c"
  shows "recorded L c (status_condition_step L t d cs)"
proof -
  have "FindStatusCondition L (status_condition_step L t d cs) (c_type c) = FindStatusCondition L cs (c_type c)"
    using condition_lawsD(2,5) [OF assms(1)] assms(3) by (simp add: status_condition_step_def)
  with assms(2) show ?thesis by (simp add: recorded_def)
qed

lemma step_recorded_id:
  assumes "condition_laws L" "recorded L c cs"
  shows "status_condition_step L t c cs = cs"
  using assms condition_lawsD(3,6) [OF assms(1)]
  by (auto simp: recorded_def status_condition_step_def split: option.splits)

lemma aggregated_types [simp]:
  "c_type (rec_getAggregatedCondition ra) = ConditionTypeRecommendationAvailable"
  "c_type (res_getAggregatedCondition za) = ConditionTypeResizing"
  by (simp_all add: rec_getAggregatedCondition_def res_getAggregatedCondition_def Let_def split: prod.split)

lemma condition_types_differ: "ConditionTypeRecommendationAvailable \<noteq> ConditionTypeResizing"
  by (simp add: ConditionTypeRecommendationAvailable_def ConditionTypeResizing_def)

text \<open>
  C14: The status settles. When a pass has written its conditions and recommendations into the
  status of an autoscaler, a pass with the same outcome on the written object sends nothing, at
  whatever time it runs: status updates cannot keep each other alive.
\<close>

theorem status_settles:
  fixes a a' :: "'q pvca"
  assumes "condition_laws L"
    and "run_state (setStatus L c a (rec_getAggregatedCondition ra) (res_getAggregatedCondition za) recs) s = (x, s1)"
    and "PatchPVCAStatus a a' \<in> set (effects s1)" "PatchPVCAStatus a a' \<notin> set (effects s)"
  shows "run_state (setStatus L c a' (rec_getAggregatedCondition ra) (res_getAggregatedCondition za) recs) s2 = (None, s2)"
proof -
  let ?rc = "rec_getAggregatedCondition ra" and ?zc = "res_getAggregatedCondition za"
  let ?t = "Now c (world s)" and ?u = "Now c (world s2)"
  define cs where "cs = fold (status_condition_step L ?t) [?zc, ?rc] (Conditions (Status a))"
  have a': "Status a' = \<lparr>VolumeRecommendations = sort_key vr_name recs, Conditions = cs\<rparr>"
    using assms(2-4) by (auto simp: setStatus_def run_simps Let_def patch_pvca_status_def cs_def split: if_splits prod.splits)
  have "recorded L ?zc cs" "recorded L ?rc cs"
    using condition_types_differ step_recorded [OF assms(1)] step_keeps [OF assms(1)] by (simp_all add: cs_def)
  then have "fold (status_condition_step L ?u) [?zc, ?rc] cs = cs" by (simp add: step_recorded_id [OF assms(1)])
  then show ?thesis
    using condition_lawsD(7) [OF assms(1)] by (simp add: setStatus_def run_simps Let_def a') 
qed

section \<open>The cooldown starts with the resize\<close>

text \<open>
  C11: A resize starts the cooldown. When the server accepts the growth of a claim, the
  recommendations that the pass leaves behind hold for the claim its new target and the time of
  the resize, and are unchanged for all other claims; and with these recommendations every later
  decision about the claim, until the cooldown has elapsed, holds it back.
\<close>

theorem cooldown_starts:
  assumes "keeps_identity c" "Patch_PVC c False p (resized (lb_quantity L) p m q) (world s) = (Inr p', w')"
    and "pvc_requests p = Some m" "ScaleUp policy = Some rules" "ResizeStrategy rules \<noteq> OffVolumeResizeStrategy"
    and "CooldownDuration rules = Some d" "vr_name vr = pvc_name p"
    and "\<not> cooling_down c rules vr (world s)"
    and "run_state (resize_step L c p policy reason q vr a) s = (x, s')"
  shows "\<exists>a' t. x = Some a' \<and>
    getOrCreateVolumeRecommendationForPVC (ac_recs a') (pvc_name p) = vr\<lparr>Target := \<lparr>target_size = Some q\<rparr>, LastResizeTime := Some t\<rparr> \<and>
    (\<forall>n. n \<noteq> pvc_name p \<longrightarrow> getOrCreateVolumeRecommendationForPVC (ac_recs a') n = getOrCreateVolumeRecommendationForPVC (ac_recs a) n) \<and>
    world s' = w' \<and> t = Now c w' \<and>
    (\<forall>s2 agg. fst (fst (run_state (isInCooldown c p rules (getOrCreateVolumeRecommendationForPVC (ac_recs a') (pvc_name p)) agg) s2)) \<longleftrightarrow>
       Now c (world s2) < t + d)"
proof -
  from run_isInCooldown [OF assms(5), of c p vr "ac_resizing a" s] obtain agg where
    cd: "run_state (isInCooldown c p rules vr (ac_resizing a)) s = ((False, agg), s)" using assms(8) by auto
  have n: "pvc_name p' = pvc_name p"
    using keeps_identityD(2) [OF assms(1,2)] unfolding resized_key by (simp add: pvc_key_def)
  define v where "v = vr\<lparr>Target := \<lparr>target_size = Some q\<rparr>, LastResizeTime := Some (Now c w')\<rparr>"
  have vn: "vr_name v = pvc_name p" using assms(7) by (simp add: v_def)
  have "\<exists>agg'. x = Some (set_recommendation (pvc_name p) v (a\<lparr>ac_resizing := agg'\<rparr>)) \<and> world s' = w'"
    using assms(2-5,9) cd n
    by (auto simp: resize_step_def resizePVC_def run_simps Let_def patch_pvc_def resized_def v_def)
  then obtain agg' where x: "x = Some (set_recommendation (pvc_name p) v (a\<lparr>ac_resizing := agg'\<rparr>))" "world s' = w'" by blast
  let ?a = "set_recommendation (pvc_name p) v (a\<lparr>ac_resizing := agg'\<rparr>)"
  have get: "getOrCreateVolumeRecommendationForPVC (ac_recs ?a) (pvc_name p) = v"
    "k \<noteq> pvc_name p \<Longrightarrow> getOrCreateVolumeRecommendationForPVC (ac_recs ?a) k = getOrCreateVolumeRecommendationForPVC (ac_recs a) k" for k
    by (simp_all add: set_recommendation_def recs.get_put [OF vn] recs.get_put_other [OF vn])
  have "fst (fst (run_state (isInCooldown c p rules v agg2) s2)) \<longleftrightarrow> Now c (world s2) < Now c w' + d" for s2 :: "('a, 'b) rstate" and agg2
    using run_isInCooldown [OF assms(5), of c p v agg2 s2] assms(6) by (auto simp: cooling_down_def v_def)
  then show ?thesis using x get by (intro exI [of _ ?a] exI [of _ "Now c w'"]) (simp add: v_def)
qed

section \<open>Examples\<close>

abbreviation example_start :: "int acc" where
  "example_start \<equiv> \<lparr>ac_recs = [], ac_resizing = no_res_conditions, ac_recommendation = no_rec_conditions\<rparr>"

text \<open>A claim whose expansion from 10 to 20 GiB the storage provider refused.\<close>

definition failed_claim :: "int pvc" where
  "failed_claim = (example_pvc (20 * 2 ^ 30))\<lparr>pvc_allocatedResourceStatuses := [ResourceStorage \<mapsto> ControllerResizeInfeasible]\<rparr>"

lemma failed_claim_sel [simp]:
  "pvc_key failed_claim = (''ns'', ''data'')" "pvc_name failed_claim = ''data''" "pvc_requests failed_claim = Some [ResourceStorage \<mapsto> 20 * 2 ^ 30]"
  "pvc_storageClassName failed_claim = Some ''default''" "pvc_volumeMode failed_claim = None" "pvc_phase failed_claim = ''Bound''"
  "specSize byte_quantities failed_claim = 20 * 2 ^ 30" "statusSize byte_quantities failed_claim = 10 * 2 ^ 30"
  by (simp_all add: failed_claim_def pvc_key_def example_pvc_def specSize_def statusSize_def Storage_def)

lemma failed_claim_recovers: "ShouldRecover failed_claim"
  by (simp add: ShouldRecover_def isResizeInfeasible_def failed_claim_def)

definition failed_world :: "int cluster" where
  "failed_world = example_world\<lparr>cl_pvcs := [failed_claim]\<rparr>"

lemma failed_world_sel [simp]: "cl_pvcs failed_world = [failed_claim]" "cl_classes failed_world = cl_classes example_world"
  by (simp_all add: failed_world_def)

lemma example_validate:
  "p \<in> {example_pvc (10 * 2 ^ 30), failed_claim} \<Longrightarrow> cl_classes (world s) = cl_classes example_world \<Longrightarrow>
    run_state (validatePVC byte_quantities (rn_client example_runner) p (example_policy ''*'' (2 ^ 40))) s = (None, s)"
  by (auto simp: validatePVC_def run_simps)

lemma example_refresh:
  "p \<in> {example_pvc (10 * 2 ^ 30), failed_claim} \<Longrightarrow>
    \<exists>vr. updateVolumeRecommendationForPVC byte_quantities [] p (example_metrics (''ns'', ''data'')) = Inr vr \<and>
     UsedSpacePercent (Current vr) = Some 90 \<and> LastResizeTime vr = None"
  using example_percent(3) by (auto simp: updateVolumeRecommendationForPVC_def Let_def example_metrics_def example_percent new_VolumeRecommendation_def)

lemma example_plain_rules: "plain_rules of_int (example_rules PreferInPlaceVolumeResizeStrategy)"
  by (simp add: plain_rules_def realistic_size_def)

lemma example_due:
  assumes "UsedSpacePercent (Current vr) = Some 90"
  shows "over_threshold (example_policy ''*'' (2 ^ 40)) vr" "\<not> resizing_now byte_quantities (example_pvc (10 * 2 ^ 30))"
    "\<not> isAtMaxCapacity byte_quantities (example_pvc (10 * 2 ^ 30)) (example_policy ''*'' (2 ^ 40))"
    "PreferInPlaceVolumeResizeStrategy \<noteq> OffVolumeResizeStrategy"
  using assms example_not_resizing
  by (simp_all add: over_threshold_def deref0_def resizing_now_def isAtMaxCapacity_def wrap64_def ScalingResolutionBytes_def
      PreferInPlaceVolumeResizeStrategy_def OffVolumeResizeStrategy_def)

theorem growth_iff_witness:
  "\<exists>x s' new. run_state (reconcile_pvc example_libs example_runner example_autoscaler (\<lambda>_. []) example_metrics example_start
      (example_pvc (10 * 2 ^ 30))) (start_state example_world) = (x, s') \<and>
     PatchPVC False (example_pvc (10 * 2 ^ 30)) new \<in> set (effects s')"
proof -
  let ?p = "example_pvc (10 * 2 ^ 30)" and ?policy = "example_policy ''*'' (2 ^ 40)" and ?s = "start_state example_world :: (int, int cluster) rstate"
  obtain vr where vr: "updateVolumeRecommendationForPVC byte_quantities [] ?p (example_metrics (''ns'', ''data'')) = Inr vr"
    "UsedSpacePercent (Current vr) = Some 90" "LastResizeTime vr = None" using example_refresh by blast
  obtain x s' where run: "run_state (reconcile_pvc example_libs example_runner example_autoscaler (\<lambda>_. []) example_metrics example_start ?p) ?s = (x, s')"
    by fastforce
  have get: "Get_PVC (rn_client example_runner) (pvc_key ?p) (world ?s) = (Inr ?p, example_world)"
    using example_sane(1) by (simp add: start_state_def)
  have val: "run_state (validatePVC (lb_quantity example_libs) (rn_client example_runner) ?p ?policy) (?s\<lparr>world := example_world\<rparr>) = (None, ?s)"
    using example_validate [of ?p ?s] by (simp add: start_state_def)
  note due = example_due [OF vr(2)] and rules = example_plain_rules
  have "\<exists>new. PatchPVC False ?p new \<in> set (effects s')"
    by (rule growth_iff [where owners = "\<lambda>_. []" and md = example_metrics and a = example_start, OF _ _ _ get _ val _ _ _ _ rules _ run, THEN iffD2])
      (use vr due example_not_recover example_policy_match in \<open>simp_all add: byte_quantities_laws checking_client_sane realistic_size_def
        unpatched_def start_state_def cooling_down_def\<close>)
  with run show ?thesis by blast
qed

theorem growth_terminates_witness:
  "int 1 \<le> max 0 (\<lfloor>(2 ^ 40 - of_int (specSize byte_quantities (example_pvc (10 * 2 ^ 30)))) / (2 ^ 30 :: rat)\<rfloor> + 1)"
proof -
  let ?p = "example_pvc (10 * 2 ^ 30)" and ?policy = "example_policy ''*'' (2 ^ 40)" and ?s = "start_state example_world :: (int, int cluster) rstate"
  obtain vr where vr: "updateVolumeRecommendationForPVC byte_quantities [] ?p (example_metrics (''ns'', ''data'')) = Inr vr"
    "UsedSpacePercent (Current vr) = Some 90" "LastResizeTime vr = None" using example_refresh by blast
  obtain x s' where run: "run_state (scale_step example_libs example_runner example_autoscaler ?p ?policy vr example_start) ?s = (x, s')"
    by fastforce
  note due = example_due [OF vr(2)] and rules = example_plain_rules
  have "\<exists>new. PatchPVC False ?p new \<in> set (effects s')"
    by (rule scale_step_patches_iff [OF run _ _ _ _ _ _ _ rules, THEN iffD2])
      (use vr due example_not_recover in \<open>simp_all add: byte_quantities_laws sane_clientD(1) [OF checking_client_sane] example_sane [simplified] realistic_size_def
        unpatched_def start_state_def cooling_down_def\<close>)
  then obtain new where new: "PatchPVC False ?p new \<in> set (effects s')" by blast
  show ?thesis
    using growth_terminates [of example_libs of_int example_runner ?policy "example_rules PreferInPlaceVolumeResizeStrategy" "2 ^ 30" 1
        "\<lambda>i. if i = 0 then ?p else new"] rules run new
    by (auto simp: byte_quantities_laws sane_clientD(1) [OF checking_client_sane] realistic_size_def size_ok_def start_state_def)
qed

lemma failed_claim_read:
  "Get_PVC (rn_client example_runner) (pvc_key failed_claim) failed_world = (Inr failed_claim, failed_world)"
proof -
  have "sane_claim byte_quantities of_int failed_claim" by (simp add: sane_claim_def size_ok_def)
  then show ?thesis by simp
qed

lemma failed_claim_target: "recoveryTarget byte_quantities failed_claim = 15 * 2 ^ 30"
proof -
  have "newTargetBytes (10 * 2 ^ 30) (20 * 2 ^ 30) = 15 * 2 ^ 30" by code_simp
  then show ?thesis by (simp add: recoveryTarget_def)
qed

lemma example_version:
  "IsKubernetesVersionGreaterEqual134 (lb_NewVersion example_libs) (lb_Check example_libs) (rn_kubernetesVersion example_runner)"
  unfolding example_libs_def example_runner_def by code_simp

text \<open>
  A recovery does not look at the strategy: also a claim under a policy with the strategy \<open>Off\<close> is
  patched.
\<close>

lemma off_claim_recovered:
  defines "policy \<equiv> (example_policy ''*'' (2 ^ 40))\<lparr>ScaleUp := Some (example_rules OffVolumeResizeStrategy)\<rparr>"
  shows "\<exists>x s'. run_state (reconcile_pvc example_libs example_runner (example_pvca [policy]) (\<lambda>_. []) example_metrics example_start
      failed_claim) (start_state failed_world) = (x, s') \<and>
     PatchPVC True failed_claim (with_request failed_claim [ResourceStorage \<mapsto> 20 * 2 ^ 30] (15 * 2 ^ 30)) \<in> set (effects s')"
proof -
  let ?s = "start_state failed_world :: (int, int cluster) rstate"
  obtain vr where vr: "updateVolumeRecommendationForPVC byte_quantities [] failed_claim (example_metrics (''ns'', ''data'')) = Inr vr"
    using example_refresh by blast
  have get: "Get_PVC (rn_client example_runner) (pvc_key failed_claim) (world ?s) = (Inr failed_claim, failed_world)"
    using failed_claim_read by (simp add: start_state_def)
  have pol: "GetVolumePolicy (lb_quote example_libs) (pvc_name failed_claim) (VolumePolicies (Spec (example_pvca [policy]))) = Inr (Some policy)"
    by (subst GetVolumePolicy_plain) (simp_all add: policy_def)
  have val: "run_state (validatePVC (lb_quantity example_libs) (rn_client example_runner) failed_claim policy) (?s\<lparr>world := failed_world\<rparr>) = (None, ?s)"
    by (simp add: validatePVC_def run_simps policy_def start_state_def)
  obtain x s' where run: "run_state (scale_step example_libs example_runner (example_pvca [policy]) failed_claim policy vr example_start) ?s = (x, s')"
    by fastforce
  have "run_state (reconcile_pvc example_libs example_runner (example_pvca [policy]) (\<lambda>_. []) example_metrics example_start failed_claim) ?s = (x, s')"
    using run_reconcile_scale [where md = example_metrics and owners = "\<lambda>_. []" and a = example_start, OF _ get pol val] vr run by simp
  moreover have "PatchPVC True failed_claim (with_request failed_claim [ResourceStorage \<mapsto> 20 * 2 ^ 30] (15 * 2 ^ 30)) \<in> set (effects s')"
    by (rule scale_step_recovers_iff [OF run, THEN iffD2])
      (use failed_claim_target example_version failed_claim_recovers in \<open>simp_all add: unpatched_def start_state_def\<close>)
  ultimately show ?thesis by blast
qed

theorem recovery_iff_witness:
  "\<exists>x s'. run_state (reconcile_pvc example_libs example_runner example_autoscaler (\<lambda>_. []) example_metrics example_start
      failed_claim) (start_state failed_world) = (x, s') \<and>
     PatchPVC True failed_claim (with_request failed_claim [ResourceStorage \<mapsto> 20 * 2 ^ 30] (15 * 2 ^ 30)) \<in> set (effects s')"
proof -
  let ?policy = "example_policy ''*'' (2 ^ 40)" and ?s = "start_state failed_world :: (int, int cluster) rstate"
  obtain vr where vr: "updateVolumeRecommendationForPVC byte_quantities [] failed_claim (example_metrics (''ns'', ''data'')) = Inr vr"
    using example_refresh by blast
  obtain x s' where run: "run_state (reconcile_pvc example_libs example_runner example_autoscaler (\<lambda>_. []) example_metrics example_start failed_claim) ?s = (x, s')"
    by fastforce
  have get: "Get_PVC (rn_client example_runner) (pvc_key failed_claim) (world ?s) = (Inr failed_claim, failed_world)"
    using failed_claim_read by (simp add: start_state_def)
  have val: "run_state (validatePVC (lb_quantity example_libs) (rn_client example_runner) failed_claim ?policy) (?s\<lparr>world := failed_world\<rparr>) = (None, ?s)"
    using example_validate [of failed_claim ?s] by (simp add: start_state_def)
  have "PatchPVC True failed_claim (with_request failed_claim [ResourceStorage \<mapsto> 20 * 2 ^ 30] (15 * 2 ^ 30)) \<in> set (effects s')"
    by (rule recovery_iff [where owners = "\<lambda>_. []" and md = example_metrics and a = example_start, OF _ get _ val _ _ _ run, THEN iffD2])
      (use vr failed_claim_target example_version failed_claim_recovers example_policy_match in \<open>simp_all add: unpatched_def start_state_def\<close>)
  with run show ?thesis by blast
qed

theorem growth_explained_witness:
  "\<exists>x s' w w' md vi space. run_state (Runner_Start example_libs example_runner [Tick] (NewHeartbeat 60 0)) (start_state example_world) = (x, s') \<and>
     PatchPVC False (example_pvc (10 * 2 ^ 30)) example_grown \<in> set (effects s') \<and>
     rn_metricsSource example_runner w = (Inr md, w') \<and> md (''ns'', ''data'') = Some vi \<and> UsedSpacePercentage vi = Inr space"
proof -
  obtain x s' where run: "run_state (Runner_Start example_libs example_runner [Tick] (NewHeartbeat 60 0)) (start_state example_world) = (x, s')"
    and e: "PatchPVC False (example_pvc (10 * 2 ^ 30)) example_grown \<in> set (effects s')" using example_pass by blast
  have "effects (start_state example_world :: (int, int cluster) rstate) = []" by (simp add: start_state_def)
  from growth_explained [OF example_runner_ok run this e] run e show ?thesis unfolding example_pvc_sel(1) by blast
qed

theorem metrics_well_labelled_witness:
  "\<exists>x s'. run_state (Runner_Start example_libs example_runner [Tick] (NewHeartbeat 60 0)) (start_state example_world) = (x, s') \<and>
     effects s' \<noteq> [] \<and> (\<forall>pod. Evict pod \<notin> set (effects s'))"
proof -
  obtain x s' where run: "run_state (Runner_Start example_libs example_runner [Tick] (NewHeartbeat 60 0)) (start_state example_world) = (x, s')"
    and e: "PatchPVC False (example_pvc (10 * 2 ^ 30)) example_grown \<in> set (effects s')" using example_pass by blast
  from metrics_well_labelled [OF example_runner_ok run] have "\<forall>pod. Evict pod \<notin> set (effects s')"
    by (simp add: start_state_def)
  with run e show ?thesis by fastforce
qed

text \<open>Functions on conditions that satisfy their laws.\<close>

definition set_condition :: "int \<Rightarrow> condition list \<Rightarrow> condition \<Rightarrow> condition list" where
  "set_condition t cs c =
     (if \<exists>d. find (\<lambda>d. c_type d = c_type c) cs = Some d \<and> same_condition d c then cs
      else c\<lparr>c_lastTransitionTime := Some t\<rparr> # filter (\<lambda>d. c_type d \<noteq> c_type c) cs)"

lemma find_filter_type:
  "ty' \<noteq> ty \<Longrightarrow> find (\<lambda>d. c_type d = ty') (filter (\<lambda>d. c_type d \<noteq> ty) cs) = find (\<lambda>d. c_type d = ty') cs"
  by (induction cs) auto

lemma condition_laws_example: "condition_laws (example_libs\<lparr>SetStatusCondition := set_condition\<rparr>)"
  unfolding condition_laws_def
  by (auto simp: example_libs_def set_condition_def find_filter_type same_condition_def find_None_iff intro: filter_True)

theorem status_settles_witness:
  "\<exists>x s1 a' L. condition_laws (L :: int libs) \<and>
     run_state (setStatus L memory_client example_autoscaler (rec_getAggregatedCondition no_rec_conditions)
       (res_getAggregatedCondition no_res_conditions) []) (start_state example_world) = (x, s1) \<and>
     PatchPVCAStatus example_autoscaler a' \<in> set (effects s1) \<and>
     run_state (setStatus L memory_client a' (rec_getAggregatedCondition no_rec_conditions)
       (res_getAggregatedCondition no_res_conditions) []) s1 = (None, s1)"
proof -
  let ?L = "example_libs\<lparr>SetStatusCondition := set_condition\<rparr>" and ?s = "start_state example_world :: (int, int cluster) rstate"
  let ?m = "\<lambda>a. setStatus ?L memory_client a (rec_getAggregatedCondition no_rec_conditions) (res_getAggregatedCondition no_res_conditions) []"
  obtain x s1 where run: "run_state (?m example_autoscaler) ?s = (x, s1)" by fastforce
  then obtain a' where a': "PatchPVCAStatus example_autoscaler a' \<in> set (effects s1)"
    by (auto simp: setStatus_def run_simps Let_def patch_pvca_status_def example_libs_def status_condition_step_def set_condition_def
        rec_getAggregatedCondition_def res_getAggregatedCondition_def no_rec_conditions_def no_res_conditions_def start_state_def split: if_splits)
  have "PatchPVCAStatus example_autoscaler a' \<notin> set (effects ?s)" by (simp add: start_state_def)
  from status_settles [OF condition_laws_example run a' this] condition_laws_example run a' show ?thesis by blast
qed

theorem cooldown_starts_witness:
  "\<exists>a' s'. run_state (resize_step example_libs memory_client (example_pvc (10 * 2 ^ 30))
       ((example_policy ''*'' (2 ^ 40))\<lparr>ScaleUp := Some ((example_rules PreferInPlaceVolumeResizeStrategy)\<lparr>CooldownDuration := Some 60\<rparr>)\<rparr>)
       ScalingReasonSpaceThreshold (11 * 2 ^ 30) (new_VolumeRecommendation ''data'') example_start) (start_state example_world) = (Some a', s') \<and>
     LastResizeTime (getOrCreateVolumeRecommendationForPVC (ac_recs a') ''data'') = Some (cl_clock (world s'))"
proof -
  let ?rules = "(example_rules PreferInPlaceVolumeResizeStrategy)\<lparr>CooldownDuration := Some 60\<rparr>"
  let ?policy = "(example_policy ''*'' (2 ^ 40))\<lparr>ScaleUp := Some ?rules\<rparr>" and ?p = "example_pvc (10 * 2 ^ 30)"
  let ?s = "start_state example_world :: (int, int cluster) rstate"
  let ?new = "resized byte_quantities ?p [ResourceStorage \<mapsto> 10 * 2 ^ 30] (11 * 2 ^ 30)"
  obtain x s' where run: "run_state (resize_step example_libs memory_client ?p ?policy ScalingReasonSpaceThreshold (11 * 2 ^ 30)
      (new_VolumeRecommendation ''data'') example_start) ?s = (x, s')" by fastforce
  have patch: "Patch_PVC memory_client False ?p (resized (lb_quantity example_libs) ?p [ResourceStorage \<mapsto> 10 * 2 ^ 30] (11 * 2 ^ 30)) (world ?s) =
      (Inr ?new, example_world\<lparr>cl_pvcs := [?new]\<rparr>)"
    by (simp add: start_state_def replace_def)
  have rules: "ScaleUp ?policy = Some ?rules" "ResizeStrategy ?rules \<noteq> OffVolumeResizeStrategy" "CooldownDuration ?rules = Some 60"
    "vr_name (new_VolumeRecommendation ''data'') = pvc_name ?p" "\<not> cooling_down memory_client ?rules (new_VolumeRecommendation ''data'') (world ?s)"
    by (simp_all add: PreferInPlaceVolumeResizeStrategy_def OffVolumeResizeStrategy_def new_VolumeRecommendation_def cooling_down_def)
  from cooldown_starts [OF memory_client_identity patch example_pvc_sel(5) rules run] run show ?thesis by auto
qed

end
