(* ===== verification/Go_Memory.thy ===== *)
theory Go_Memory
  imports Main "HOL-Library.Monad_Syntax"
begin

text \<open>
  Go's memory, as far as copying needs it: a list of cells, addressed by position, that grows at
  the end when something is allocated. A pointer is \<open>None\<close> (nil) or the address of a cell, a slice is
  nil or the address of the cell that holds the array of its elements. What a value in memory means
  is given by a reader, which fails on a dangling pointer or on a cell of another type.

  The locale \<open>deep_copier\<close> is the contract of a function that copies deeply; the combinators below
  build such functions for pointers, slices and structs the way generated code does, and each is
  shown to keep the contract.
\<close>

section \<open>The contract\<close>

type_synonym addr = nat

type_synonym 'c memory = "'c list"

type_synonym ('c, 'a) copier = "'a \<Rightarrow> 'c memory \<Rightarrow> ('a \<times> 'c memory) option"

text \<open>
  What a caller may rely on. The cells from \<open>lo\<close> to \<open>hi\<close> are the same in both memories; everything
  else may have been written, and more may have been allocated.
\<close>

definition unchanged :: "addr \<Rightarrow> addr \<Rightarrow> 'c memory \<Rightarrow> 'c memory \<Rightarrow> bool" where
  "unchanged lo hi h m \<longleftrightarrow> hi \<le> length m \<and> (\<forall>a. lo \<le> a \<and> a < hi \<longrightarrow> m ! a = h ! a)"

text \<open>
  A deep copy of a readable value succeeds and only allocates; the copy reads the same, in every
  later memory that has the new cells intact whatever happened to the old ones, and the original
  reads the same in every later memory that has the old cells intact.
\<close>

definition deep_copies :: "('c memory \<Rightarrow> 'a \<Rightarrow> 'v option) \<Rightarrow> ('c, 'a) copier \<Rightarrow> bool" where
  "deep_copies rd copy \<longleftrightarrow>
     (\<forall>h x v. rd h x = Some v \<longrightarrow>
        (\<exists>y hs. copy x h = Some (y, h @ hs) \<and>
           (\<forall>m. unchanged (length h) (length (h @ hs)) (h @ hs) m \<longrightarrow> rd m y = Some v) \<and>
           (\<forall>m. unchanged 0 (length h) h m \<longrightarrow> rd m x = Some v)))"

text \<open>
  For composing copies the contract names the cells a value owns: they exist, the value depends on
  nothing else, and those of a copy are all new.
\<close>

locale deep_copier =
  fixes rd :: "'c memory \<Rightarrow> 'a \<Rightarrow> 'v option"
    and foot :: "'c memory \<Rightarrow> 'a \<Rightarrow> addr set"
    and copy :: "('c, 'a) copier"
  assumes bounded: "rd h x = Some v \<Longrightarrow> foot h x \<subseteq> {..<length h}"
    and local: "rd h x = Some v \<Longrightarrow> (\<And>a. a \<in> foot h x \<Longrightarrow> a < length h' \<and> h' ! a = h ! a) \<Longrightarrow>
      rd h' x = Some v \<and> foot h' x = foot h x"
    and copies: "rd h x = Some v \<Longrightarrow>
      \<exists>y hs. copy x h = Some (y, h @ hs) \<and> rd (h @ hs) y = Some v \<and> foot (h @ hs) y \<subseteq> {length h..<length (h @ hs)}"
begin

lemma extend: "rd h x = Some v \<Longrightarrow> rd (h @ hs) x = Some v \<and> foot (h @ hs) x = foot h x"
  using bounded by (intro local) (auto simp: nth_append)

text \<open>Neither side sees writes to the memory of the other.\<close>

lemma deep_copies: "deep_copies rd copy"
  unfolding deep_copies_def
proof (intro allI impI)
  fix h x v
  assume x: "rd h x = Some v"
  from copies [OF x] obtain y hs where y: "copy x h = Some (y, h @ hs)" "rd (h @ hs) y = Some v"
    "foot (h @ hs) y \<subseteq> {length h..<length (h @ hs)}" by blast
  have "rd m y = Some v" if "unchanged (length h) (length (h @ hs)) (h @ hs) m" for m
    by (rule local [OF y(2), THEN conjunct1]) (use y(3) that in \<open>fastforce simp: unchanged_def\<close>)
  moreover have "rd m x = Some v" if "unchanged 0 (length h) h m" for m
    by (rule local [OF x, THEN conjunct1]) (use bounded [OF x] that in \<open>fastforce simp: unchanged_def\<close>)
  ultimately show "\<exists>y hs. copy x h = Some (y, h @ hs) \<and>
      (\<forall>m. unchanged (length h) (length (h @ hs)) (h @ hs) m \<longrightarrow> rd m y = Some v) \<and>
      (\<forall>m. unchanged 0 (length h) h m \<longrightarrow> rd m x = Some v)"
    using y(1) by blast
qed

end

section \<open>Copying values, pointers, slices and structs\<close>

text \<open>A value without pointers is copied by the assignment.\<close>

definition copy_value :: "('c, 'a) copier" where
  "copy_value x h = Some (x, h)"

definition read_value :: "'c memory \<Rightarrow> 'a \<Rightarrow> 'a option" where
  "read_value h x = Some x"

definition no_foot :: "'c memory \<Rightarrow> 'a \<Rightarrow> addr set" where
  "no_foot h x = {}"

interpretation plain_value: deep_copier read_value no_foot copy_value
  by unfold_locales (auto simp: read_value_def no_foot_def copy_value_def)

text \<open>A pointer: nil, or the address of a cell that holds a value of the pointee type.\<close>

definition cell_at :: "('c \<Rightarrow> 'a option) \<Rightarrow> 'c memory \<Rightarrow> addr \<Rightarrow> 'a option" where
  "cell_at proj h a = (if a < length h then proj (h ! a) else None)"

definition read_pointer :: "('c \<Rightarrow> 'a option) \<Rightarrow> ('c memory \<Rightarrow> 'a \<Rightarrow> 'v option) \<Rightarrow> 'c memory \<Rightarrow> addr option \<Rightarrow> 'v option option" where
  "read_pointer proj rd h p =
     (case p of None \<Rightarrow> Some None
      | Some a \<Rightarrow> (case cell_at proj h a of None \<Rightarrow> None | Some x \<Rightarrow> map_option Some (rd h x)))"

definition foot_pointer :: "('c \<Rightarrow> 'a option) \<Rightarrow> ('c memory \<Rightarrow> 'a \<Rightarrow> addr set) \<Rightarrow> 'c memory \<Rightarrow> addr option \<Rightarrow> addr set" where
  "foot_pointer proj foot h p =
     (case p of None \<Rightarrow> {} | Some a \<Rightarrow> insert a (case cell_at proj h a of None \<Rightarrow> {} | Some x \<Rightarrow> foot h x))"

definition copy_pointer :: "('a \<Rightarrow> 'c) \<Rightarrow> ('c \<Rightarrow> 'a option) \<Rightarrow> ('c, 'a) copier \<Rightarrow> ('c, addr option) copier" where
  "copy_pointer cell proj copy p h =
     (case p of
        None \<Rightarrow> Some (None, h)
      | Some a \<Rightarrow> do {
          x \<leftarrow> cell_at proj h a;
          (y, h') \<leftarrow> copy x h;
          Some (Some (length h'), h' @ [cell y])
        })"

lemma cell_at_append: "a < length h \<Longrightarrow> cell_at proj (h @ hs) a = cell_at proj h a"
  by (simp add: cell_at_def nth_append)

lemma deep_copier_pointer:
  assumes "deep_copier rd foot copy" "\<And>x. proj (cell x) = Some x"
  shows "deep_copier (read_pointer proj rd) (foot_pointer proj foot) (copy_pointer cell proj copy)"
proof -
  note b = deep_copier.bounded [OF assms(1)] and l = deep_copier.local [OF assms(1)] and c = deep_copier.copies [OF assms(1)]
  show ?thesis
  proof unfold_locales
    fix h p v
    assume r: "read_pointer proj rd h p = Some v"
    show "foot_pointer proj foot h p \<subseteq> {..<length h}"
    proof (cases p)
      case (Some a)
      with r obtain x w where x: "cell_at proj h a = Some x" "rd h x = Some w"
        by (auto simp: read_pointer_def split: option.splits)
      then have "a < length h" by (simp add: cell_at_def split: if_splits)
      with b [OF x(2)] x(1) Some show ?thesis by (simp add: foot_pointer_def)
    qed (simp add: foot_pointer_def)
    {
      fix h'
      assume e: "\<And>a. a \<in> foot_pointer proj foot h p \<Longrightarrow> a < length h' \<and> h' ! a = h ! a"
      show "read_pointer proj rd h' p = Some v \<and> foot_pointer proj foot h' p = foot_pointer proj foot h p"
      proof (cases p)
        case (Some a)
        with r obtain x w where x: "cell_at proj h a = Some x" "rd h x = Some w" "v = Some w"
          by (auto simp: read_pointer_def split: option.splits)
        have e': "b \<in> foot h x \<Longrightarrow> b < length h' \<and> h' ! b = h ! b" for b using e Some x by (simp add: foot_pointer_def)
        have "cell_at proj h' a = Some x" using e [of a] x(1) Some by (auto simp: cell_at_def foot_pointer_def split: if_splits)
        with l [OF x(2) e'] x Some show ?thesis by (simp add: read_pointer_def foot_pointer_def)
      qed (use r in \<open>simp add: read_pointer_def foot_pointer_def\<close>)
    }
    show "\<exists>q hs. copy_pointer cell proj copy p h = Some (q, h @ hs) \<and> read_pointer proj rd (h @ hs) q = Some v \<and>
        foot_pointer proj foot (h @ hs) q \<subseteq> {length h..<length (h @ hs)}"
    proof (cases p)
      case (Some a)
      with r obtain x w where x: "cell_at proj h a = Some x" "rd h x = Some w" "v = Some w"
        by (auto simp: read_pointer_def split: option.splits)
      from c [OF x(2)] obtain y hs where y: "copy x h = Some (y, h @ hs)" "rd (h @ hs) y = Some w"
        "foot (h @ hs) y \<subseteq> {length h..<length (h @ hs)}" by blast
      from deep_copier.extend [OF assms(1) y(2), of "[cell y]"]
      have z: "rd (h @ hs @ [cell y]) y = Some w" "foot (h @ hs @ [cell y]) y = foot (h @ hs) y" by simp_all
      have "cell_at proj (h @ hs @ [cell y]) (length (h @ hs)) = Some y"
        using assms(2) nth_append_length [of "h @ hs" "cell y" "[]"] by (simp add: cell_at_def)
      with z y(3) Some x y(1) show ?thesis
        by (intro exI [of _ "Some (length (h @ hs))"] exI [of _ "hs @ [cell y]"])
          (auto simp: copy_pointer_def read_pointer_def foot_pointer_def)
    qed (use r in \<open>simp add: read_pointer_def foot_pointer_def copy_pointer_def\<close>)
  qed
qed

text \<open>A pointer of a type whose package copies what it points to: nil stays nil.\<close>

definition read_nillable :: "('c memory \<Rightarrow> 'a \<Rightarrow> 'v option) \<Rightarrow> 'c memory \<Rightarrow> 'a option \<Rightarrow> 'v option option" where
  "read_nillable rd h p = (case p of None \<Rightarrow> Some None | Some x \<Rightarrow> map_option Some (rd h x))"

definition foot_nillable :: "('c memory \<Rightarrow> 'a \<Rightarrow> addr set) \<Rightarrow> 'c memory \<Rightarrow> 'a option \<Rightarrow> addr set" where
  "foot_nillable foot h p = (case p of None \<Rightarrow> {} | Some x \<Rightarrow> foot h x)"

definition copy_nillable :: "('c, 'a) copier \<Rightarrow> ('c, 'a option) copier" where
  "copy_nillable copy p h =
     (case p of None \<Rightarrow> Some (None, h) | Some x \<Rightarrow> do { (y, h') \<leftarrow> copy x h; Some (Some y, h') })"

lemma deep_copier_nillable:
  assumes "deep_copier rd foot copy"
  shows "deep_copier (read_nillable rd) (foot_nillable foot) (copy_nillable copy)"
proof unfold_locales
  fix h p v
  assume r: "read_nillable rd h p = Some v"
  show "foot_nillable foot h p \<subseteq> {..<length h}"
    using r deep_copier.bounded [OF assms] by (fastforce simp: read_nillable_def foot_nillable_def split: option.splits)
  show "read_nillable rd h' p = Some v \<and> foot_nillable foot h' p = foot_nillable foot h p"
    if "\<And>a. a \<in> foot_nillable foot h p \<Longrightarrow> a < length h' \<and> h' ! a = h ! a" for h'
    using r that deep_copier.local [OF assms, of h _ _ h'] by (cases p) (auto simp: read_nillable_def foot_nillable_def)
  show "\<exists>q hs. copy_nillable copy p h = Some (q, h @ hs) \<and> read_nillable rd (h @ hs) q = Some v \<and>
      foot_nillable foot (h @ hs) q \<subseteq> {length h..<length (h @ hs)}"
  proof (cases p)
    case (Some x)
    with r obtain w where w: "rd h x = Some w" "v = Some w" by (auto simp: read_nillable_def)
    from deep_copier.copies [OF assms w(1)] obtain y hs where "copy x h = Some (y, h @ hs)" "rd (h @ hs) y = Some w"
      "foot (h @ hs) y \<subseteq> {length h..<length (h @ hs)}" by blast
    with Some w(2) show ?thesis
      by (intro exI [of _ "Some y"] exI [of _ hs]) (simp add: copy_nillable_def read_nillable_def foot_nillable_def)
  qed (use r in \<open>simp add: read_nillable_def foot_nillable_def copy_nillable_def\<close>)
qed

text \<open>The elements of a slice, one after the other.\<close>

fun read_elements :: "('c memory \<Rightarrow> 'a \<Rightarrow> 'v option) \<Rightarrow> 'c memory \<Rightarrow> 'a list \<Rightarrow> 'v list option" where
  "read_elements rd h [] = Some []"
| "read_elements rd h (x # xs) = do { v \<leftarrow> rd h x; vs \<leftarrow> read_elements rd h xs; Some (v # vs) }"

definition foot_elements :: "('c memory \<Rightarrow> 'a \<Rightarrow> addr set) \<Rightarrow> 'c memory \<Rightarrow> 'a list \<Rightarrow> addr set" where
  "foot_elements foot h xs = (\<Union>x \<in> set xs. foot h x)"

fun copy_elements :: "('c, 'a) copier \<Rightarrow> ('c, 'a list) copier" where
  "copy_elements copy [] h = Some ([], h)"
| "copy_elements copy (x # xs) h = do { (y, h1) \<leftarrow> copy x h; (ys, h2) \<leftarrow> copy_elements copy xs h1; Some (y # ys, h2) }"

text \<open>Two parts of a struct.\<close>

definition read_both :: "('c memory \<Rightarrow> 'a \<Rightarrow> 'v option) \<Rightarrow> ('c memory \<Rightarrow> 'b \<Rightarrow> 'w option) \<Rightarrow> 'c memory \<Rightarrow> 'a \<times> 'b \<Rightarrow> ('v \<times> 'w) option" where
  "read_both rd1 rd2 h x = do { v \<leftarrow> rd1 h (fst x); w \<leftarrow> rd2 h (snd x); Some (v, w) }"

definition foot_both :: "('c memory \<Rightarrow> 'a \<Rightarrow> addr set) \<Rightarrow> ('c memory \<Rightarrow> 'b \<Rightarrow> addr set) \<Rightarrow> 'c memory \<Rightarrow> 'a \<times> 'b \<Rightarrow> addr set" where
  "foot_both foot1 foot2 h x = foot1 h (fst x) \<union> foot2 h (snd x)"

definition copy_both :: "('c, 'a) copier \<Rightarrow> ('c, 'b) copier \<Rightarrow> ('c, 'a \<times> 'b) copier" where
  "copy_both copy1 copy2 x h = do { (y, h1) \<leftarrow> copy1 (fst x) h; (z, h2) \<leftarrow> copy2 (snd x) h1; Some ((y, z), h2) }"

lemma copies_both:
  assumes "deep_copier rd1 foot1 copy1" "deep_copier rd2 foot2 copy2" "rd1 h x = Some v" "rd2 h y = Some w"
  shows "\<exists>x' y' hs gs. copy1 x h = Some (x', h @ hs) \<and> copy2 y (h @ hs) = Some (y', h @ hs @ gs) \<and>
    rd1 (h @ hs @ gs) x' = Some v \<and> rd2 (h @ hs @ gs) y' = Some w \<and>
    foot1 (h @ hs @ gs) x' \<union> foot2 (h @ hs @ gs) y' \<subseteq> {length h..<length (h @ hs @ gs)}"
proof -
  from deep_copier.copies [OF assms(1,3)] obtain x' hs where x: "copy1 x h = Some (x', h @ hs)" "rd1 (h @ hs) x' = Some v"
    "foot1 (h @ hs) x' \<subseteq> {length h..<length (h @ hs)}" by blast
  from deep_copier.extend [OF assms(2,4)] have "rd2 (h @ hs) y = Some w" by blast
  from deep_copier.copies [OF assms(2) this] obtain y' gs where y: "copy2 y (h @ hs) = Some (y', h @ hs @ gs)"
    "rd2 (h @ hs @ gs) y' = Some w" "foot2 (h @ hs @ gs) y' \<subseteq> {length (h @ hs)..<length (h @ hs @ gs)}" by auto
  from deep_copier.extend [OF assms(1) x(2), of gs] have "rd1 (h @ hs @ gs) x' = Some v" "foot1 (h @ hs @ gs) x' = foot1 (h @ hs) x'" by simp_all
  with x y show ?thesis by (intro exI conjI) auto
qed

lemma deep_copier_both:
  assumes "deep_copier rd1 foot1 copy1" "deep_copier rd2 foot2 copy2"
  shows "deep_copier (read_both rd1 rd2) (foot_both foot1 foot2) (copy_both copy1 copy2)"
proof unfold_locales
  fix h p v
  assume "read_both rd1 rd2 h p = Some v"
  then obtain v1 v2 where r: "rd1 h (fst p) = Some v1" "rd2 h (snd p) = Some v2" "v = (v1, v2)"
    by (auto simp: read_both_def bind_eq_Some_conv)
  show "foot_both foot1 foot2 h p \<subseteq> {..<length h}"
    using deep_copier.bounded [OF assms(1) r(1)] deep_copier.bounded [OF assms(2) r(2)] by (simp add: foot_both_def)
  show "read_both rd1 rd2 h' p = Some v \<and> foot_both foot1 foot2 h' p = foot_both foot1 foot2 h p"
    if "\<And>a. a \<in> foot_both foot1 foot2 h p \<Longrightarrow> a < length h' \<and> h' ! a = h ! a" for h'
    using deep_copier.local [OF assms(1) r(1), of h'] deep_copier.local [OF assms(2) r(2), of h'] that r(3)
    by (simp add: read_both_def foot_both_def)
  show "\<exists>q hs. copy_both copy1 copy2 p h = Some (q, h @ hs) \<and> read_both rd1 rd2 (h @ hs) q = Some v \<and>
      foot_both foot1 foot2 (h @ hs) q \<subseteq> {length h..<length (h @ hs)}"
    using copies_both [OF assms r(1,2)] r(3)
    by (fastforce simp: copy_both_def read_both_def foot_both_def)
qed

lemma elements_extend:
  assumes "deep_copier rd foot copy" "read_elements rd h xs = Some vs"
  shows "read_elements rd (h @ hs) xs = Some vs \<and> foot_elements foot (h @ hs) xs = foot_elements foot h xs"
  using assms(2)
proof (induction xs arbitrary: vs)
  case (Cons x xs)
  then obtain v ws where v: "rd h x = Some v" "read_elements rd h xs = Some ws" "vs = v # ws" by (auto simp: bind_eq_Some_conv)
  with deep_copier.extend [OF assms(1) v(1), of hs] Cons.IH [OF v(2)] show ?case by (simp add: foot_elements_def)
qed (simp add: foot_elements_def)

lemma copies_elements:
  assumes "deep_copier rd foot copy" "read_elements rd h xs = Some vs"
  shows "\<exists>ys hs. copy_elements copy xs h = Some (ys, h @ hs) \<and> read_elements rd (h @ hs) ys = Some vs \<and>
    foot_elements foot (h @ hs) ys \<subseteq> {length h..<length (h @ hs)}"
  using assms(2)
proof (induction xs arbitrary: h vs)
  case (Cons x xs)
  then obtain v ws where v: "rd h x = Some v" "read_elements rd h xs = Some ws" "vs = v # ws" by (auto simp: bind_eq_Some_conv)
  from deep_copier.copies [OF assms(1) v(1)] obtain y hs where y: "copy x h = Some (y, h @ hs)" "rd (h @ hs) y = Some v"
    "foot (h @ hs) y \<subseteq> {length h..<length (h @ hs)}" by blast
  from elements_extend [OF assms(1) v(2)] have "read_elements rd (h @ hs) xs = Some ws" by blast
  from Cons.IH [OF this] obtain ys gs where ys: "copy_elements copy xs (h @ hs) = Some (ys, h @ hs @ gs)"
    "read_elements rd (h @ hs @ gs) ys = Some ws" "foot_elements foot (h @ hs @ gs) ys \<subseteq> {length (h @ hs)..<length (h @ hs @ gs)}" by auto
  from deep_copier.extend [OF assms(1) y(2), of gs] have "rd (h @ hs @ gs) y = Some v" "foot (h @ hs @ gs) y = foot (h @ hs) y" by simp_all
  with y(1,3) ys v(3) show ?case
    by (intro exI [of _ "y # ys"] exI [of _ "hs @ gs"]) (fastforce simp: foot_elements_def)
qed (simp add: foot_elements_def)

lemma deep_copier_elements:
  assumes "deep_copier rd foot copy"
  shows "deep_copier (read_elements rd) (foot_elements foot) (copy_elements copy)"
proof unfold_locales
  fix h xs vs
  assume r: "read_elements rd h xs = Some vs"
  show "foot_elements foot h xs \<subseteq> {..<length h}"
    using r by (induction xs arbitrary: vs)
      (auto simp: foot_elements_def bind_eq_Some_conv dest: deep_copier.bounded [OF assms])
  show "read_elements rd h' xs = Some vs \<and> foot_elements foot h' xs = foot_elements foot h xs"
    if "\<And>a. a \<in> foot_elements foot h xs \<Longrightarrow> a < length h' \<and> h' ! a = h ! a" for h'
    using r that
  proof (induction xs arbitrary: vs)
    case (Cons x xs)
    then obtain v ws where v: "rd h x = Some v" "read_elements rd h xs = Some ws" "vs = v # ws" by (auto simp: bind_eq_Some_conv)
    have "rd h' x = Some v \<and> foot h' x = foot h x"
      by (rule deep_copier.local [OF assms v(1)]) (use Cons.prems(2) in \<open>simp add: foot_elements_def\<close>)
    moreover have "read_elements rd h' xs = Some ws \<and> foot_elements foot h' xs = foot_elements foot h xs"
      by (rule Cons.IH [OF v(2)]) (use Cons.prems(2) in \<open>simp add: foot_elements_def\<close>)
    ultimately show ?case using v(3) by (simp add: foot_elements_def)
  qed (simp add: foot_elements_def)
  show "\<exists>ys hs. copy_elements copy xs h = Some (ys, h @ hs) \<and> read_elements rd (h @ hs) ys = Some vs \<and>
      foot_elements foot (h @ hs) ys \<subseteq> {length h..<length (h @ hs)}"
    by (rule copies_elements [OF assms r])
qed

text \<open>
  A struct: \<^verbatim>\<open>*out = *in\<close> copies all fields, then those that hold pointers are copied deeply.
  \<open>fields\<close> are these fields, \<open>build\<close> writes them, \<open>val\<close> is the value of the struct.
\<close>

lemma deep_copier_struct:
  assumes "deep_copier rd foot copy" "\<And>s t. fields (build s t) = t" "\<And>s t. val (build s t) = val s"
    and "\<And>h s. rd' h s = map_option (val s) (rd h (fields s))"
    and "\<And>s h. copy' s h = map_option (\<lambda>(t, h'). (build s t, h')) (copy (fields s) h)"
  shows "deep_copier rd' (\<lambda>h s. foot h (fields s)) copy'"
proof unfold_locales
  fix h s v
  assume "rd' h s = Some v"
  then obtain w where w: "rd h (fields s) = Some w" "v = val s w" by (auto simp: assms(4))
  show "foot h (fields s) \<subseteq> {..<length h}" by (rule deep_copier.bounded [OF assms(1) w(1)])
  show "rd' h' s = Some v \<and> foot h' (fields s) = foot h (fields s)"
    if "\<And>a. a \<in> foot h (fields s) \<Longrightarrow> a < length h' \<and> h' ! a = h ! a" for h'
    using deep_copier.local [OF assms(1) w(1) that] w(2) by (simp add: assms(4))
  from deep_copier.copies [OF assms(1) w(1)] obtain t hs where "copy (fields s) h = Some (t, h @ hs)" "rd (h @ hs) t = Some w"
    "foot (h @ hs) t \<subseteq> {length h..<length (h @ hs)}" by blast
  then show "\<exists>y hs. copy' s h = Some (y, h @ hs) \<and> rd' (h @ hs) y = Some v \<and> foot (h @ hs) (fields y) \<subseteq> {length h..<length (h @ hs)}"
    using w(2) by (intro exI [of _ "build s t"] exI [of _ hs]) (simp add: assms(2-5))
qed

end
