(* ===== verification/Deep_Copy.thy ===== *)
theory Deep_Copy
  imports Go_Memory Autoscaler_Types
begin

text \<open>
  The generated deep copies (\<^verbatim>\<open>api/autoscaling/v1alpha1/zz_generated.deepcopy.go\<close>), on the API types
  as they lie in memory. The rest of the development works with the values of these types; reading
  a struct gives its value. The copies of the types of other packages (quantities, object and list
  metadata, conditions, times) are parameters with the contract \<open>deep_copier\<close>.

  The code takes a copy before it changes an autoscaler in place and computes the status patch from
  the two (\<open>setStatus\<close>, \<open>SetCondition\<close>, \<open>RemoveCondition\<close>), and the shared cache hands out copies of
  its objects. That the copy is independent of the original is what lets the other theories treat
  the two as values.
\<close>

section \<open>The API types in memory\<close>

text \<open>
  The structs as they lie in memory: optional fields and slices are addresses. \<open>TypeMeta\<close> is the kind
  and the API version. The long names of the source are shortened: \<open>PVCA\<close> is
  \<^verbatim>\<open>PersistentVolumeClaimAutoscaler\<close>.
\<close>

record ScalingRules_mem =
  rm_utilizationThresholdPercent :: "addr option"
  rm_stepPercent :: "addr option"
  rm_minStepAbsolute :: "addr option"
  rm_cooldownDuration :: "addr option"
  rm_resizeStrategy :: string

record 'm VolumePolicy_mem =
  pm_match :: Match
  pm_maxCapacity :: 'm
  pm_scaleUp :: "addr option"

record CurrentVolumeStatus_mem =
  cm_usedSpacePercent :: "addr option"
  cm_usedInodesPercent :: "addr option"
  cm_size :: "addr option"

record TargetRecommendation_mem =
  tm_size :: "addr option"

record VolumeRecommendation_mem =
  vm_name :: string
  vm_current :: CurrentVolumeStatus_mem
  vm_target :: TargetRecommendation_mem
  vm_lastResizeTime :: "addr option"

record PVCASpec_mem =
  sm_autoscalerName :: string
  sm_targetRef :: CrossVersionObjectReference
  sm_volumePolicies :: "addr option"

record PVCAStatus_mem =
  stm_volumeRecommendations :: "addr option"
  stm_conditions :: "addr option"

type_synonym TypeMeta = "string \<times> string"

record 'om PVCA_mem =
  am_typeMeta :: TypeMeta
  am_metadata :: 'om
  am_spec :: PVCASpec_mem
  am_status :: PVCAStatus_mem

record 'lm PVCAList_mem =
  lm_typeMeta :: TypeMeta
  lm_metadata :: 'lm
  lm_items :: "addr option"

text \<open>
  The cells: a pointee, or the array behind a slice. \<open>'m\<close>, \<open>'om\<close>, \<open>'lm\<close> and \<open>'cd\<close> are the
  representations of \<^verbatim>\<open>resource.Quantity\<close>, \<^verbatim>\<open>ObjectMeta\<close>, \<^verbatim>\<open>ListMeta\<close> and \<^verbatim>\<open>Condition\<close>, which may
  point to foreign cells \<open>'x\<close>.
\<close>

datatype ('m, 'om, 'lm, 'cd, 'x) cell =
    IntCell int
  | QuantityCell 'm
  | DurationCell int
  | MatchCell Match
  | CurrentCell CurrentVolumeStatus_mem
  | TargetCell TargetRecommendation_mem
  | RulesCell ScalingRules_mem
  | PolicyCell "'m VolumePolicy_mem"
  | PoliciesCell "'m VolumePolicy_mem list"
  | RecommendationCell VolumeRecommendation_mem
  | RecommendationsCell "VolumeRecommendation_mem list"
  | ConditionsCell "'cd list"
  | SpecCell PVCASpec_mem
  | StatusCell PVCAStatus_mem
  | PVCACell "'om PVCA_mem"
  | PVCAsCell "'om PVCA_mem list"
  | ListCell "'lm PVCAList_mem"
  | ForeignCell 'x

definition int_cell :: "('m, 'om, 'lm, 'cd, 'x) cell \<Rightarrow> int option" where
  "int_cell c = (case c of IntCell x \<Rightarrow> Some x | _ \<Rightarrow> None)"

definition quantity_cell :: "('m, 'om, 'lm, 'cd, 'x) cell \<Rightarrow> 'm option" where
  "quantity_cell c = (case c of QuantityCell x \<Rightarrow> Some x | _ \<Rightarrow> None)"

definition duration_cell :: "('m, 'om, 'lm, 'cd, 'x) cell \<Rightarrow> int option" where
  "duration_cell c = (case c of DurationCell x \<Rightarrow> Some x | _ \<Rightarrow> None)"

definition match_cell :: "('m, 'om, 'lm, 'cd, 'x) cell \<Rightarrow> Match option" where
  "match_cell c = (case c of MatchCell x \<Rightarrow> Some x | _ \<Rightarrow> None)"

definition current_cell :: "('m, 'om, 'lm, 'cd, 'x) cell \<Rightarrow> CurrentVolumeStatus_mem option" where
  "current_cell c = (case c of CurrentCell x \<Rightarrow> Some x | _ \<Rightarrow> None)"

definition target_cell :: "('m, 'om, 'lm, 'cd, 'x) cell \<Rightarrow> TargetRecommendation_mem option" where
  "target_cell c = (case c of TargetCell x \<Rightarrow> Some x | _ \<Rightarrow> None)"

definition rules_cell :: "('m, 'om, 'lm, 'cd, 'x) cell \<Rightarrow> ScalingRules_mem option" where
  "rules_cell c = (case c of RulesCell x \<Rightarrow> Some x | _ \<Rightarrow> None)"

definition policy_cell :: "('m, 'om, 'lm, 'cd, 'x) cell \<Rightarrow> ('m VolumePolicy_mem) option" where
  "policy_cell c = (case c of PolicyCell x \<Rightarrow> Some x | _ \<Rightarrow> None)"

definition policies_cell :: "('m, 'om, 'lm, 'cd, 'x) cell \<Rightarrow> ('m VolumePolicy_mem list) option" where
  "policies_cell c = (case c of PoliciesCell x \<Rightarrow> Some x | _ \<Rightarrow> None)"

definition recommendation_cell :: "('m, 'om, 'lm, 'cd, 'x) cell \<Rightarrow> VolumeRecommendation_mem option" where
  "recommendation_cell c = (case c of RecommendationCell x \<Rightarrow> Some x | _ \<Rightarrow> None)"

definition recommendations_cell :: "('m, 'om, 'lm, 'cd, 'x) cell \<Rightarrow> (VolumeRecommendation_mem list) option" where
  "recommendations_cell c = (case c of RecommendationsCell x \<Rightarrow> Some x | _ \<Rightarrow> None)"

definition conditions_cell :: "('m, 'om, 'lm, 'cd, 'x) cell \<Rightarrow> ('cd list) option" where
  "conditions_cell c = (case c of ConditionsCell x \<Rightarrow> Some x | _ \<Rightarrow> None)"

definition spec_cell :: "('m, 'om, 'lm, 'cd, 'x) cell \<Rightarrow> PVCASpec_mem option" where
  "spec_cell c = (case c of SpecCell x \<Rightarrow> Some x | _ \<Rightarrow> None)"

definition status_cell :: "('m, 'om, 'lm, 'cd, 'x) cell \<Rightarrow> PVCAStatus_mem option" where
  "status_cell c = (case c of StatusCell x \<Rightarrow> Some x | _ \<Rightarrow> None)"

definition pvca_cell :: "('m, 'om, 'lm, 'cd, 'x) cell \<Rightarrow> ('om PVCA_mem) option" where
  "pvca_cell c = (case c of PVCACell x \<Rightarrow> Some x | _ \<Rightarrow> None)"

definition pvcas_cell :: "('m, 'om, 'lm, 'cd, 'x) cell \<Rightarrow> ('om PVCA_mem list) option" where
  "pvcas_cell c = (case c of PVCAsCell x \<Rightarrow> Some x | _ \<Rightarrow> None)"

definition list_cell :: "('m, 'om, 'lm, 'cd, 'x) cell \<Rightarrow> ('lm PVCAList_mem) option" where
  "list_cell c = (case c of ListCell x \<Rightarrow> Some x | _ \<Rightarrow> None)"

lemmas cell_projections =
  int_cell_def quantity_cell_def duration_cell_def match_cell_def current_cell_def target_cell_def
  rules_cell_def policy_cell_def policies_cell_def recommendation_cell_def recommendations_cell_def
  conditions_cell_def spec_cell_def status_cell_def pvca_cell_def pvcas_cell_def list_cell_def

lemma cell_simps [simp]:
  "int_cell (IntCell x0) = Some x0"
  "quantity_cell (QuantityCell x1) = Some x1"
  "duration_cell (DurationCell x2) = Some x2"
  "match_cell (MatchCell x3) = Some x3"
  "current_cell (CurrentCell x4) = Some x4"
  "target_cell (TargetCell x5) = Some x5"
  "rules_cell (RulesCell x6) = Some x6"
  "policy_cell (PolicyCell x7) = Some x7"
  "policies_cell (PoliciesCell x8) = Some x8"
  "recommendation_cell (RecommendationCell x9) = Some x9"
  "recommendations_cell (RecommendationsCell x10) = Some x10"
  "conditions_cell (ConditionsCell x11) = Some x11"
  "spec_cell (SpecCell x12) = Some x12"
  "status_cell (StatusCell x13) = Some x13"
  "pvca_cell (PVCACell x14) = Some x14"
  "pvcas_cell (PVCAsCell x15) = Some x15"
  "list_cell (ListCell x16) = Some x16"
  by (simp_all add: cell_projections)

text \<open>
  The copies of the types of other packages are parameters. \<^verbatim>\<open>Time.DeepCopy\<close> is called on pointers
  that are not nil.
\<close>

record ('c, 'm, 'om, 'lm, 'cd) foreign_copies =
  Quantity_DeepCopy :: "('c, 'm) copier"
  ObjectMeta_DeepCopyInto :: "('c, 'om) copier"
  ListMeta_DeepCopyInto :: "('c, 'lm) copier"
  Condition_DeepCopyInto :: "('c, 'cd) copier"
  Time_DeepCopy :: "('c, addr) copier"

type_synonym ('m, 'om, 'lm, 'cd, 'x) copies =
  "(('m, 'om, 'lm, 'cd, 'x) cell, 'm, 'om, 'lm, 'cd) foreign_copies"

type_synonym ('m, 'om, 'lm, 'cd, 'x, 'a) api_copier = "(('m, 'om, 'lm, 'cd, 'x) cell, 'a) copier"

section \<open>The generated functions\<close>

text \<open>
  \<open>T_DeepCopyInto\<close> returns what is written to \<^verbatim>\<open>*out\<close>: all fields as they are, then new pointees
  and arrays for the fields that are not nil. It has no value where the memory does not hold what
  the types say, which does not happen in Go; reaching a value is part of the theorem below.
\<close>

definition CurrentVolumeStatus_DeepCopyInto ::
  "('m, 'om, 'lm, 'cd, 'x) copies \<Rightarrow> ('m, 'om, 'lm, 'cd, 'x, CurrentVolumeStatus_mem) api_copier" where
  "CurrentVolumeStatus_DeepCopyInto F src h = do {
     (space, h1) \<leftarrow> copy_pointer IntCell int_cell copy_value (cm_usedSpacePercent src) h;
     (inodes, h2) \<leftarrow> copy_pointer IntCell int_cell copy_value (cm_usedInodesPercent src) h1;
     (size, h3) \<leftarrow> copy_pointer QuantityCell quantity_cell (Quantity_DeepCopy F) (cm_size src) h2;
     Some (src\<lparr>cm_usedSpacePercent := space, cm_usedInodesPercent := inodes, cm_size := size\<rparr>, h3)
   }"

definition Match_DeepCopyInto :: "('m, 'om, 'lm, 'cd, 'x, Match) api_copier" where
  "Match_DeepCopyInto src h = Some (src, h)"

definition ScalingRules_DeepCopyInto ::
  "('m, 'om, 'lm, 'cd, 'x) copies \<Rightarrow> ('m, 'om, 'lm, 'cd, 'x, ScalingRules_mem) api_copier" where
  "ScalingRules_DeepCopyInto F src h = do {
     (threshold, h1) \<leftarrow> copy_pointer IntCell int_cell copy_value (rm_utilizationThresholdPercent src) h;
     (step, h2) \<leftarrow> copy_pointer IntCell int_cell copy_value (rm_stepPercent src) h1;
     (minStep, h3) \<leftarrow> copy_pointer QuantityCell quantity_cell (Quantity_DeepCopy F) (rm_minStepAbsolute src) h2;
     (cooldown, h4) \<leftarrow> copy_pointer DurationCell duration_cell copy_value (rm_cooldownDuration src) h3;
     Some (src\<lparr>rm_utilizationThresholdPercent := threshold, rm_stepPercent := step,
       rm_minStepAbsolute := minStep, rm_cooldownDuration := cooldown\<rparr>, h4)
   }"

definition TargetRecommendation_DeepCopyInto ::
  "('m, 'om, 'lm, 'cd, 'x) copies \<Rightarrow> ('m, 'om, 'lm, 'cd, 'x, TargetRecommendation_mem) api_copier" where
  "TargetRecommendation_DeepCopyInto F src h = do {
     (size, h1) \<leftarrow> copy_pointer QuantityCell quantity_cell (Quantity_DeepCopy F) (tm_size src) h;
     Some (src\<lparr>tm_size := size\<rparr>, h1)
   }"

definition VolumePolicy_DeepCopyInto ::
  "('m, 'om, 'lm, 'cd, 'x) copies \<Rightarrow> ('m, 'om, 'lm, 'cd, 'x, 'm VolumePolicy_mem) api_copier" where
  "VolumePolicy_DeepCopyInto F src h = do {
     (maxCapacity, h1) \<leftarrow> Quantity_DeepCopy F (pm_maxCapacity src) h;
     (scaleUp, h2) \<leftarrow> copy_pointer RulesCell rules_cell (ScalingRules_DeepCopyInto F) (pm_scaleUp src) h1;
     Some (src\<lparr>pm_match := pm_match src, pm_maxCapacity := maxCapacity, pm_scaleUp := scaleUp\<rparr>, h2)
   }"

definition VolumeRecommendation_DeepCopyInto ::
  "('m, 'om, 'lm, 'cd, 'x) copies \<Rightarrow> ('m, 'om, 'lm, 'cd, 'x, VolumeRecommendation_mem) api_copier" where
  "VolumeRecommendation_DeepCopyInto F src h = do {
     (current, h1) \<leftarrow> CurrentVolumeStatus_DeepCopyInto F (vm_current src) h;
     (target, h2) \<leftarrow> TargetRecommendation_DeepCopyInto F (vm_target src) h1;
     (lastResizeTime, h3) \<leftarrow> copy_nillable (Time_DeepCopy F) (vm_lastResizeTime src) h2;
     Some (src\<lparr>vm_current := current, vm_target := target, vm_lastResizeTime := lastResizeTime\<rparr>, h3)
   }"

definition PVCASpec_DeepCopyInto ::
  "('m, 'om, 'lm, 'cd, 'x) copies \<Rightarrow> ('m, 'om, 'lm, 'cd, 'x, PVCASpec_mem) api_copier" where
  "PVCASpec_DeepCopyInto F src h = do {
     (policies, h1) \<leftarrow> copy_pointer PoliciesCell policies_cell (copy_elements (VolumePolicy_DeepCopyInto F)) (sm_volumePolicies src) h;
     Some (src\<lparr>sm_targetRef := sm_targetRef src, sm_volumePolicies := policies\<rparr>, h1)
   }"

definition PVCAStatus_DeepCopyInto ::
  "('m, 'om, 'lm, 'cd, 'x) copies \<Rightarrow> ('m, 'om, 'lm, 'cd, 'x, PVCAStatus_mem) api_copier" where
  "PVCAStatus_DeepCopyInto F src h = do {
     (recs, h1) \<leftarrow> copy_pointer RecommendationsCell recommendations_cell
       (copy_elements (VolumeRecommendation_DeepCopyInto F)) (stm_volumeRecommendations src) h;
     (conds, h2) \<leftarrow> copy_pointer ConditionsCell conditions_cell (copy_elements (Condition_DeepCopyInto F)) (stm_conditions src) h1;
     Some (src\<lparr>stm_volumeRecommendations := recs, stm_conditions := conds\<rparr>, h2)
   }"

definition PVCA_DeepCopyInto ::
  "('m, 'om, 'lm, 'cd, 'x) copies \<Rightarrow> ('m, 'om, 'lm, 'cd, 'x, 'om PVCA_mem) api_copier" where
  "PVCA_DeepCopyInto F src h = do {
     (meta, h1) \<leftarrow> ObjectMeta_DeepCopyInto F (am_metadata src) h;
     (spec, h2) \<leftarrow> PVCASpec_DeepCopyInto F (am_spec src) h1;
     (status, h3) \<leftarrow> PVCAStatus_DeepCopyInto F (am_status src) h2;
     Some (src\<lparr>am_typeMeta := am_typeMeta src, am_metadata := meta, am_spec := spec, am_status := status\<rparr>, h3)
   }"

definition PVCAList_DeepCopyInto ::
  "('m, 'om, 'lm, 'cd, 'x) copies \<Rightarrow> ('m, 'om, 'lm, 'cd, 'x, 'lm PVCAList_mem) api_copier" where
  "PVCAList_DeepCopyInto F src h = do {
     (meta, h1) \<leftarrow> ListMeta_DeepCopyInto F (lm_metadata src) h;
     (items, h2) \<leftarrow> copy_pointer PVCAsCell pvcas_cell (copy_elements (PVCA_DeepCopyInto F)) (lm_items src) h1;
     Some (src\<lparr>lm_typeMeta := lm_typeMeta src, lm_metadata := meta, lm_items := items\<rparr>, h2)
   }"

text \<open>\<open>DeepCopy\<close>: nil for nil, otherwise a new struct into which the old one is copied.\<close>

type_synonym ('m, 'om, 'lm, 'cd, 'x) pointer_copier = "('m, 'om, 'lm, 'cd, 'x, addr option) api_copier"

definition CurrentVolumeStatus_DeepCopy :: "('m, 'om, 'lm, 'cd, 'x) copies \<Rightarrow> ('m, 'om, 'lm, 'cd, 'x) pointer_copier" where
  "CurrentVolumeStatus_DeepCopy F = copy_pointer CurrentCell current_cell (CurrentVolumeStatus_DeepCopyInto F)"

definition Match_DeepCopy :: "('m, 'om, 'lm, 'cd, 'x) pointer_copier" where
  "Match_DeepCopy = copy_pointer MatchCell match_cell Match_DeepCopyInto"

definition PVCA_DeepCopy :: "('m, 'om, 'lm, 'cd, 'x) copies \<Rightarrow> ('m, 'om, 'lm, 'cd, 'x) pointer_copier" where
  "PVCA_DeepCopy F = copy_pointer PVCACell pvca_cell (PVCA_DeepCopyInto F)"

definition PVCAList_DeepCopy :: "('m, 'om, 'lm, 'cd, 'x) copies \<Rightarrow> ('m, 'om, 'lm, 'cd, 'x) pointer_copier" where
  "PVCAList_DeepCopy F = copy_pointer ListCell list_cell (PVCAList_DeepCopyInto F)"

definition PVCASpec_DeepCopy :: "('m, 'om, 'lm, 'cd, 'x) copies \<Rightarrow> ('m, 'om, 'lm, 'cd, 'x) pointer_copier" where
  "PVCASpec_DeepCopy F = copy_pointer SpecCell spec_cell (PVCASpec_DeepCopyInto F)"

definition PVCAStatus_DeepCopy :: "('m, 'om, 'lm, 'cd, 'x) copies \<Rightarrow> ('m, 'om, 'lm, 'cd, 'x) pointer_copier" where
  "PVCAStatus_DeepCopy F = copy_pointer StatusCell status_cell (PVCAStatus_DeepCopyInto F)"

definition ScalingRules_DeepCopy :: "('m, 'om, 'lm, 'cd, 'x) copies \<Rightarrow> ('m, 'om, 'lm, 'cd, 'x) pointer_copier" where
  "ScalingRules_DeepCopy F = copy_pointer RulesCell rules_cell (ScalingRules_DeepCopyInto F)"

definition TargetRecommendation_DeepCopy :: "('m, 'om, 'lm, 'cd, 'x) copies \<Rightarrow> ('m, 'om, 'lm, 'cd, 'x) pointer_copier" where
  "TargetRecommendation_DeepCopy F = copy_pointer TargetCell target_cell (TargetRecommendation_DeepCopyInto F)"

definition VolumePolicy_DeepCopy :: "('m, 'om, 'lm, 'cd, 'x) copies \<Rightarrow> ('m, 'om, 'lm, 'cd, 'x) pointer_copier" where
  "VolumePolicy_DeepCopy F = copy_pointer PolicyCell policy_cell (VolumePolicy_DeepCopyInto F)"

definition VolumeRecommendation_DeepCopy :: "('m, 'om, 'lm, 'cd, 'x) copies \<Rightarrow> ('m, 'om, 'lm, 'cd, 'x) pointer_copier" where
  "VolumeRecommendation_DeepCopy F = copy_pointer RecommendationCell recommendation_cell (VolumeRecommendation_DeepCopyInto F)"

definition PVCA_DeepCopyObject :: "('m, 'om, 'lm, 'cd, 'x) copies \<Rightarrow> ('m, 'om, 'lm, 'cd, 'x) pointer_copier" where
  "PVCA_DeepCopyObject F src h = do {
     (c, h1) \<leftarrow> PVCA_DeepCopy F src h;
     Some (if c \<noteq> None then c else None, h1)
   }"

definition PVCAList_DeepCopyObject :: "('m, 'om, 'lm, 'cd, 'x) copies \<Rightarrow> ('m, 'om, 'lm, 'cd, 'x) pointer_copier" where
  "PVCAList_DeepCopyObject F src h = do {
     (c, h1) \<leftarrow> PVCAList_DeepCopy F src h;
     Some (if c \<noteq> None then c else None, h1)
   }"

section \<open>What the memory means\<close>

text \<open>
  How the types of the other packages are read, and which cells they own; with their copies they
  satisfy the contract.
\<close>

record ('c, 'm, 'om, 'lm, 'cd, 'q, 'o, 'l) foreign_reads =
  read_quantity :: "'c memory \<Rightarrow> 'm \<Rightarrow> 'q option"
  foot_quantity :: "'c memory \<Rightarrow> 'm \<Rightarrow> addr set"
  read_meta :: "'c memory \<Rightarrow> 'om \<Rightarrow> 'o option"
  foot_meta :: "'c memory \<Rightarrow> 'om \<Rightarrow> addr set"
  read_listmeta :: "'c memory \<Rightarrow> 'lm \<Rightarrow> 'l option"
  foot_listmeta :: "'c memory \<Rightarrow> 'lm \<Rightarrow> addr set"
  read_condition :: "'c memory \<Rightarrow> 'cd \<Rightarrow> condition option"
  foot_condition :: "'c memory \<Rightarrow> 'cd \<Rightarrow> addr set"
  read_time :: "'c memory \<Rightarrow> addr \<Rightarrow> int option"
  foot_time :: "'c memory \<Rightarrow> addr \<Rightarrow> addr set"

definition foreign_laws ::
  "('c, 'm, 'om, 'lm, 'cd) foreign_copies \<Rightarrow> ('c, 'm, 'om, 'lm, 'cd, 'q, 'o, 'l) foreign_reads \<Rightarrow> bool" where
  "foreign_laws F R \<longleftrightarrow>
     deep_copier (read_quantity R) (foot_quantity R) (Quantity_DeepCopy F) \<and>
     deep_copier (read_meta R) (foot_meta R) (ObjectMeta_DeepCopyInto F) \<and>
     deep_copier (read_listmeta R) (foot_listmeta R) (ListMeta_DeepCopyInto F) \<and>
     deep_copier (read_condition R) (foot_condition R) (Condition_DeepCopyInto F) \<and>
     deep_copier (read_time R) (foot_time R) (Time_DeepCopy F)"

lemma foreign_lawsD:
  assumes "foreign_laws F R"
  shows "deep_copier (read_quantity R) (foot_quantity R) (Quantity_DeepCopy F)"
    "deep_copier (read_meta R) (foot_meta R) (ObjectMeta_DeepCopyInto F)"
    "deep_copier (read_listmeta R) (foot_listmeta R) (ListMeta_DeepCopyInto F)"
    "deep_copier (read_condition R) (foot_condition R) (Condition_DeepCopyInto F)"
    "deep_copier (read_time R) (foot_time R) (Time_DeepCopy F)"
  using assms unfolding foreign_laws_def by blast+

type_synonym ('m, 'om, 'lm, 'cd, 'x, 'q, 'o, 'l) reads =
  "(('m, 'om, 'lm, 'cd, 'x) cell, 'm, 'om, 'lm, 'cd, 'q, 'o, 'l) foreign_reads"

type_synonym ('m, 'om, 'lm, 'cd, 'x, 'a, 'v) reader = "('m, 'om, 'lm, 'cd, 'x) cell memory \<Rightarrow> 'a \<Rightarrow> 'v option"

abbreviation read_int_pointer :: "('m, 'om, 'lm, 'cd, 'x, addr option, int option) reader" where
  "read_int_pointer \<equiv> read_pointer int_cell read_value"

abbreviation read_duration_pointer :: "('m, 'om, 'lm, 'cd, 'x, addr option, int option) reader" where
  "read_duration_pointer \<equiv> read_pointer duration_cell read_value"

abbreviation read_quantity_pointer :: "('m, 'om, 'lm, 'cd, 'x, 'q, 'o, 'l) reads \<Rightarrow> ('m, 'om, 'lm, 'cd, 'x, addr option, 'q option) reader" where
  "read_quantity_pointer R \<equiv> read_pointer quantity_cell (read_quantity R)"

text \<open>A whole object: its kind, its metadata, its spec and its status.\<close>

type_synonym ('o, 'q) api_object = "TypeMeta \<times> 'o \<times> 'q PVCASpec \<times> 'q PVCAStatus"

text \<open>A nil slice reads like an empty one.\<close>

definition slice :: "'v list option \<Rightarrow> 'v list" where
  "slice x = (case x of None \<Rightarrow> [] | Some xs \<Rightarrow> xs)"

definition read_CurrentVolumeStatus ::
  "('m, 'om, 'lm, 'cd, 'x, 'q, 'o, 'l) reads \<Rightarrow> ('m, 'om, 'lm, 'cd, 'x, CurrentVolumeStatus_mem, 'q CurrentVolumeStatus) reader" where
  "read_CurrentVolumeStatus R h s = do {
     space \<leftarrow> read_int_pointer h (cm_usedSpacePercent s);
     inodes \<leftarrow> read_int_pointer h (cm_usedInodesPercent s);
     size \<leftarrow> read_quantity_pointer R h (cm_size s);
     Some \<lparr>UsedSpacePercent = space, UsedInodesPercent = inodes, current_size = size\<rparr>
   }"

definition read_TargetRecommendation ::
  "('m, 'om, 'lm, 'cd, 'x, 'q, 'o, 'l) reads \<Rightarrow> ('m, 'om, 'lm, 'cd, 'x, TargetRecommendation_mem, 'q TargetRecommendation) reader" where
  "read_TargetRecommendation R h s = do { size \<leftarrow> read_quantity_pointer R h (tm_size s); Some \<lparr>target_size = size\<rparr> }"

definition read_ScalingRules ::
  "('m, 'om, 'lm, 'cd, 'x, 'q, 'o, 'l) reads \<Rightarrow> ('m, 'om, 'lm, 'cd, 'x, ScalingRules_mem, 'q ScalingRules) reader" where
  "read_ScalingRules R h s = do {
     threshold \<leftarrow> read_int_pointer h (rm_utilizationThresholdPercent s);
     step \<leftarrow> read_int_pointer h (rm_stepPercent s);
     minStep \<leftarrow> read_quantity_pointer R h (rm_minStepAbsolute s);
     cooldown \<leftarrow> read_duration_pointer h (rm_cooldownDuration s);
     Some \<lparr>UtilizationThresholdPercent = threshold, StepPercent = step, MinStepAbsolute = minStep,
       CooldownDuration = cooldown, ResizeStrategy = rm_resizeStrategy s\<rparr>
   }"

definition read_VolumePolicy ::
  "('m, 'om, 'lm, 'cd, 'x, 'q, 'o, 'l) reads \<Rightarrow> ('m, 'om, 'lm, 'cd, 'x, 'm VolumePolicy_mem, 'q VolumePolicy) reader" where
  "read_VolumePolicy R h s = do {
     maxCapacity \<leftarrow> read_quantity R h (pm_maxCapacity s);
     scaleUp \<leftarrow> read_pointer rules_cell (read_ScalingRules R) h (pm_scaleUp s);
     Some \<lparr>vp_match = pm_match s, MaxCapacity = maxCapacity, ScaleUp = scaleUp\<rparr>
   }"

definition read_VolumeRecommendation ::
  "('m, 'om, 'lm, 'cd, 'x, 'q, 'o, 'l) reads \<Rightarrow> ('m, 'om, 'lm, 'cd, 'x, VolumeRecommendation_mem, 'q VolumeRecommendation) reader" where
  "read_VolumeRecommendation R h s = do {
     current \<leftarrow> read_CurrentVolumeStatus R h (vm_current s);
     target \<leftarrow> read_TargetRecommendation R h (vm_target s);
     time \<leftarrow> read_nillable (read_time R) h (vm_lastResizeTime s);
     Some \<lparr>vr_name = vm_name s, Current = current, Target = target, LastResizeTime = time\<rparr>
   }"

definition read_PVCASpec ::
  "('m, 'om, 'lm, 'cd, 'x, 'q, 'o, 'l) reads \<Rightarrow> ('m, 'om, 'lm, 'cd, 'x, PVCASpec_mem, 'q PVCASpec) reader" where
  "read_PVCASpec R h s = do {
     policies \<leftarrow> read_pointer policies_cell (read_elements (read_VolumePolicy R)) h (sm_volumePolicies s);
     Some \<lparr>AutoscalerName = sm_autoscalerName s, TargetRef = sm_targetRef s, VolumePolicies = slice policies\<rparr>
   }"

definition read_PVCAStatus ::
  "('m, 'om, 'lm, 'cd, 'x, 'q, 'o, 'l) reads \<Rightarrow> ('m, 'om, 'lm, 'cd, 'x, PVCAStatus_mem, 'q PVCAStatus) reader" where
  "read_PVCAStatus R h s = do {
     recs \<leftarrow> read_pointer recommendations_cell (read_elements (read_VolumeRecommendation R)) h (stm_volumeRecommendations s);
     conds \<leftarrow> read_pointer conditions_cell (read_elements (read_condition R)) h (stm_conditions s);
     Some \<lparr>VolumeRecommendations = slice recs, Conditions = slice conds\<rparr>
   }"

definition read_PVCA ::
  "('m, 'om, 'lm, 'cd, 'x, 'q, 'o, 'l) reads \<Rightarrow> ('m, 'om, 'lm, 'cd, 'x, 'om PVCA_mem, ('o, 'q) api_object) reader" where
  "read_PVCA R h s = do {
     meta \<leftarrow> read_meta R h (am_metadata s);
     spec \<leftarrow> read_PVCASpec R h (am_spec s);
     status \<leftarrow> read_PVCAStatus R h (am_status s);
     Some (am_typeMeta s, meta, spec, status)
   }"

definition read_PVCAList ::
  "('m, 'om, 'lm, 'cd, 'x, 'q, 'o, 'l) reads \<Rightarrow> ('m, 'om, 'lm, 'cd, 'x, 'lm PVCAList_mem, TypeMeta \<times> 'l \<times> ('o, 'q) api_object list) reader" where
  "read_PVCAList R h s = do {
     meta \<leftarrow> read_listmeta R h (lm_metadata s);
     items \<leftarrow> read_pointer pvcas_cell (read_elements (read_PVCA R)) h (lm_items s);
     Some (lm_typeMeta s, meta, slice items)
   }"

section \<open>Every generated function copies deeply\<close>

text \<open>Unfolding a struct copy into the copies of its fields.\<close>

lemma bind_case: "Option.bind x f = (case x of None \<Rightarrow> None | Some y \<Rightarrow> f y)"
  by (cases x) simp_all

lemmas struct_simps = read_both_def copy_both_def map_option_case bind_case

lemma copy_int: "deep_copier read_int_pointer (foot_pointer int_cell no_foot) (copy_pointer IntCell int_cell copy_value)"
  by (rule deep_copier_pointer [OF plain_value.deep_copier_axioms]) simp

lemma copy_duration: "deep_copier read_duration_pointer (foot_pointer duration_cell no_foot) (copy_pointer DurationCell duration_cell copy_value)"
  by (rule deep_copier_pointer [OF plain_value.deep_copier_axioms]) simp

lemma copy_quantity:
  assumes "foreign_laws F R"
  shows "deep_copier (read_quantity_pointer R) (foot_pointer quantity_cell (foot_quantity R))
    (copy_pointer QuantityCell quantity_cell (Quantity_DeepCopy F))"
  by (rule deep_copier_pointer [OF foreign_lawsD(1) [OF assms]]) simp

lemma copy_TargetRecommendation:
  assumes "foreign_laws F R"
  shows "\<exists>foot. deep_copier (read_TargetRecommendation R) foot (TargetRecommendation_DeepCopyInto F)"
  by (rule exI, rule deep_copier_struct [OF copy_quantity [OF assms], where fields = tm_size and build = "\<lambda>s t. s\<lparr>tm_size := t\<rparr>"
      and val = "\<lambda>s q. \<lparr>target_size = q\<rparr>"])
    (simp_all add: read_TargetRecommendation_def TargetRecommendation_DeepCopyInto_def struct_simps split: option.split prod.split)

lemma copy_CurrentVolumeStatus:
  assumes "foreign_laws F R"
  shows "\<exists>foot. deep_copier (read_CurrentVolumeStatus R) foot (CurrentVolumeStatus_DeepCopyInto F)"
  by (rule exI, rule deep_copier_struct [OF deep_copier_both [OF copy_int deep_copier_both [OF copy_int copy_quantity [OF assms]]],
      where fields = "\<lambda>s. (cm_usedSpacePercent s, cm_usedInodesPercent s, cm_size s)"
      and build = "\<lambda>s (a, b, c). s\<lparr>cm_usedSpacePercent := a, cm_usedInodesPercent := b, cm_size := c\<rparr>"
      and val = "\<lambda>s (a, b, c). \<lparr>UsedSpacePercent = a, UsedInodesPercent = b, current_size = c\<rparr>"])
    (auto simp: read_CurrentVolumeStatus_def CurrentVolumeStatus_DeepCopyInto_def struct_simps split: option.split prod.split)

lemma copy_ScalingRules:
  assumes "foreign_laws F R"
  shows "\<exists>foot. deep_copier (read_ScalingRules R) foot (ScalingRules_DeepCopyInto F)"
  by (rule exI, rule deep_copier_struct [OF deep_copier_both [OF copy_int deep_copier_both [OF copy_int
        deep_copier_both [OF copy_quantity [OF assms] copy_duration]]],
      where fields = "\<lambda>s. (rm_utilizationThresholdPercent s, rm_stepPercent s, rm_minStepAbsolute s, rm_cooldownDuration s)"
      and build = "\<lambda>s (a, b, c, d). s\<lparr>rm_utilizationThresholdPercent := a, rm_stepPercent := b, rm_minStepAbsolute := c, rm_cooldownDuration := d\<rparr>"
      and val = "\<lambda>s (a, b, c, d). \<lparr>UtilizationThresholdPercent = a, StepPercent = b, MinStepAbsolute = c, CooldownDuration = d,
        ResizeStrategy = rm_resizeStrategy s\<rparr>"])
    (auto simp: read_ScalingRules_def ScalingRules_DeepCopyInto_def struct_simps split: option.split prod.split)

lemma copy_VolumePolicy:
  assumes "foreign_laws F R"
  shows "\<exists>foot. deep_copier (read_VolumePolicy R) foot (VolumePolicy_DeepCopyInto F)"
proof -
  obtain foot where "deep_copier (read_ScalingRules R) foot (ScalingRules_DeepCopyInto F)" using copy_ScalingRules [OF assms] by blast
  then have s: "deep_copier (read_pointer rules_cell (read_ScalingRules R)) (foot_pointer rules_cell foot)
      (copy_pointer RulesCell rules_cell (ScalingRules_DeepCopyInto F))"
    by (rule deep_copier_pointer) simp
  show ?thesis
    by (rule exI, rule deep_copier_struct [OF deep_copier_both [OF foreign_lawsD(1) [OF assms] s], where fields = "\<lambda>s. (pm_maxCapacity s, pm_scaleUp s)"
        and build = "\<lambda>s (a, b). s\<lparr>pm_maxCapacity := a, pm_scaleUp := b\<rparr>"
        and val = "\<lambda>s (a, b). \<lparr>vp_match = pm_match s, MaxCapacity = a, ScaleUp = b\<rparr>"])
      (auto simp: read_VolumePolicy_def VolumePolicy_DeepCopyInto_def struct_simps split: option.split prod.split)
qed

lemma copy_VolumeRecommendation:
  assumes "foreign_laws F R"
  shows "\<exists>foot. deep_copier (read_VolumeRecommendation R) foot (VolumeRecommendation_DeepCopyInto F)"
proof -
  obtain f g where "deep_copier (read_CurrentVolumeStatus R) f (CurrentVolumeStatus_DeepCopyInto F)"
    "deep_copier (read_TargetRecommendation R) g (TargetRecommendation_DeepCopyInto F)"
    using copy_CurrentVolumeStatus [OF assms] copy_TargetRecommendation [OF assms] by blast
  note d = deep_copier_both [OF this(1) deep_copier_both [OF this(2) deep_copier_nillable [OF foreign_lawsD(5) [OF assms]]]]
  show ?thesis
    by (rule exI, rule deep_copier_struct [OF d, where fields = "\<lambda>s. (vm_current s, vm_target s, vm_lastResizeTime s)"
        and build = "\<lambda>s (a, b, c). s\<lparr>vm_current := a, vm_target := b, vm_lastResizeTime := c\<rparr>"
        and val = "\<lambda>s (a, b, c). \<lparr>vr_name = vm_name s, Current = a, Target = b, LastResizeTime = c\<rparr>"])
      (auto simp: read_VolumeRecommendation_def VolumeRecommendation_DeepCopyInto_def struct_simps split: option.split prod.split)
qed

lemma copy_PVCASpec:
  assumes "foreign_laws F R"
  shows "\<exists>foot. deep_copier (read_PVCASpec R) foot (PVCASpec_DeepCopyInto F)"
proof -
  obtain f where "deep_copier (read_VolumePolicy R) f (VolumePolicy_DeepCopyInto F)" using copy_VolumePolicy [OF assms] by blast
  from deep_copier_elements [OF this]
  have d: "deep_copier (read_pointer policies_cell (read_elements (read_VolumePolicy R))) (foot_pointer policies_cell (foot_elements f))
      (copy_pointer PoliciesCell policies_cell (copy_elements (VolumePolicy_DeepCopyInto F)))"
    by (rule deep_copier_pointer) simp
  show ?thesis
    by (rule exI, rule deep_copier_struct [OF d, where fields = sm_volumePolicies and build = "\<lambda>s a. s\<lparr>sm_volumePolicies := a\<rparr>"
        and val = "\<lambda>s a. \<lparr>AutoscalerName = sm_autoscalerName s, TargetRef = sm_targetRef s, VolumePolicies = slice a\<rparr>"])
      (auto simp: read_PVCASpec_def PVCASpec_DeepCopyInto_def struct_simps split: option.split prod.split)
qed

lemma copy_PVCAStatus:
  assumes "foreign_laws F R"
  shows "\<exists>foot. deep_copier (read_PVCAStatus R) foot (PVCAStatus_DeepCopyInto F)"
proof -
  obtain f where "deep_copier (read_VolumeRecommendation R) f (VolumeRecommendation_DeepCopyInto F)"
    using copy_VolumeRecommendation [OF assms] by blast
  from deep_copier_elements [OF this]
  have r: "deep_copier (read_pointer recommendations_cell (read_elements (read_VolumeRecommendation R)))
      (foot_pointer recommendations_cell (foot_elements f))
      (copy_pointer RecommendationsCell recommendations_cell (copy_elements (VolumeRecommendation_DeepCopyInto F)))"
    by (rule deep_copier_pointer) simp
  have c: "deep_copier (read_pointer conditions_cell (read_elements (read_condition R)))
      (foot_pointer conditions_cell (foot_elements (foot_condition R)))
      (copy_pointer ConditionsCell conditions_cell (copy_elements (Condition_DeepCopyInto F)))"
    by (rule deep_copier_pointer [OF deep_copier_elements [OF foreign_lawsD(4) [OF assms]]]) simp
  show ?thesis
    by (rule exI, rule deep_copier_struct [OF deep_copier_both [OF r c], where fields = "\<lambda>s. (stm_volumeRecommendations s, stm_conditions s)"
        and build = "\<lambda>s (a, b). s\<lparr>stm_volumeRecommendations := a, stm_conditions := b\<rparr>"
        and val = "\<lambda>s (a, b). \<lparr>VolumeRecommendations = slice a, Conditions = slice b\<rparr>"])
      (auto simp: read_PVCAStatus_def PVCAStatus_DeepCopyInto_def struct_simps split: option.split prod.split)
qed

lemma copy_PVCA:
  assumes "foreign_laws F R"
  shows "\<exists>foot. deep_copier (read_PVCA R) foot (PVCA_DeepCopyInto F)"
proof -
  obtain f g where "deep_copier (read_PVCASpec R) f (PVCASpec_DeepCopyInto F)" "deep_copier (read_PVCAStatus R) g (PVCAStatus_DeepCopyInto F)"
    using copy_PVCASpec [OF assms] copy_PVCAStatus [OF assms] by blast
  note d = deep_copier_both [OF foreign_lawsD(2) [OF assms] deep_copier_both [OF this]]
  show ?thesis
    by (rule exI, rule deep_copier_struct [OF d, where fields = "\<lambda>s. (am_metadata s, am_spec s, am_status s)"
        and build = "\<lambda>s (a, b, c). s\<lparr>am_metadata := a, am_spec := b, am_status := c\<rparr>"
        and val = "\<lambda>s (a, b, c). (am_typeMeta s, a, b, c)"])
      (auto simp: read_PVCA_def PVCA_DeepCopyInto_def struct_simps split: option.split prod.split)
qed

lemma copy_PVCAList:
  assumes "foreign_laws F R"
  shows "\<exists>foot. deep_copier (read_PVCAList R) foot (PVCAList_DeepCopyInto F)"
proof -
  obtain f where "deep_copier (read_PVCA R) f (PVCA_DeepCopyInto F)" using copy_PVCA [OF assms] by blast
  from deep_copier_elements [OF this]
  have d: "deep_copier (read_pointer pvcas_cell (read_elements (read_PVCA R))) (foot_pointer pvcas_cell (foot_elements f))
      (copy_pointer PVCAsCell pvcas_cell (copy_elements (PVCA_DeepCopyInto F)))"
    by (rule deep_copier_pointer) simp
  show ?thesis
    by (rule exI, rule deep_copier_struct [OF deep_copier_both [OF foreign_lawsD(3) [OF assms] d], where fields = "\<lambda>s. (lm_metadata s, lm_items s)"
        and build = "\<lambda>s (a, b). s\<lparr>lm_metadata := a, lm_items := b\<rparr>" and val = "\<lambda>s (a, b). (lm_typeMeta s, a, slice b)"])
      (auto simp: read_PVCAList_def PVCAList_DeepCopyInto_def struct_simps split: option.split prod.split)
qed

text \<open>\<open>DeepCopy\<close> and \<open>DeepCopyObject\<close> copy deeply when the struct copies do.\<close>

lemma deep_copies_pointer:
  assumes "\<exists>foot. deep_copier rd foot copy" "\<And>x. proj (cell x) = Some x"
  shows "deep_copies (read_pointer proj rd) (copy_pointer cell proj copy)"
proof -
  obtain foot where "deep_copier rd foot copy" using assms(1) by blast
  from deep_copier_pointer [where proj = proj and cell = cell, OF this assms(2)] show ?thesis
    by (rule deep_copier.deep_copies)
qed

lemma DeepCopyObject_eq: "PVCA_DeepCopyObject F = PVCA_DeepCopy F" "PVCAList_DeepCopyObject F = PVCAList_DeepCopy F"
  by (rule ext; rule ext; simp add: PVCA_DeepCopyObject_def PVCAList_DeepCopyObject_def bind_case split: option.split)+

interpretation match_copy: deep_copier read_value no_foot Match_DeepCopyInto
  by unfold_locales (auto simp: Match_DeepCopyInto_def read_value_def no_foot_def)

lemma copy_Match: "\<exists>foot. deep_copier read_value foot Match_DeepCopyInto"
  by (rule exI [of _ no_foot], rule match_copy.deep_copier_axioms)

lemmas copies_struct =
  copy_PVCA copy_PVCAList copy_PVCASpec copy_PVCAStatus copy_VolumePolicy copy_ScalingRules
  copy_VolumeRecommendation copy_CurrentVolumeStatus copy_TargetRecommendation

lemmas copies_part =
  CurrentVolumeStatus_DeepCopy_def Match_DeepCopy_def ScalingRules_DeepCopy_def TargetRecommendation_DeepCopy_def
  VolumePolicy_DeepCopy_def VolumeRecommendation_DeepCopy_def PVCASpec_DeepCopy_def PVCAStatus_DeepCopy_def

text \<open>
  C23: Every generated \<open>DeepCopy\<close> copies deeply. When the copies of the types of other packages do,
  the copy of an autoscaler or of a list of autoscalers (as pointer or as \<^verbatim>\<open>runtime.Object\<close>) and of each
  of the structs inside succeeds, leaves the memory it started from as it is, reads like the
  original (kind, metadata, spec, policies with their rules, status with its recommendations and
  conditions), and stays so whatever is later written to the cells that existed before; the
  original stays as it is whatever is written to the cells of the copy.
\<close>

theorem deep_copies_independent:
  assumes "foreign_laws F R"
  shows "deep_copies (read_pointer pvca_cell (read_PVCA R)) (PVCA_DeepCopy F) \<and>
     deep_copies (read_pointer pvca_cell (read_PVCA R)) (PVCA_DeepCopyObject F) \<and>
     deep_copies (read_pointer list_cell (read_PVCAList R)) (PVCAList_DeepCopy F) \<and>
     deep_copies (read_pointer list_cell (read_PVCAList R)) (PVCAList_DeepCopyObject F) \<and>
     deep_copies (read_pointer spec_cell (read_PVCASpec R)) (PVCASpec_DeepCopy F) \<and>
     deep_copies (read_pointer status_cell (read_PVCAStatus R)) (PVCAStatus_DeepCopy F) \<and>
     deep_copies (read_pointer policy_cell (read_VolumePolicy R)) (VolumePolicy_DeepCopy F) \<and>
     deep_copies (read_pointer match_cell read_value) Match_DeepCopy \<and>
     deep_copies (read_pointer rules_cell (read_ScalingRules R)) (ScalingRules_DeepCopy F) \<and>
     deep_copies (read_pointer recommendation_cell (read_VolumeRecommendation R)) (VolumeRecommendation_DeepCopy F) \<and>
     deep_copies (read_pointer current_cell (read_CurrentVolumeStatus R)) (CurrentVolumeStatus_DeepCopy F) \<and>
     deep_copies (read_pointer target_cell (read_TargetRecommendation R)) (TargetRecommendation_DeepCopy F)"
  unfolding DeepCopyObject_eq PVCA_DeepCopy_def PVCAList_DeepCopy_def copies_part
  by (intro conjI deep_copies_pointer copies_struct [OF assms] copy_Match cell_simps)

section \<open>An example\<close>

text \<open>Quantities, metadata and conditions that are plain values, and times in cells of their own.\<close>

definition time_cell :: "('m, 'om, 'lm, 'cd, 'x) cell \<Rightarrow> 'x option" where
  "time_cell c = (case c of ForeignCell x \<Rightarrow> Some x | _ \<Rightarrow> None)"

definition plain_copies :: "(int, key, string, condition, int) copies" where
  "plain_copies =
     \<lparr>Quantity_DeepCopy = copy_value, ObjectMeta_DeepCopyInto = copy_value, ListMeta_DeepCopyInto = copy_value,
      Condition_DeepCopyInto = copy_value,
      Time_DeepCopy = (\<lambda>a h. do { t \<leftarrow> cell_at time_cell h a; Some (length h, h @ [ForeignCell t]) })\<rparr>"

definition plain_reads :: "(int, key, string, condition, int, int, key, string) reads" where
  "plain_reads =
     \<lparr>read_quantity = read_value, foot_quantity = no_foot, read_meta = read_value, foot_meta = no_foot,
      read_listmeta = read_value, foot_listmeta = no_foot, read_condition = read_value, foot_condition = no_foot,
      read_time = cell_at time_cell, foot_time = (\<lambda>h a. {a})\<rparr>"

lemma foreign_laws_plain: "foreign_laws plain_copies plain_reads"
proof -
  have "deep_copier (cell_at time_cell) (\<lambda>h a. {a})
      (\<lambda>a h. do { t \<leftarrow> cell_at time_cell h a; Some (length h, h @ [ForeignCell t]) })"
    by unfold_locales (auto simp: cell_at_def time_cell_def nth_append split: if_splits)
  then show ?thesis
    by (simp add: foreign_laws_def plain_copies_def plain_reads_def plain_value.deep_copier_axioms)
qed

definition example_memory :: "(int, key, string, condition, int) cell memory" where
  "example_memory =
     [IntCell 80,
      RulesCell \<lparr>rm_utilizationThresholdPercent = Some 0, rm_stepPercent = None, rm_minStepAbsolute = None,
        rm_cooldownDuration = None, rm_resizeStrategy = ''InPlace''\<rparr>,
      PoliciesCell [\<lparr>pm_match = \<lparr>match_name = ''*''\<rparr>, pm_maxCapacity = 100, pm_scaleUp = Some 1\<rparr>],
      ForeignCell 7,
      RecommendationsCell [\<lparr>vm_name = ''data-0'',
        vm_current = \<lparr>cm_usedSpacePercent = Some 0, cm_usedInodesPercent = None, cm_size = None\<rparr>,
        vm_target = \<lparr>tm_size = None\<rparr>, vm_lastResizeTime = Some 3\<rparr>],
      PVCACell \<lparr>am_typeMeta = (''PersistentVolumeClaimAutoscaler'', ''autoscaling.gardener.cloud/v1alpha1''),
        am_metadata = (''ns'', ''a''),
        am_spec = \<lparr>sm_autoscalerName = '''',
          sm_targetRef = \<lparr>ref_kind = ''StatefulSet'', ref_name = ''db'', ref_apiVersion = ''apps/v1''\<rparr>,
          sm_volumePolicies = Some 2\<rparr>,
        am_status = \<lparr>stm_volumeRecommendations = Some 4, stm_conditions = None\<rparr>\<rparr>]"

lemma example_memory_readable:
  "\<exists>v. read_pointer pvca_cell (read_PVCA plain_reads) example_memory (Some 5) = Some (Some v)"
  by (simp add: example_memory_def read_pointer_def cell_at_def read_PVCA_def read_PVCASpec_def read_PVCAStatus_def
      read_VolumePolicy_def read_ScalingRules_def read_VolumeRecommendation_def read_CurrentVolumeStatus_def
      read_TargetRecommendation_def read_nillable_def plain_reads_def read_value_def time_cell_def cell_projections)

text \<open>Overwriting every old cell does not change the copy of the example.\<close>

theorem deep_copies_independent_witness:
  "foreign_laws plain_copies plain_reads \<and>
   (\<exists>v y hs. read_pointer pvca_cell (read_PVCA plain_reads) example_memory (Some 5) = Some (Some v) \<and>
      PVCA_DeepCopyObject plain_copies (Some 5) example_memory = Some (y, example_memory @ hs) \<and>
      read_pointer pvca_cell (read_PVCA plain_reads) (replicate 6 (IntCell 0) @ hs) y = Some (Some v))"
proof -
  obtain v where v: "read_pointer pvca_cell (read_PVCA plain_reads) example_memory (Some 5) = Some (Some v)"
    using example_memory_readable by blast
  moreover have "deep_copies (read_pointer pvca_cell (read_PVCA plain_reads)) (PVCA_DeepCopyObject plain_copies)"
    using deep_copies_independent [OF foreign_laws_plain] by blast
  ultimately obtain y hs where y: "PVCA_DeepCopyObject plain_copies (Some 5) example_memory = Some (y, example_memory @ hs)"
    "\<forall>m. unchanged (length example_memory) (length (example_memory @ hs)) (example_memory @ hs) m \<longrightarrow>
       read_pointer pvca_cell (read_PVCA plain_reads) m y = Some (Some v)"
    unfolding deep_copies_def by meson
  have "length example_memory = 6" by (simp add: example_memory_def)
  then have "unchanged (length example_memory) (length (example_memory @ hs)) (example_memory @ hs) (replicate 6 (IntCell 0) @ hs)"
    by (simp add: unchanged_def nth_append)
  with v y foreign_laws_plain show ?thesis by blast
qed

end
