(* ===== verification/Go_ParseFloat.thy ===== *)
theory Go_ParseFloat
  imports Go_Float64
begin

text \<open>
  \<^verbatim>\<open>strconv.ParseFloat\<close> for 64 bits, and \<^verbatim>\<open>strings.TrimSpace\<close>. The scanner of the library is followed
  in its steps (sign, base prefix, digits with underscores and a point, exponent, the check of the
  underscores, the special values); the conversion, for which the library has several algorithms,
  is their documented result, the double nearest to the number, ties to even, with subnormals, and
  an error with an infinity when it is out of range. \<open>ParseFloat_decimal\<close> says what a plain decimal
  numeral is converted to.
\<close>

section \<open>Rounding to the doubles\<close>

text \<open>Below \<^verbatim>\<open>2^-1022\<close> doubles are the multiples of \<^verbatim>\<open>2^-1074\<close>; at \<^verbatim>\<open>2^1024\<close> they end.\<close>

definition nearest_double :: "rat \<Rightarrow> rat" where
  "nearest_double x =
     (if \<bar>x\<bar> < 2 powi (- 1022) then of_int (round_half_even (x * 2 powi 1074)) * 2 powi (- 1074) else float64 x)"

definition to_double :: "rat \<Rightarrow> float64_value \<times> go_error option" where
  "to_double x =
     (if \<bar>nearest_double x\<bar> < 2 ^ 1024 then (Finite (nearest_double x), None)
      else (if x < 0 then NegInf else PosInf, Some (ErrorString ''value out of range'')))"

section \<open>Scanning a number\<close>

definition hex_digit :: "char \<Rightarrow> nat option" where
  "hex_digit c =
     (case digit c of
        Some d \<Rightarrow> Some d
      | None \<Rightarrow> (let n = (of_char (lower_char c) :: nat) in if 97 \<le> n \<and> n \<le> 102 then Some (n - 87) else None))"

text \<open>
  The digits: the number they form without the point, how many stand behind the point, and whether
  there was a point, a digit, an underscore.
\<close>

record float_scan =
  sc_mantissa :: nat
  sc_fraction :: nat
  sc_dot :: bool
  sc_digits :: bool
  sc_underscores :: bool

fun scan_digits :: "bool \<Rightarrow> float_scan \<Rightarrow> string \<Rightarrow> float_scan \<times> string" where
  "scan_digits hex st [] = (st, [])"
| "scan_digits hex st (c # s) =
     (if c = CHR ''_'' then scan_digits hex (st\<lparr>sc_underscores := True\<rparr>) s
      else if c = CHR ''.'' then
        (if sc_dot st then (st, c # s) else scan_digits hex (st\<lparr>sc_dot := True\<rparr>) s)
      else (case (if hex then hex_digit c else digit c) of
         None \<Rightarrow> (st, c # s)
       | Some d \<Rightarrow> scan_digits hex (st\<lparr>sc_mantissa := sc_mantissa st * (if hex then 16 else 10) + d,
             sc_fraction := (if sc_dot st then Suc (sc_fraction st) else sc_fraction st), sc_digits := True\<rparr>) s))"

text \<open>The digits of the exponent; no more are added once it has reached ten thousand.\<close>

fun scan_exponent :: "nat \<Rightarrow> bool \<Rightarrow> string \<Rightarrow> nat \<times> bool \<times> string" where
  "scan_exponent e underscores [] = (e, underscores, [])"
| "scan_exponent e underscores (c # s) =
     (if c = CHR ''_'' then scan_exponent e True s
      else case digit c of
        None \<Rightarrow> (e, underscores, c # s)
      | Some d \<Rightarrow> scan_exponent (if e < 10000 then e * 10 + d else e) underscores s)"

text \<open>Underscores are allowed between digits, and between the base prefix and a digit.\<close>

datatype last_seen = Beginning | SawDigit | SawUnderscore | SawOther

fun underscores_between :: "bool \<Rightarrow> last_seen \<Rightarrow> string \<Rightarrow> bool" where
  "underscores_between hex saw [] \<longleftrightarrow> saw \<noteq> SawUnderscore"
| "underscores_between hex saw (c # s) \<longleftrightarrow>
     (if (if hex then hex_digit c else digit c) \<noteq> None then underscores_between hex SawDigit s
      else if c = CHR ''_'' then saw = SawDigit \<and> underscores_between hex SawUnderscore s
      else saw \<noteq> SawUnderscore \<and> underscores_between hex SawOther s)"

definition strip_sign :: "string \<Rightarrow> string" where
  "strip_sign s = (if s \<noteq> [] \<and> (hd s = CHR ''-'' \<or> hd s = CHR ''+'') then tl s else s)"

definition underscoreOK :: "string \<Rightarrow> bool" where
  "underscoreOK s0 =
     (let s = strip_sign s0;
          prefixed = (2 \<le> length s \<and> s ! 0 = CHR ''0'' \<and> lower_char (s ! 1) \<in> {CHR ''b'', CHR ''o'', CHR ''x''})
      in if prefixed then underscores_between (lower_char (s ! 1) = CHR ''x'') SawDigit (drop 2 s)
         else underscores_between False Beginning s)"

text \<open>
  The number at the front of a string: its value as sign, integer and exponent of the base, which is
  2 for hexadecimal numerals, and what follows.
\<close>

definition read_exponent :: "char \<Rightarrow> bool \<Rightarrow> string \<Rightarrow> (int \<times> bool \<times> string) option" where
  "read_exponent expChar required s =
     (if s \<noteq> [] \<and> lower_char (hd s) = expChar then
        (let s1 = tl s; neg = (s1 \<noteq> [] \<and> hd s1 = CHR ''-''); s2 = strip_sign s1
         in if s2 = [] \<or> digit (hd s2) = None then None
            else (case scan_exponent 0 False s2 of (e, us, rest) \<Rightarrow> Some (if neg then - int e else int e, us, rest)))
      else if required then None else Some (0, False, s))"

definition hex_prefix :: "string \<Rightarrow> bool" where
  "hex_prefix s \<longleftrightarrow> 2 < length s \<and> s ! 0 = CHR ''0'' \<and> lower_char (s ! 1) = CHR ''x''"

definition readFloat :: "string \<Rightarrow> (bool \<times> nat \<times> int \<times> bool \<times> string) option" where
  "readFloat s =
     (let neg = (s \<noteq> [] \<and> hd s = CHR ''-''); s1 = strip_sign s;
          hex = hex_prefix s1
      in case scan_digits hex \<lparr>sc_mantissa = 0, sc_fraction = 0, sc_dot = False, sc_digits = False, sc_underscores = False\<rparr>
           (if hex then drop 2 s1 else s1) of (st, s2) \<Rightarrow>
         if \<not> sc_digits st then None
         else case read_exponent (if hex then CHR ''p'' else CHR ''e'') hex s2 of
           None \<Rightarrow> None
         | Some (e, us, rest) \<Rightarrow>
             if (sc_underscores st \<or> us) \<and> \<not> underscoreOK (take (length s - length rest) s) then None
             else Some (neg, sc_mantissa st, e - int ((if hex then 4 else 1) * sc_fraction st), hex, rest))"

section \<open>Special values\<close>

fun commonPrefixLenIgnoreCase :: "string \<Rightarrow> string \<Rightarrow> nat" where
  "commonPrefixLenIgnoreCase (c # s) (d # p) = (if lower_char c = d then Suc (commonPrefixLenIgnoreCase s p) else 0)"
| "commonPrefixLenIgnoreCase s p = 0"

definition special_inf :: "string \<Rightarrow> nat option" where
  "special_inf s =
     (let n0 = commonPrefixLenIgnoreCase s ''infinity''; n = (if 3 < n0 \<and> n0 < 8 then 3 else n0)
      in if n = 3 \<or> n = 8 then Some n else None)"

definition special :: "string \<Rightarrow> (float64_value \<times> nat) option" where
  "special s =
     (if s = [] then None
      else if hd s = CHR ''+'' \<or> hd s = CHR ''-'' then
        map_option (\<lambda>n. (if hd s = CHR ''-'' then NegInf else PosInf, 1 + n)) (special_inf (tl s))
      else if hd s = CHR ''i'' \<or> hd s = CHR ''I'' then map_option (\<lambda>n. (PosInf, n)) (special_inf s)
      else if (hd s = CHR ''n'' \<or> hd s = CHR ''N'') \<and> commonPrefixLenIgnoreCase s ''nan'' = 3 then Some (NaN, 3)
      else None)"

definition ParseFloat :: "string \<Rightarrow> float64_value \<times> go_error option" where
  "ParseFloat s =
     (let syntax = (Finite 0, Some (ErrorString ''invalid syntax''))
      in case special s of
           Some (v, n) \<Rightarrow> if n \<noteq> length s then syntax else (v, None)
         | None \<Rightarrow>
             (case readFloat s of
                None \<Rightarrow> syntax
              | Some (neg, m, e, hex, rest) \<Rightarrow>
                  if rest \<noteq> [] then syntax
                  else to_double ((if neg then - 1 else 1) * of_nat m * (if hex then 2 else 10) powi e)))"

section \<open>Plain decimal numerals\<close>

lemma digit_neq: "digit c = Some d \<Longrightarrow> c \<notin> {CHR ''_'', CHR ''.'', CHR ''+'', CHR ''-'', CHR ''i'', CHR ''I'', CHR ''n'', CHR ''N''}"
  by (auto simp: digit_def)

lemma digit_lower: "digit c = Some d \<Longrightarrow> lower_char c = c"
  by (auto simp: digit_def lower_char_def Let_def split: if_splits)

lemma scan_digits_decimal:
  assumes "read_digits (sc_mantissa st) ds = Some n"
  shows "scan_digits False st (ds @ s) =
    scan_digits False (if ds = [] then st else st\<lparr>sc_mantissa := n, sc_fraction := sc_fraction st + (if sc_dot st then length ds else 0),
      sc_digits := True\<rparr>) s"
  using assms
proof (induction ds arbitrary: st)
  case (Cons c ds)
  then obtain d where d: "digit c = Some d" "read_digits (10 * sc_mantissa st + d) ds = Some n" by (auto split: option.splits)
  let ?st = "st\<lparr>sc_mantissa := sc_mantissa st * 10 + d, sc_fraction := (if sc_dot st then Suc (sc_fraction st) else sc_fraction st), sc_digits := True\<rparr>"
  have "scan_digits False st ((c # ds) @ s) = scan_digits False ?st (ds @ s)"
    using d(1) digit_neq [OF d(1)] by simp
  with Cons.IH [of ?st] d(2) show ?case by (cases ds) (auto simp: mult.commute)
qed simp

text \<open>Digits, optionally with a point and more digits.\<close>

definition decimal :: "string \<Rightarrow> string option \<Rightarrow> string" where
  "decimal ds fs = ds @ (case fs of None \<Rightarrow> [] | Some t \<Rightarrow> CHR ''.'' # t)"

definition fraction_digits :: "string option \<Rightarrow> string" where
  "fraction_digits fs = (case fs of None \<Rightarrow> [] | Some t \<Rightarrow> t)"

lemma read_digits_split:
  assumes "read_digits a (ds @ t) = Some n"
  obtains m where "read_digits a ds = Some m" "read_digits m t = Some n"
  using assms by (auto simp: read_digits_append split: option.splits)

abbreviation scan_start :: float_scan where
  "scan_start \<equiv> \<lparr>sc_mantissa = 0, sc_fraction = 0, sc_dot = False, sc_digits = False, sc_underscores = False\<rparr>"

lemma scan_decimal:
  assumes "read_digits 0 (ds @ fraction_digits fs) = Some n" "ds \<noteq> []"
  shows "\<exists>dot. scan_digits False scan_start (decimal ds fs) =
    (\<lparr>sc_mantissa = n, sc_fraction = length (fraction_digits fs), sc_dot = dot, sc_digits = True, sc_underscores = False\<rparr>, [])"
proof (cases fs)
  case None
  with assms have "read_digits 0 ds = Some n" by (simp add: fraction_digits_def)
  with None assms(2) show ?thesis
    using scan_digits_decimal [of scan_start ds n "[]"]
    by (intro exI [of _ False]) (simp add: decimal_def fraction_digits_def)
next
  case (Some t)
  with assms obtain m where m: "read_digits 0 ds = Some m" "read_digits m t = Some n"
    by (auto simp: fraction_digits_def elim: read_digits_split)
  let ?st = "\<lparr>sc_mantissa = m, sc_fraction = 0, sc_dot = True, sc_digits = True, sc_underscores = False\<rparr>"
  have "scan_digits False scan_start (ds @ CHR ''.'' # t) = scan_digits False ?st (t @ [])"
    using scan_digits_decimal [of scan_start ds m "CHR ''.'' # t"] m(1) assms(2) by simp
  also have "\<dots> = scan_digits False (if t = [] then ?st else ?st\<lparr>sc_mantissa := n, sc_fraction := length t\<rparr>) []"
    using scan_digits_decimal [of ?st t n "[]"] m(2) by simp
  finally show ?thesis using Some m(2) by (auto simp: decimal_def fraction_digits_def)
qed

lemma readFloat_decimal:
  assumes "read_digits 0 (ds @ fraction_digits fs) = Some n" "ds \<noteq> []"
  shows "readFloat (decimal ds fs) = Some (False, n, - int (length (fraction_digits fs)), False, [])"
proof -
  obtain c s where ds: "ds = c # s" using assms(2) by (cases ds) auto
  obtain d where d: "digit c = Some d" using assms(1) ds by (auto split: option.splits)
  have sign: "strip_sign (decimal ds fs) = decimal ds fs" "hd (decimal ds fs) \<noteq> CHR ''-''"
    using digit_neq [OF d] by (auto simp: strip_sign_def decimal_def ds)
  have "lower_char (decimal ds fs ! 1) \<noteq> CHR ''x''" if "2 < length (decimal ds fs)"
  proof (cases s)
    case Nil
    with that show ?thesis by (auto simp: decimal_def ds lower_char_def split: option.splits)
  next
    case (Cons c' s')
    with assms(1) ds obtain d' where "digit c' = Some d'" by (auto split: option.splits)
    then show ?thesis using Cons digit_lower [of c' d'] by (auto simp: decimal_def ds digit_def)
  qed
  then have hex: "\<not> hex_prefix (decimal ds fs)" by (auto simp: hex_prefix_def)
  obtain dot where "scan_digits False scan_start (decimal ds fs) =
      (\<lparr>sc_mantissa = n, sc_fraction = length (fraction_digits fs), sc_dot = dot, sc_digits = True, sc_underscores = False\<rparr>, [])"
    using scan_decimal [OF assms] by blast
  with sign hex show ?thesis by (simp add: readFloat_def Let_def read_exponent_def)
qed

lemma ParseFloat_decimal:
  assumes "read_digits 0 (ds @ fraction_digits fs) = Some n" "ds \<noteq> []"
  shows "ParseFloat (decimal ds fs) = to_double (of_nat n / 10 ^ length (fraction_digits fs))"
proof -
  obtain c s where ds: "ds = c # s" using assms(2) by (cases ds) auto
  obtain d where d: "digit c = Some d" using assms(1) ds by (auto split: option.splits)
  have "special (decimal ds fs) = None" using digit_neq [OF d] by (auto simp: special_def decimal_def ds)
  then show ?thesis
    by (simp add: ParseFloat_def readFloat_decimal [OF assms] Let_def power_int_minus field_simps)
qed

section \<open>White space\<close>

text \<open>The white space of Unicode, by its UTF-8 encodings.\<close>

definition spaces :: "string list" where
  "spaces = [[CHR 0x09], [CHR 0x0A], [CHR 0x0B], [CHR 0x0C], [CHR 0x0D], [CHR 0x20], [CHR 0xC2, CHR 0x85], [CHR 0xC2, CHR 0xA0],
     [CHR 0xE1, CHR 0x9A, CHR 0x80], [CHR 0xE2, CHR 0x80, CHR 0x80], [CHR 0xE2, CHR 0x80, CHR 0x81], [CHR 0xE2, CHR 0x80, CHR 0x82],
     [CHR 0xE2, CHR 0x80, CHR 0x83], [CHR 0xE2, CHR 0x80, CHR 0x84], [CHR 0xE2, CHR 0x80, CHR 0x85], [CHR 0xE2, CHR 0x80, CHR 0x86],
     [CHR 0xE2, CHR 0x80, CHR 0x87], [CHR 0xE2, CHR 0x80, CHR 0x88], [CHR 0xE2, CHR 0x80, CHR 0x89], [CHR 0xE2, CHR 0x80, CHR 0x8A],
     [CHR 0xE2, CHR 0x80, CHR 0xA8], [CHR 0xE2, CHR 0x80, CHR 0xA9], [CHR 0xE2, CHR 0x80, CHR 0xAF], [CHR 0xE2, CHR 0x81, CHR 0x9F],
     [CHR 0xE3, CHR 0x80, CHR 0x80]]"

text \<open>Stripping given words from the front.\<close>

function strip :: "string list \<Rightarrow> string \<Rightarrow> string" where
  "strip ws s = (case find (\<lambda>w. w \<noteq> [] \<and> prefix w s) ws of None \<Rightarrow> s | Some w \<Rightarrow> strip ws (drop (length w) s))"
  by pat_completeness auto
termination
  by (relation "measure (\<lambda>(ws, s). length s)") (auto simp: find_Some_iff prefix_def)

declare strip.simps [simp del]

definition TrimSpace :: "string \<Rightarrow> string" where
  "TrimSpace s = rev (strip (map rev spaces) (rev (strip spaces s)))"

text \<open>No space is the beginning of another one, so any sequence of them is stripped.\<close>

definition prefix_free :: "string list \<Rightarrow> bool" where
  "prefix_free ws \<longleftrightarrow> [] \<notin> set ws \<and> (\<forall>v \<in> set ws. \<forall>w \<in> set ws. prefix v w \<longrightarrow> v = w)"

lemma prefix_free_spaces: "prefix_free spaces" "prefix_free (map rev spaces)"
  by (simp_all add: prefix_free_def spaces_def)

lemma strip_none: "(\<And>w. w \<in> set ws \<Longrightarrow> w = [] \<or> \<not> prefix w s) \<Longrightarrow> strip ws s = s"
proof -
  assume "\<And>w. w \<in> set ws \<Longrightarrow> w = [] \<or> \<not> prefix w s"
  then have "find (\<lambda>w. w \<noteq> [] \<and> prefix w s) ws = None" by (auto simp: find_None_iff)
  then show ?thesis by (subst strip.simps) simp
qed

lemma strip_word:
  assumes "prefix_free ws" "w \<in> set ws"
  shows "strip ws (w @ s) = strip ws s"
proof -
  have "v = w" if "v \<in> set ws" "prefix v (w @ s)" for v
    using prefix_same_cases [OF that(2), of w] assms that(1) by (auto simp: prefix_free_def)
  moreover have "w \<noteq> []" using assms by (auto simp: prefix_free_def)
  then have "find (\<lambda>v. v \<noteq> [] \<and> prefix v (w @ s)) ws \<noteq> None"
    using assms(2) by (auto simp: find_None_iff)
  then obtain v where v: "find (\<lambda>v. v \<noteq> [] \<and> prefix v (w @ s)) ws = Some v" by blast
  then have "v \<in> set ws" "prefix v (w @ s)" by (auto simp: find_Some_iff)
  ultimately have "v = w" by blast
  with v show ?thesis by (subst strip.simps) simp
qed

lemma strip_words: "prefix_free ws \<Longrightarrow> set us \<subseteq> set ws \<Longrightarrow> strip ws (concat us @ s) = strip ws s"
  by (induction us) (auto simp: strip_word)

lemma TrimSpace_padded:
  assumes "set us \<subseteq> set spaces" "set vs \<subseteq> set spaces"
    and "strip spaces (s @ concat vs) = s @ concat vs" "strip (map rev spaces) (rev s) = rev s"
  shows "TrimSpace (concat us @ s @ concat vs) = s"
proof -
  have "rev (concat vs) = concat (map rev (rev vs))" by (simp add: rev_concat)
  moreover have "set (map rev (rev vs)) \<subseteq> set (map rev spaces)" using assms(2) by auto
  ultimately show ?thesis
    using strip_words [OF prefix_free_spaces(2), of "map rev (rev vs)" "rev s"]
    by (simp add: TrimSpace_def strip_words [OF prefix_free_spaces(1) assms(1)] assms(3,4))
qed

end
