(* ===== verification/Percentage.thy ===== *)
theory Percentage
  imports Go_ParseFloat
begin

text \<open>
  \<^verbatim>\<open>utils.ParsePercentage\<close>: a percentage such as \<^verbatim>\<open>10%\<close> as a double. A comparison with NaN is false, so
  NaN passes the check of the range (\<open>nan_accepted\<close>), and any number of percent signs is cut off
  (\<open>percent_signs\<close>); otherwise an accepted value lies between 0 and 100, and a decimal numeral in this
  range, with white space around it, gives the nearest double (\<open>percentage_parsed\<close>).
\<close>

definition HasSuffix :: "string \<Rightarrow> string \<Rightarrow> bool" where
  "HasSuffix s t \<longleftrightarrow> suffix t s"

definition TrimRight :: "string \<Rightarrow> char \<Rightarrow> string" where
  "TrimRight s c = rev (dropWhile ((=) c) (rev s))"

fun float_less :: "float64_value \<Rightarrow> float64_value \<Rightarrow> bool" where
  "float_less (Finite x) (Finite y) \<longleftrightarrow> x < y"
| "float_less NegInf (Finite y) \<longleftrightarrow> True"
| "float_less NegInf PosInf \<longleftrightarrow> True"
| "float_less (Finite x) PosInf \<longleftrightarrow> True"
| "float_less _ _ \<longleftrightarrow> False"

definition ParsePercentage :: "string \<Rightarrow> float64_value \<times> go_error option" where
  "ParsePercentage s0 =
     (let s = TrimSpace s0
      in if \<not> HasSuffix s ''%'' then (Finite 0, Some (Sentinel ErrBadPercentageValue))
         else case ParseFloat (TrimRight s (CHR ''%'')) of (val, err) \<Rightarrow>
           if err \<noteq> None then (val, Some (Sentinel ErrBadPercentageValue))
           else if float_less val (Finite 0) \<or> float_less (Finite 100) val then (val, Some (Sentinel ErrBadPercentageValue))
           else (val, None))"

section \<open>The nearest double\<close>

lemma nearest_double_nonneg: "0 \<le> x \<Longrightarrow> 0 \<le> nearest_double x"
  using round_half_even_mono [of 0 "x * 2 powi 1074"] round_half_even_of_int [of 0]
  by (auto simp: nearest_double_def float64_nonneg)

lemma nearest_double_le_100:
  assumes "x \<le> 100"
  shows "nearest_double x \<le> 100"
proof (cases "\<bar>x\<bar> < 2 powi (- 1022)")
  case True
  have "x * 2 powi 1074 \<le> 2 powi (- 1022) * 2 powi 1074" using True by (intro mult_right_mono) auto
  also have "\<dots> = of_int (2 ^ 52)" by (simp add: power_int_add [symmetric])
  finally have "round_half_even (x * 2 powi 1074) \<le> 2 ^ 52"
    using round_half_even_mono round_half_even_of_int by metis
  then have "of_int (round_half_even (x * 2 powi 1074)) * 2 powi (- 1074) \<le> (of_int (2 ^ 52) * 2 powi (- 1074) :: rat)"
    by (intro mult_right_mono) (simp_all only: of_int_le_iff zero_le_power_int zero_le_numeral)
  also have "\<dots> = 2 powi (- 1022)" by (simp add: power_int_add [symmetric] flip: power_int_of_nat)
  also have "\<dots> \<le> 100" by (simp add: power_int_minus field_simps)
  finally show ?thesis using True by (simp add: nearest_double_def)
next
  case False
  with float64_mono [OF assms] float64_of_int [of 100] show ?thesis by (simp add: nearest_double_def)
qed

lemma nearest_double_error: "\<bar>nearest_double x - x\<bar> \<le> \<bar>x\<bar> / 2 ^ 53 + 2 powi (- 1075)"
proof (cases "\<bar>x\<bar> < 2 powi (- 1022)")
  case True
  define y where "y = x * 2 powi 1074"
  have x: "x = y * 2 powi (- 1074)" by (simp add: y_def power_int_minus)
  have "nearest_double x - x = (of_int (round_half_even y) - y) * 2 powi (- 1074)"
    using True by (simp add: nearest_double_def y_def [symmetric] x left_diff_distrib)
  then have "\<bar>nearest_double x - x\<bar> = \<bar>of_int (round_half_even y) - y\<bar> * 2 powi (- 1074)"
    by (simp only: abs_mult abs_of_nonneg [OF zero_le_power_int [OF zero_le_numeral]])
  also have "\<dots> \<le> 1 / 2 * 2 powi (- 1074)" by (intro mult_right_mono round_half_even_error) simp
  also have "\<dots> = 2 powi (- 1075)" by (simp add: power_int_minus field_simps)
  finally have "\<bar>nearest_double x - x\<bar> \<le> 2 powi (- 1075)" .
  then show ?thesis by (rule add_increasing [rotated]) simp
next
  case False
  with float64_error [of x] show ?thesis by (simp add: nearest_double_def add_increasing2)
qed

section \<open>What is accepted\<close>

lemma spaces_no_digit: "w \<in> set spaces \<Longrightarrow> w \<noteq> [] \<and> digit (hd w) = None"
  by (auto simp: spaces_def digit_def)

lemma spaces_no_percent: "w \<in> set (map rev spaces) \<Longrightarrow> w \<noteq> [] \<and> hd w \<noteq> CHR ''%''"
  by (auto simp: spaces_def)

lemma strip_hd: "(\<And>w. w \<in> set ws \<Longrightarrow> w \<noteq> [] \<and> hd w \<noteq> c) \<Longrightarrow> strip ws (c # s) = c # s"
  by (rule strip_none) (fastforce simp: prefix_Cons)

lemma read_digits_last: "read_digits a s = Some n \<Longrightarrow> s \<noteq> [] \<Longrightarrow> digit (last s) \<noteq> None"
  by (induction s arbitrary: a) (auto split: option.splits if_splits)

lemma TrimRight_replicate:
  assumes "last (c # s) \<noteq> d"
  shows "TrimRight (c # s @ replicate k d) d = c # s"
proof -
  have "rev (c # s) \<noteq> [] \<and> hd (rev (c # s)) \<noteq> d" using assms by (simp only: hd_rev) simp
  then have r: "dropWhile ((=) d) (rev (c # s)) = rev (c # s)" by (cases "rev (c # s)") auto
  have "rev (c # s @ replicate k d) = replicate k d @ rev (c # s)" by simp
  then have "dropWhile ((=) d) (rev (c # s @ replicate k d)) = rev (c # s)"
    using r by (simp only: dropWhile_append set_replicate_conv_if) auto
  then show ?thesis unfolding TrimRight_def by (simp only: rev_rev_ident)
qed

lemma ParsePercentage_trimmed:
  assumes "set us \<subseteq> set spaces" "set vs \<subseteq> set spaces" "\<And>w. w \<in> set spaces \<Longrightarrow> hd w \<noteq> c" "last (c # s) \<noteq> CHR ''%''"
  shows "ParsePercentage (concat us @ (c # s @ replicate (Suc k) (CHR ''%'')) @ concat vs) =
    (case ParseFloat (c # s) of (val, err) \<Rightarrow>
       if err \<noteq> None then (val, Some (Sentinel ErrBadPercentageValue))
       else if float_less val (Finite 0) \<or> float_less (Finite 100) val then (val, Some (Sentinel ErrBadPercentageValue))
       else (val, None))"
proof -
  let ?p = "replicate (Suc k) (CHR ''%'')"
  have p: "?p = replicate k (CHR ''%'') @ ''%''" by (simp only: replicate_Suc replicate_append_same)
  have "strip spaces (c # (s @ ?p) @ concat vs) = c # (s @ ?p) @ concat vs"
    by (rule strip_hd) (use spaces_no_digit assms(3) in auto)
  moreover have "rev (c # s @ ?p) = CHR ''%'' # rev (c # s @ replicate k (CHR ''%''))" unfolding p by simp
  then have "strip (map rev spaces) (rev (c # s @ ?p)) = rev (c # s @ ?p)"
    by (simp only: strip_hd [OF spaces_no_percent])
  ultimately have "TrimSpace (concat us @ (c # s @ ?p) @ concat vs) = c # s @ ?p"
    using TrimSpace_padded [OF assms(1,2), of "c # s @ ?p"] by (simp only: append_Cons append_assoc)
  moreover have "HasSuffix (c # s @ ?p) ''%''"
    unfolding HasSuffix_def suffix_def p by (intro exI [of _ "c # s @ replicate k (CHR ''%'')"]) simp
  ultimately show ?thesis by (simp only: ParsePercentage_def Let_def TrimRight_replicate [OF assms(4)]) simp
qed

lemma decimal_last: "read_digits 0 (ds @ fraction_digits fs) = Some n \<Longrightarrow> ds \<noteq> [] \<Longrightarrow> last (decimal ds fs) \<noteq> CHR ''%''"
  using read_digits_last [of 0 ds] read_digits_last [of 0 "ds @ fraction_digits fs"]
  by (auto simp: decimal_def fraction_digits_def digit_def last_append elim: read_digits_split split: option.splits if_splits)

lemma to_double_checked:
  assumes "0 \<le> x"
  shows "(case to_double x of (val, err) \<Rightarrow>
       if err \<noteq> None then (val, Some (Sentinel ErrBadPercentageValue))
       else if float_less val (Finite 0) \<or> float_less (Finite 100) val then (val, Some (Sentinel ErrBadPercentageValue))
       else (val, None)) =
    (if nearest_double x \<le> 100 then (Finite (nearest_double x), None)
     else (fst (to_double x), Some (Sentinel ErrBadPercentageValue)))"
proof (cases "\<bar>nearest_double x\<bar> < 2 ^ 1024")
  case True
  then show ?thesis using nearest_double_nonneg [OF assms] by (simp only: to_double_def if_True prod.case fst_conv) auto
next
  case False
  then have "100 < nearest_double x" using nearest_double_nonneg [OF assms]
    by (simp only: abs_of_nonneg not_less) (rule less_le_trans [rotated], assumption, simp)
  with False show ?thesis by (simp only: to_double_def if_False prod.case fst_conv) simp
qed

text \<open>
  C33: Percentages are parsed correctly. What is accepted is NaN or a number between 0 and 100; and a
  decimal numeral followed by percent signs, with any white space around, is accepted exactly when
  its nearest double is at most 100, in particular when it is at most 100 itself, and gives this
  double, which differs from the number by at most one part in \<^verbatim>\<open>2^53\<close> (or half of the smallest double).
\<close>

theorem percentage_parsed:
  assumes "set us \<subseteq> set spaces" "set vs \<subseteq> set spaces" "ds \<noteq> []" "read_digits 0 (ds @ fraction_digits fs) = Some n"
    and "x = of_nat n / 10 ^ length (fraction_digits fs)"
  shows "ParsePercentage (concat us @ (decimal ds fs @ replicate (Suc k) (CHR ''%'')) @ concat vs) =
      (if nearest_double x \<le> 100 then (Finite (nearest_double x), None)
       else (fst (to_double x), Some (Sentinel ErrBadPercentageValue))) \<and>
    (x \<le> 100 \<longrightarrow> nearest_double x \<le> 100) \<and> \<bar>nearest_double x - x\<bar> \<le> x / 2 ^ 53 + 2 powi (- 1075) \<and>
    (snd (ParsePercentage t) = None \<longrightarrow> fst (ParsePercentage t) = NaN \<or> (\<exists>y. fst (ParsePercentage t) = Finite y \<and> 0 \<le> y \<and> y \<le> 100))"
proof (intro conjI impI)
  obtain c s where ds: "ds = c # s" using assms(3) by (cases ds) auto
  define s' where "s' = s @ (case fs of None \<Rightarrow> [] | Some t \<Rightarrow> CHR ''.'' # t)"
  have d: "decimal ds fs = c # s'" by (simp add: decimal_def ds s'_def)
  have "digit c \<noteq> None" using assms(4) ds by (auto split: option.splits)
  then have c: "hd w \<noteq> c" if "w \<in> set spaces" for w using spaces_no_digit [OF that] by auto
  have x0: "0 \<le> x" by (simp add: assms(5))
  have p: "ParseFloat (c # s') = to_double x" using ParseFloat_decimal [OF assms(4,3)] by (simp add: d assms(5))
  have l: "last (c # s') \<noteq> CHR ''%''" using decimal_last [OF assms(4,3)] by (simp add: d)
  show "ParsePercentage (concat us @ (decimal ds fs @ replicate (Suc k) (CHR ''%'')) @ concat vs) =
      (if nearest_double x \<le> 100 then (Finite (nearest_double x), None)
       else (fst (to_double x), Some (Sentinel ErrBadPercentageValue)))"
    using trans [OF ParsePercentage_trimmed [OF assms(1,2) c l, of k, unfolded p] to_double_checked [OF x0]]
    by (simp only: d append_Cons)
  show "x \<le> 100 \<Longrightarrow> nearest_double x \<le> 100" by (rule nearest_double_le_100)
  show "\<bar>nearest_double x - x\<bar> \<le> x / 2 ^ 53 + 2 powi (- 1075)" using nearest_double_error [of x] x0 by (simp only: abs_of_nonneg)
  assume "snd (ParsePercentage t) = None"
  then obtain v where v: "ParsePercentage t = (v, None)" "\<not> float_less v (Finite 0)" "\<not> float_less (Finite 100) v"
    by (auto simp: ParsePercentage_def Let_def split: if_splits prod.splits)
  then show "fst (ParsePercentage t) = NaN \<or> (\<exists>y. fst (ParsePercentage t) = Finite y \<and> 0 \<le> y \<and> y \<le> 100)"
    by (cases v) auto
qed

text \<open>NaN is accepted.\<close>

lemma nan_accepted: "ParsePercentage ''nan%'' = (NaN, None)"
proof -
  have n: "hd w \<noteq> CHR ''n''" if "w \<in> set spaces" for w using that by (auto simp: spaces_def)
  have "ParseFloat ''nan'' = (NaN, None)" by (simp add: ParseFloat_def special_def lower_char_def)
  with ParsePercentage_trimmed [of "[]" "[]" "CHR ''n''" "''an''" 0, OF _ _ n] show ?thesis by simp
qed

theorem percentage_parsed_witness: "ParsePercentage ''  20%  '' = (Finite 20, None)"
proof -
  have n: "nearest_double 20 = 20" using float64_of_int [of 20] by (simp add: nearest_double_def power_int_minus)
  have r: "read_digits 0 (''20'' @ fraction_digits None) = Some 20" by (simp add: fraction_digits_def digit_def)
  have "set ['' '', '' ''] \<subseteq> set spaces" by (simp add: spaces_def)
  from percentage_parsed [OF this this _ r, of 20 0] n show ?thesis
    by (simp add: decimal_def fraction_digits_def)
qed

end
