(* ===== verification/Go_Mutex.thy ===== *)
theory Go_Mutex
  imports Go_Prelude
begin

text \<open>
  Goroutines that share one object behind a \<^verbatim>\<open>sync.Mutex\<close>. A method of the object is
  \<^verbatim>\<open>mu.Lock(); defer mu.Unlock(); body\<close>; its body runs statement by statement
  (\<open>body clk pc s\<close> gives the object after the statement at \<open>pc\<close> when the clock shows
  \<open>clk\<close>, and either the next program point or the value returned), and the statements of
  different goroutines interleave. Nothing in \<open>Exec\<close> or \<open>Return\<close> asks for the lock: that only its
  holder is inside a body is proved. The locale \<open>lock_protected\<close> is the contract
  of such an object: a proof outline of each body against one atomic step. From it follow mutual
  exclusion, that every interleaving amounts to the atomic steps in the order of the unlocks
  at clock readings that never go backwards, and that the lock is always handed on.
\<close>

section \<open>The goroutines and their steps\<close>

datatype ('op, 'pc, 'r) goroutine = Idle | Waiting 'op | Inside 'op 'pc | Leaving 'op 'r

record ('op, 'pc, 'r, 's) shared =
  sh_object :: 's
  sh_holder :: "nat option"
  sh_threads :: "nat \<Rightarrow> ('op, 'pc, 'r) goroutine"
  sh_clock :: int
  sh_done :: "('op \<times> 'r) list"

definition shared_init :: "'s \<Rightarrow> int \<Rightarrow> ('op, 'pc, 'r, 's) shared" where
  "shared_init s clk = \<lparr>sh_object = s, sh_holder = None, sh_threads = (\<lambda>_. Idle), sh_clock = clk, sh_done = []\<rparr>"

inductive goroutine_step ::
  "('op \<Rightarrow> 'pc) \<Rightarrow> (int \<Rightarrow> 'pc \<Rightarrow> 's \<Rightarrow> 's \<times> ('pc + 'r)) \<Rightarrow> nat \<Rightarrow>
    ('op, 'pc, 'r, 's) shared \<Rightarrow> ('op, 'pc, 'r, 's) shared \<Rightarrow> bool"
  for entry body i
where
  Call: "sh_threads w i = Idle \<Longrightarrow>
    goroutine_step entry body i w (w\<lparr>sh_threads := (sh_threads w)(i := Waiting op)\<rparr>)"
| Lock: "sh_threads w i = Waiting op \<Longrightarrow> sh_holder w = None \<Longrightarrow>
    goroutine_step entry body i w
      (w\<lparr>sh_holder := Some i, sh_threads := (sh_threads w)(i := Inside op (entry op))\<rparr>)"
| Exec: "sh_threads w i = Inside op pc \<Longrightarrow> body (sh_clock w) pc (sh_object w) = (s, Inl pc') \<Longrightarrow>
    goroutine_step entry body i w
      (w\<lparr>sh_object := s, sh_threads := (sh_threads w)(i := Inside op pc')\<rparr>)"
| Return: "sh_threads w i = Inside op pc \<Longrightarrow> body (sh_clock w) pc (sh_object w) = (s, Inr r) \<Longrightarrow>
    goroutine_step entry body i w
      (w\<lparr>sh_object := s, sh_threads := (sh_threads w)(i := Leaving op r)\<rparr>)"
| Unlock: "sh_threads w i = Leaving op r \<Longrightarrow>
    goroutine_step entry body i w
      (w\<lparr>sh_holder := None, sh_threads := (sh_threads w)(i := Idle), sh_done := sh_done w @ [(op, r)]\<rparr>)"

inductive_cases goroutine_stepE: "goroutine_step entry body i w w'"

text \<open>The reachable states: any goroutine moves, or time passes.\<close>

inductive shared_reachable ::
  "('op \<Rightarrow> 'pc) \<Rightarrow> (int \<Rightarrow> 'pc \<Rightarrow> 's \<Rightarrow> 's \<times> ('pc + 'r)) \<Rightarrow> ('op, 'pc, 'r, 's) shared \<Rightarrow>
    ('op, 'pc, 'r, 's) shared \<Rightarrow> bool"
  for entry body w0
where
  Init: "shared_reachable entry body w0 w0"
| Move: "shared_reachable entry body w0 w \<Longrightarrow> goroutine_step entry body i w w' \<Longrightarrow>
    shared_reachable entry body w0 w'"
| Tick: "shared_reachable entry body w0 w \<Longrightarrow> sh_clock w \<le> clk \<Longrightarrow>
    shared_reachable entry body w0 (w\<lparr>sh_clock := clk\<rparr>)"

text \<open>
  The same steps as a function: goroutine \<open>i\<close> moves (an idle one calls \<open>op\<close>), and \<open>None\<close>
  while it is blocked on the mutex. \<open>play\<close> runs a schedule of such moves and clock advances.
\<close>

fun move :: "('op \<Rightarrow> 'pc) \<Rightarrow> (int \<Rightarrow> 'pc \<Rightarrow> 's \<Rightarrow> 's \<times> ('pc + 'r)) \<Rightarrow> 'op \<Rightarrow> nat \<Rightarrow>
    ('op, 'pc, 'r, 's) shared \<Rightarrow> ('op, 'pc, 'r, 's) shared option" where
  "move entry body op i w =
     (case sh_threads w i of
        Idle \<Rightarrow> Some (w\<lparr>sh_threads := (sh_threads w)(i := Waiting op)\<rparr>)
      | Waiting op' \<Rightarrow>
          if sh_holder w = None
          then Some (w\<lparr>sh_holder := Some i, sh_threads := (sh_threads w)(i := Inside op' (entry op'))\<rparr>)
          else None
      | Inside op' pc \<Rightarrow>
          (case body (sh_clock w) pc (sh_object w) of
             (s, Inl pc') \<Rightarrow> Some (w\<lparr>sh_object := s, sh_threads := (sh_threads w)(i := Inside op' pc')\<rparr>)
           | (s, Inr r) \<Rightarrow> Some (w\<lparr>sh_object := s, sh_threads := (sh_threads w)(i := Leaving op' r)\<rparr>))
      | Leaving op' r \<Rightarrow>
          Some (w\<lparr>sh_holder := None, sh_threads := (sh_threads w)(i := Idle), sh_done := sh_done w @ [(op', r)]\<rparr>))"

lemma goroutine_step_iff_move:
  "goroutine_step entry body i w w' \<longleftrightarrow> (\<exists>op. move entry body op i w = Some w')"
proof
  assume "goroutine_step entry body i w w'"
  then show "\<exists>op. move entry body op i w = Some w'" by cases auto
next
  assume "\<exists>op. move entry body op i w = Some w'"
  then obtain op where m: "move entry body op i w = Some w'" by blast
  show "goroutine_step entry body i w w'"
  proof (cases "sh_threads w i")
    case (Inside op' pc)
    obtain s n where b: "body (sh_clock w) pc (sh_object w) = (s, n)" by fastforce
    with m Inside show ?thesis
      by (cases n) (auto intro: goroutine_step.Exec goroutine_step.Return)
  qed (use m in \<open>auto split: if_splits intro: goroutine_step.intros\<close>)
qed

datatype 'op turn = Turn nat 'op | Wait nat

fun play :: "('op \<Rightarrow> 'pc) \<Rightarrow> (int \<Rightarrow> 'pc \<Rightarrow> 's \<Rightarrow> 's \<times> ('pc + 'r)) \<Rightarrow> 'op turn list \<Rightarrow>
    ('op, 'pc, 'r, 's) shared \<Rightarrow> ('op, 'pc, 'r, 's) shared option" where
  "play entry body [] w = Some w"
| "play entry body (Turn i op # ps) w =
     (case move entry body op i w of None \<Rightarrow> None | Some w' \<Rightarrow> play entry body ps w')"
| "play entry body (Wait d # ps) w = play entry body ps (w\<lparr>sh_clock := sh_clock w + int d\<rparr>)"

lemma play_reachable:
  "shared_reachable entry body w0 w \<Longrightarrow> play entry body ps w = Some w' \<Longrightarrow> shared_reachable entry body w0 w'"
proof (induction ps arbitrary: w)
  case (Cons p ps)
  show ?case
  proof (cases p)
    case (Turn i op)
    then obtain v where v: "move entry body op i w = Some v" "play entry body ps v = Some w'"
      using Cons.prems(2) by (auto split: option.splits simp del: move.simps)
    then have "goroutine_step entry body i w v" using goroutine_step_iff_move by blast
    with Cons.prems(1) have "shared_reachable entry body w0 v" by (rule shared_reachable.Move)
    then show ?thesis using v(2) by (rule Cons.IH)
  next
    case (Wait d)
    then show ?thesis using Cons.IH [OF shared_reachable.Tick [OF Cons.prems(1), of "sh_clock w + int d"]] Cons.prems(2)
      by simp
  qed
qed simp

fun in_section :: "('op, 'pc, 'r) goroutine \<Rightarrow> bool" where
  "in_section (Inside op pc) = True"
| "in_section (Leaving op r) = True"
| "in_section g = False"

text \<open>
  The atomic object: each operation, with its clock reading, is one step
  \<open>atomic op t\<close>. \<open>serial atomic s ts ops s'\<close>: the operations \<open>ops\<close> done
  one after the other at the times \<open>ts\<close> take \<open>s\<close> to \<open>s'\<close> and give exactly the recorded results.
\<close>

fun serial :: "('op \<Rightarrow> int \<Rightarrow> 's \<Rightarrow> 's \<times> 'r) \<Rightarrow> 's \<Rightarrow> int list \<Rightarrow> ('op \<times> 'r) list \<Rightarrow> 's \<Rightarrow> bool" where
  "serial atomic s [] [] s' \<longleftrightarrow> s' = s"
| "serial atomic s (t # ts) ((op, r) # ops) s' \<longleftrightarrow>
     snd (atomic op t s) = r \<and> serial atomic (fst (atomic op t s)) ts ops s'"
| "serial atomic s _ _ s' \<longleftrightarrow> False"

lemma serial_length: "serial atomic s ts ops s' \<Longrightarrow> length ts = length ops"
  by (induction atomic s ts ops s' rule: serial.induct) auto

lemma serial_snoc:
  "serial atomic s ts ops s' \<Longrightarrow> atomic op t s' = (s'', r) \<Longrightarrow>
     serial atomic s (ts @ [t]) (ops @ [(op, r)]) s''"
  by (induction atomic s ts ops s' rule: serial.induct) auto

lemma serial_take:
  "serial atomic s ts ops s' \<Longrightarrow> \<exists>s1. serial atomic s (take k ts) (take k ops) s1 \<and>
     (k < length ops \<longrightarrow> snd (atomic (fst (ops ! k)) (ts ! k) s1) = snd (ops ! k))"
proof (induction atomic s ts ops s' arbitrary: k rule: serial.induct)
  case (2 atomic s t ts op r ops s')
  show ?case
  proof (cases k)
    case (Suc l)
    then show ?thesis using "2.IH" [of l] "2.prems" by auto
  qed (use "2.prems" in auto)
qed auto

section \<open>The contract of a lock-protected object\<close>

text \<open>
  \<open>outline op s a b pc s'\<close>: the body of \<open>op\<close>, entered on the object \<open>s\<close> when the
  clock showed \<open>a\<close>, may stand at \<open>pc\<close> with the object \<open>s'\<close> when the clock shows \<open>b\<close>.
\<close>

locale lock_protected =
  fixes entry :: "'op \<Rightarrow> 'pc"
    and body :: "int \<Rightarrow> 'pc \<Rightarrow> 's \<Rightarrow> 's \<times> ('pc + 'r)"
    and atomic :: "'op \<Rightarrow> int \<Rightarrow> 's \<Rightarrow> 's \<times> 'r"
    and outline :: "'op \<Rightarrow> 's \<Rightarrow> int \<Rightarrow> int \<Rightarrow> 'pc \<Rightarrow> 's \<Rightarrow> bool"
    and left :: "'pc \<Rightarrow> 's \<Rightarrow> nat"
  assumes outline_entry: "outline op s a a (entry op) s"
    and outline_wait: "outline op s a b pc s' \<Longrightarrow> b \<le> b' \<Longrightarrow> outline op s a b' pc s'"
    and outline_exec: "outline op s a b pc s' \<Longrightarrow> body b pc s' = (s'', Inl pc') \<Longrightarrow> outline op s a b pc' s''"
    and outline_return: "outline op s a b pc s' \<Longrightarrow> body b pc s' = (s'', Inr r) \<Longrightarrow>
      \<exists>t. a \<le> t \<and> t \<le> b \<and> atomic op t s = (s'', r)"
    and left_exec: "body b pc s' = (s'', Inl pc') \<Longrightarrow> left pc' s'' < left pc s'"
begin

text \<open>The invariant: the finished operations are serialised at growing times, and
  the goroutine that holds the lock, if any, is the only one in a body and is where its outline says.\<close>

definition serialised :: "'s \<Rightarrow> int \<Rightarrow> int \<Rightarrow> int list \<Rightarrow> ('op \<times> 'r) list \<Rightarrow> 's \<Rightarrow> bool" where
  "serialised s0 c0 c ts ops s \<longleftrightarrow>
     serial atomic s0 ts ops s \<and> sorted ts \<and> (\<forall>t \<in> set ts. c0 \<le> t \<and> t \<le> c)"

lemma serialised_snoc:
  assumes "serialised s0 c0 a ts ops s" "a \<le> t" "c0 \<le> a" "t \<le> b" "atomic op t s = (s', r)"
  shows "serialised s0 c0 b (ts @ [t]) (ops @ [(op, r)]) s'"
  using assms serial_snoc [of atomic s0 ts ops s op t s' r]
  by (fastforce simp: serialised_def sorted_append)

lemma serialised_later: "serialised s0 c0 c ts ops s \<Longrightarrow> c \<le> c' \<Longrightarrow> serialised s0 c0 c' ts ops s"
  by (fastforce simp: serialised_def)

fun section_ok :: "'s \<Rightarrow> int \<Rightarrow> int \<Rightarrow> ('op \<times> 'r) list \<Rightarrow> 's \<Rightarrow> ('op, 'pc, 'r) goroutine \<Rightarrow> bool" where
  "section_ok s0 c0 c ops s (Inside op pc) \<longleftrightarrow>
     (\<exists>ts a s1. serialised s0 c0 a ts ops s1 \<and> c0 \<le> a \<and> a \<le> c \<and> outline op s1 a c pc s)"
| "section_ok s0 c0 c ops s (Leaving op r) \<longleftrightarrow>
     (\<exists>ts. serialised s0 c0 c ts (ops @ [(op, r)]) s)"
| "section_ok s0 c0 c ops s g \<longleftrightarrow> False"

definition lock_inv :: "'s \<Rightarrow> int \<Rightarrow> ('op, 'pc, 'r, 's) shared \<Rightarrow> bool" where
  "lock_inv s0 c0 w \<longleftrightarrow> c0 \<le> sh_clock w \<and>
     (\<forall>i. in_section (sh_threads w i) \<longleftrightarrow> sh_holder w = Some i) \<and>
     (case sh_holder w of
        None \<Rightarrow> \<exists>ts. serialised s0 c0 (sh_clock w) ts (sh_done w) (sh_object w)
      | Some i \<Rightarrow> section_ok s0 c0 (sh_clock w) (sh_done w) (sh_object w) (sh_threads w i))"

lemma lock_inv_holder: "lock_inv s0 c0 w \<Longrightarrow> in_section (sh_threads w i) \<Longrightarrow> sh_holder w = Some i"
  by (simp add: lock_inv_def)

lemma lock_inv_section:
  "lock_inv s0 c0 w \<Longrightarrow> in_section (sh_threads w i) \<Longrightarrow>
     section_ok s0 c0 (sh_clock w) (sh_done w) (sh_object w) (sh_threads w i)"
  by (simp add: lock_inv_def)

lemma section_ok_exec:
  assumes "section_ok s0 c0 c ops s (Inside op pc)" "body c pc s = (s', Inl pc')"
  shows "section_ok s0 c0 c ops s' (Inside op pc')"
  using assms outline_exec by (simp, blast)

lemma section_ok_return:
  assumes "section_ok s0 c0 c ops s (Inside op pc)" "body c pc s = (s', Inr r)"
  shows "section_ok s0 c0 c ops s' (Leaving op r)"
proof -
  obtain ts a s1 where o: "serialised s0 c0 a ts ops s1" "c0 \<le> a" "outline op s1 a c pc s"
    using assms(1) by auto
  obtain t where "a \<le> t" "t \<le> c" "atomic op t s1 = (s', r)"
    using outline_return [OF o(3) assms(2)] by blast
  with o show ?thesis using serialised_snoc by (simp, blast)
qed

lemma section_ok_later:
  assumes "section_ok s0 c0 c ops s g" "c \<le> c'"
  shows "section_ok s0 c0 c' ops s g"
proof (cases g)
  case (Inside op pc)
  with assms show ?thesis using outline_wait order_trans by (simp, blast)
next
  case (Leaving op r)
  with assms show ?thesis using serialised_later by (simp, blast)
qed (use assms in simp_all)

lemma lock_inv_step:
  assumes "goroutine_step entry body i w w'" "lock_inv s0 c0 w"
  shows "lock_inv s0 c0 w'"
  using assms(1)
proof cases
  case (Call op)
  then show ?thesis using assms(2) by (auto simp: lock_inv_def split: option.splits)
next
  case (Lock op)
  then obtain ts where "serialised s0 c0 (sh_clock w) ts (sh_done w) (sh_object w)"
    using assms(2) by (auto simp: lock_inv_def)
  then have "section_ok s0 c0 (sh_clock w) (sh_done w) (sh_object w) (Inside op (entry op))"
    using assms(2) outline_entry [of op "sh_object w" "sh_clock w"]
    by (auto simp: lock_inv_def intro!: exI [of _ ts] exI [of _ "sh_clock w"] exI [of _ "sh_object w"])
  then show ?thesis using Lock assms(2) by (auto simp: lock_inv_def simp del: section_ok.simps)
next
  case (Exec op pc s pc')
  then have "section_ok s0 c0 (sh_clock w) (sh_done w) s (Inside op pc')"
    using lock_inv_section [OF assms(2), of i] section_ok_exec by simp
  then show ?thesis using Exec assms(2) lock_inv_holder [OF assms(2), of i]
    by (auto simp: lock_inv_def simp del: section_ok.simps)
next
  case (Return op pc s r)
  then have "section_ok s0 c0 (sh_clock w) (sh_done w) s (Leaving op r)"
    using lock_inv_section [OF assms(2), of i] section_ok_return by simp
  then show ?thesis using Return assms(2) lock_inv_holder [OF assms(2), of i]
    by (auto simp: lock_inv_def simp del: section_ok.simps)
next
  case (Unlock op r)
  then show ?thesis using assms(2) lock_inv_holder [OF assms(2), of i] lock_inv_section [OF assms(2), of i]
    by (auto simp: lock_inv_def)
qed

lemma lock_inv_reachable:
  assumes "shared_reachable entry body (shared_init s0 c0) w"
  shows "lock_inv s0 c0 w"
  using assms
proof induction
  case Init
  then show ?case
    by (auto simp: lock_inv_def shared_init_def serialised_def intro!: exI [of _ "[]"])
next
  case (Move w i w')
  then show ?case using lock_inv_step by blast
next
  case (Tick w clk)
  then show ?case using section_ok_later serialised_later
    by (fastforce simp: lock_inv_def split: option.splits)
qed

text \<open>No two goroutines are inside a body, and a goroutine inside one holds the lock.\<close>

lemma mutual_exclusion:
  assumes "shared_reachable entry body (shared_init s0 c0) w"
  shows "in_section (sh_threads w i) \<longleftrightarrow> sh_holder w = Some i"
  using lock_inv_reachable [OF assms] by (simp add: lock_inv_def)

text \<open>Whenever the lock is free, the object and all results are those of the atomic steps.\<close>

lemma linearisable:
  assumes "shared_reachable entry body (shared_init s0 c0) w" "sh_holder w = None"
  shows "\<exists>ts. serial atomic s0 ts (sh_done w) (sh_object w) \<and> sorted ts \<and>
    (\<forall>t \<in> set ts. c0 \<le> t \<and> t \<le> sh_clock w)"
  using lock_inv_reachable [OF assms(1)] assms(2) by (simp add: lock_inv_def serialised_def)

text \<open>At any moment, held or not, the finished operations are those of the atomic steps.\<close>

lemma finished_linearisable:
  assumes "shared_reachable entry body (shared_init s0 c0) w"
  shows "\<exists>ts s. serial atomic s0 ts (sh_done w) s \<and> sorted ts \<and>
    (\<forall>t \<in> set ts. c0 \<le> t \<and> t \<le> sh_clock w)"
proof -
  have inv: "lock_inv s0 c0 w" using assms by (rule lock_inv_reachable)
  obtain ts s xs where ts: "serialised s0 c0 (sh_clock w) ts (sh_done w @ xs) s"
  proof (cases "sh_holder w")
    case None
    with inv that [of _ "[]"] show ?thesis by (auto simp: lock_inv_def)
  next
    case (Some i)
    then have ok: "section_ok s0 c0 (sh_clock w) (sh_done w) (sh_object w) (sh_threads w i)"
      using inv by (simp add: lock_inv_def)
    then show ?thesis
    proof (cases "sh_threads w i")
      case (Inside op pc)
      with ok that [of _ "[]"] show ?thesis using serialised_later by fastforce
    next
      case (Leaving op r)
      with ok that show ?thesis by auto
    qed simp_all
  qed
  then have "sorted (take (length (sh_done w)) ts)"
      "\<forall>t \<in> set (take (length (sh_done w)) ts). c0 \<le> t \<and> t \<le> sh_clock w"
    by (auto simp: serialised_def dest: in_set_takeD sorted_wrt_take)
  moreover obtain s1 where "serial atomic s0 (take (length (sh_done w)) ts) (sh_done w) s1"
    using serial_take [of atomic s0 ts "sh_done w @ xs" s "length (sh_done w)"] ts
    by (auto simp: serialised_def)
  ultimately show ?thesis by blast
qed

text \<open>The lock is always handed on: a goroutine inside a body leaves it on its own, in finitely
  many of its own steps, and then the lock is free; so no call waits for ever on a holder
  that has stopped.\<close>

lemma holder_leaves:
  assumes "sh_threads w i = Inside op pc"
  shows "\<exists>w'. (goroutine_step entry body i)\<^sup>*\<^sup>* w w' \<and> sh_holder w' = None \<and> sh_threads w' i = Idle \<and>
    (\<forall>j. j \<noteq> i \<longrightarrow> sh_threads w' j = sh_threads w j)"
  using assms
proof (induction "left pc (sh_object w)" arbitrary: w pc rule: less_induct)
  case less
  obtain s n where b: "body (sh_clock w) pc (sh_object w) = (s, n)" by fastforce
  show ?case
  proof (cases n)
    case (Inl pc')
    let ?w = "w\<lparr>sh_object := s, sh_threads := (sh_threads w)(i := Inside op pc')\<rparr>"
    have "left pc' (sh_object ?w) < left pc (sh_object w)" using left_exec b Inl by simp
    from less.hyps [OF this] obtain w' where "(goroutine_step entry body i)\<^sup>*\<^sup>* ?w w'"
        "sh_holder w' = None" "sh_threads w' i = Idle" "\<forall>j. j \<noteq> i \<longrightarrow> sh_threads w' j = sh_threads w j"
      by auto
    moreover have "goroutine_step entry body i w ?w"
      by (rule goroutine_step.Exec) (use less.prems b Inl in simp_all)
    ultimately show ?thesis using converse_rtranclp_into_rtranclp [of "goroutine_step entry body i"] by blast
  next
    case (Inr r)
    let ?w = "w\<lparr>sh_object := s, sh_threads := (sh_threads w)(i := Leaving op r)\<rparr>"
    let ?v = "?w\<lparr>sh_holder := None, sh_threads := (sh_threads ?w)(i := Idle), sh_done := sh_done ?w @ [(op, r)]\<rparr>"
    have "goroutine_step entry body i w ?w"
      by (rule goroutine_step.Return) (use less.prems b Inr in simp_all)
    moreover have "goroutine_step entry body i ?w ?v" by (rule goroutine_step.Unlock) simp
    ultimately have "(goroutine_step entry body i)\<^sup>*\<^sup>* w ?v"
      by (intro converse_rtranclp_into_rtranclp [of _ w ?w] r_into_rtranclp)
    then show ?thesis by (intro exI [of _ ?v]) simp
  qed
qed

lemma lock_released:
  assumes "shared_reachable entry body (shared_init s0 c0) w" "sh_holder w = Some i"
  shows "\<exists>w'. (goroutine_step entry body i)\<^sup>*\<^sup>* w w' \<and> sh_holder w' = None"
proof -
  have "in_section (sh_threads w i)" using mutual_exclusion [OF assms(1)] assms(2) by simp
  then consider (inside) op pc where "sh_threads w i = Inside op pc"
    | (leaving) op r where "sh_threads w i = Leaving op r"
    by (cases "sh_threads w i") auto
  then show ?thesis
  proof cases
    case inside
    then show ?thesis using holder_leaves by blast
  next
    case leaving
    then have "goroutine_step entry body i w (w\<lparr>sh_holder := None,
        sh_threads := (sh_threads w)(i := Idle), sh_done := sh_done w @ [(op, r)]\<rparr>)"
      by (rule goroutine_step.Unlock)
    then show ?thesis using r_into_rtranclp [of "goroutine_step entry body i"] by fastforce
  qed
qed

end

end
