(* ===== verification/Heartbeat_Concurrency.thy ===== *)
theory Heartbeat_Concurrency
  imports Heartbeat Go_Mutex
begin

text \<open>
  The heartbeat as the goroutines use it: the runner calls \<open>StartMonitoring\<close> and
  \<open>UpdateLastActivity\<close>, the health endpoint calls \<open>Check\<close> from a goroutine per request.
  The bodies run statement by statement, each reading of the clock and each store into the
  object a step of its own, in any interleaving the mutex allows.
\<close>

datatype hb_call = CallStartMonitoring | CallUpdateLastActivity | CallCheck

datatype hb_point =
    Start_flag | Start_now | Start_store int
  | Update_now | Update_store int
  | Check_flag | Check_now | Check_ago int | Check_after int int

fun hb_entry :: "hb_call \<Rightarrow> hb_point" where
  "hb_entry CallStartMonitoring = Start_flag"
| "hb_entry CallUpdateLastActivity = Update_now"
| "hb_entry CallCheck = Check_flag"

fun hb_body :: "(int \<Rightarrow> string) \<Rightarrow> int \<Rightarrow> hb_point \<Rightarrow> heartbeat \<Rightarrow>
    heartbeat \<times> (hb_point + go_error option)" where
  "hb_body dur clk Start_flag h = (h\<lparr>checkTimeout := True\<rparr>, Inl Start_now)"
| "hb_body dur clk Start_now h = (h, Inl (Start_store clk))"
| "hb_body dur clk (Start_store now) h = (h\<lparr>lastActivity := now\<rparr>, Inr None)"
| "hb_body dur clk Update_now h = (h, Inl (Update_store clk))"
| "hb_body dur clk (Update_store now) h = (h\<lparr>lastActivity := now\<rparr>, Inr None)"
| "hb_body dur clk Check_flag h = (h, if \<not> checkTimeout h then Inr None else Inl Check_now)"
| "hb_body dur clk Check_now h = (h, Inl (Check_ago clk))"
| "hb_body dur clk (Check_ago now) h = (h, Inl (Check_after now (now - lastActivity h)))"
| "hb_body dur clk (Check_after now ago) h =
     (h, Inr (if now > lastActivity h + activityTimeout h
              then Some (ErrorString (''last activity more than '' @ dur ago @ '' ago''))
              else None))"

text \<open>The atomic operations are those of \<open>Heartbeat\<close>.\<close>

fun hb_atomic :: "(int \<Rightarrow> string) \<Rightarrow> hb_call \<Rightarrow> int \<Rightarrow> heartbeat \<Rightarrow> heartbeat \<times> go_error option" where
  "hb_atomic dur CallStartMonitoring t h = (StartMonitoring t h, None)"
| "hb_atomic dur CallUpdateLastActivity t h = (UpdateLastActivity t h, None)"
| "hb_atomic dur CallCheck t h = (h, Check dur t h)"

section \<open>The proof outline\<close>

fun hb_outline :: "hb_call \<Rightarrow> heartbeat \<Rightarrow> int \<Rightarrow> int \<Rightarrow> hb_point \<Rightarrow> heartbeat \<Rightarrow> bool" where
  "hb_outline op h a b Start_flag h' \<longleftrightarrow> op = CallStartMonitoring \<and> a \<le> b \<and> h' = h"
| "hb_outline op h a b Start_now h' \<longleftrightarrow>
     op = CallStartMonitoring \<and> a \<le> b \<and> h' = h\<lparr>checkTimeout := True\<rparr>"
| "hb_outline op h a b (Start_store now) h' \<longleftrightarrow>
     op = CallStartMonitoring \<and> a \<le> now \<and> now \<le> b \<and> h' = h\<lparr>checkTimeout := True\<rparr>"
| "hb_outline op h a b Update_now h' \<longleftrightarrow> op = CallUpdateLastActivity \<and> a \<le> b \<and> h' = h"
| "hb_outline op h a b (Update_store now) h' \<longleftrightarrow>
     op = CallUpdateLastActivity \<and> a \<le> now \<and> now \<le> b \<and> h' = h"
| "hb_outline op h a b Check_flag h' \<longleftrightarrow> op = CallCheck \<and> a \<le> b \<and> h' = h"
| "hb_outline op h a b Check_now h' \<longleftrightarrow> op = CallCheck \<and> a \<le> b \<and> h' = h \<and> checkTimeout h"
| "hb_outline op h a b (Check_ago now) h' \<longleftrightarrow>
     op = CallCheck \<and> a \<le> now \<and> now \<le> b \<and> h' = h \<and> checkTimeout h"
| "hb_outline op h a b (Check_after now ago) h' \<longleftrightarrow>
     op = CallCheck \<and> a \<le> now \<and> now \<le> b \<and> h' = h \<and> checkTimeout h \<and> ago = now - lastActivity h"

fun hb_left :: "hb_point \<Rightarrow> heartbeat \<Rightarrow> nat" where
  "hb_left Start_flag h = 2"
| "hb_left Start_now h = 1"
| "hb_left (Start_store now) h = 0"
| "hb_left Update_now h = 1"
| "hb_left (Update_store now) h = 0"
| "hb_left Check_flag h = 3"
| "hb_left Check_now h = 2"
| "hb_left (Check_ago now) h = 1"
| "hb_left (Check_after now ago) h = 0"

interpretation hb: lock_protected hb_entry "hb_body dur" "hb_atomic dur" hb_outline hb_left
proof unfold_locales
  fix op s a show "hb_outline op s a a (hb_entry op) s" by (cases op) simp_all
next
  fix op s a b pc s' and b' :: int
  assume "hb_outline op s a b pc s'" "b \<le> b'"
  then show "hb_outline op s a b' pc s'" by (cases pc) auto
next
  fix op s a b pc s' s'' pc'
  assume "hb_outline op s a b pc s'" "hb_body dur b pc s' = (s'', Inl pc')"
  then show "hb_outline op s a b pc' s''" by (cases pc) (auto split: if_splits)
next
  fix op s a b pc s' s'' r
  assume o: "hb_outline op s a b pc s'" "hb_body dur b pc s' = (s'', Inr r)"
  then show "\<exists>t. a \<le> t \<and> t \<le> b \<and> hb_atomic dur op t s = (s'', r)"
    by (cases pc)
      (auto simp: StartMonitoring_def UpdateLastActivity_def Check_def Let_def split: if_splits)
next
  fix b pc s' s'' pc'
  assume "hb_body dur b pc s' = (s'', Inl pc')"
  then show "hb_left pc' s'' < hb_left pc s'" by (cases pc) (auto split: if_splits)
qed

section \<open>What the finished calls say\<close>

text \<open>The activities among the finished calls, with their times.\<close>

fun hb_beats :: "int list \<Rightarrow> (hb_call \<times> go_error option) list \<Rightarrow> beat list" where
  "hb_beats (t # ts) ((CallStartMonitoring, r) # ops) = Start t # hb_beats ts ops"
| "hb_beats (t # ts) ((CallUpdateLastActivity, r) # ops) = Beat t # hb_beats ts ops"
| "hb_beats (t # ts) ((CallCheck, r) # ops) = hb_beats ts ops"
| "hb_beats _ _ = []"

lemma serial_beats: "serial (hb_atomic dur) h ts ops h' \<Longrightarrow> h' = heartbeat_run (hb_beats ts ops) h"
proof (induction "hb_atomic dur" h ts ops h' rule: serial.induct)
  case (2 s t ts op r ops s')
  then show ?case by (cases op) auto
qed auto

lemma hb_beats_times: "set (map beat_time (hb_beats ts ops)) \<subseteq> set ts"
  by (induction ts ops rule: hb_beats.induct) auto

lemma hb_beats_sorted: "sorted ts \<Longrightarrow> sorted (map beat_time (hb_beats ts ops))"
proof (induction ts ops rule: hb_beats.induct)
  case (1 t ts r ops)
  then show ?case using hb_beats_times [of ts ops] by auto
next
  case (2 t ts r ops)
  then show ?case using hb_beats_times [of ts ops] by auto
qed auto

lemma ex_less_Suc: "(\<exists>j < Suc n. P j) \<longleftrightarrow> P 0 \<or> (\<exists>j < n. P (Suc j))"
  using less_Suc_eq_0_disj by auto

lemma hb_beats_Start:
  "length ts = length ops \<Longrightarrow>
     (\<exists>t. Start t \<in> set (hb_beats ts ops)) \<longleftrightarrow> (\<exists>j < length ops. fst (ops ! j) = CallStartMonitoring)"
  by (induction ts ops rule: hb_beats.induct) (auto simp: ex_less_Suc)

lemma hb_beats_all:
  "length ts = length ops \<Longrightarrow>
     (\<forall>b \<in> set (hb_beats ts ops). P (beat_time b)) \<longleftrightarrow>
       (\<forall>j < length ops. fst (ops ! j) \<noteq> CallCheck \<longrightarrow> P (ts ! j))"
  by (induction ts ops rule: hb_beats.induct) (auto simp: All_less_Suc2)

lemma lastActivity_less:
  assumes "sorted (map beat_time bs)" "bs \<noteq> []"
  shows "lastActivity (heartbeat_run bs h) < x \<longleftrightarrow> (\<forall>b \<in> set bs. beat_time b < x)"
proof -
  obtain cs c where bs: "bs = cs @ [c]" using assms(2) by (cases bs rule: rev_cases) auto
  then have "\<forall>b \<in> set cs. beat_time b \<le> beat_time c" using assms(1) by (auto simp: sorted_append)
  with bs show ?thesis using heartbeat_run_last [of cs c h] by (auto simp del: heartbeat_run_simps)
qed

lemma Check_after_beats:
  assumes "sorted (map beat_time bs)" "\<not> checkTimeout h"
  shows "Check dur t (heartbeat_run bs h) \<noteq> None \<longleftrightarrow>
    (\<exists>u. Start u \<in> set bs) \<and> (\<forall>b \<in> set bs. beat_time b + activityTimeout h < t)"
proof (cases "bs = []")
  case False
  show ?thesis
    using lastActivity_less [OF assms(1) False, of h "t - activityTimeout h"] assms(2)
    by (auto simp: Check_def Let_def heartbeat_run_check algebra_simps)
qed (use assms in \<open>simp add: Check_def\<close>)

text \<open>
  C30: However the goroutines interleave inside the heartbeat, at most one of them is in a
  method body, and there are clock readings for the finished calls, in the order the calls left
  the mutex and never going back, such that a health check failed exactly when
  monitoring had been started before it and every activity before it was more
  than the timeout old. A goroutine that holds the mutex can always run on to release it.
\<close>

theorem heartbeat_interleavings:
  assumes "shared_reachable hb_entry (hb_body dur) (shared_init (NewHeartbeat timeout t0) t0) w"
  shows "(\<forall>i j. in_section (sh_threads w i) \<longrightarrow> in_section (sh_threads w j) \<longrightarrow> i = j) \<and>
    (\<exists>ts. length ts = length (sh_done w) \<and> sorted ts \<and> (\<forall>t \<in> set ts. t0 \<le> t \<and> t \<le> sh_clock w) \<and>
      (\<forall>k < length (sh_done w). fst (sh_done w ! k) = CallCheck \<longrightarrow>
        (snd (sh_done w ! k) \<noteq> None \<longleftrightarrow>
          (\<exists>j < k. fst (sh_done w ! j) = CallStartMonitoring) \<and>
          (\<forall>j < k. fst (sh_done w ! j) \<noteq> CallCheck \<longrightarrow> ts ! j + timeout < ts ! k)))) \<and>
    (\<forall>i. sh_holder w = Some i \<longrightarrow>
      (\<exists>w'. (goroutine_step hb_entry (hb_body dur) i)\<^sup>*\<^sup>* w w' \<and> sh_holder w' = None))"
proof -
  let ?ops = "sh_done w" and ?h = "NewHeartbeat timeout t0"
  obtain ts h where ts: "serial (hb_atomic dur) ?h ts ?ops h" "sorted ts"
      "\<forall>t \<in> set ts. t0 \<le> t \<and> t \<le> sh_clock w"
    using hb.finished_linearisable [OF assms] by blast
  have len: "length ts = length ?ops" using ts(1) by (rule serial_length)
  have "snd (?ops ! k) \<noteq> None \<longleftrightarrow> (\<exists>j < k. fst (?ops ! j) = CallStartMonitoring) \<and>
      (\<forall>j < k. fst (?ops ! j) \<noteq> CallCheck \<longrightarrow> ts ! j + timeout < ts ! k)"
    if k: "k < length ?ops" "fst (?ops ! k) = CallCheck" for k
  proof -
    obtain h1 where h1: "serial (hb_atomic dur) ?h (take k ts) (take k ?ops) h1"
        "snd (hb_atomic dur (fst (?ops ! k)) (ts ! k) h1) = snd (?ops ! k)"
      using serial_take [OF ts(1), of k] k(1) by blast
    then have "snd (?ops ! k) = Check dur (ts ! k) (heartbeat_run (hb_beats (take k ts) (take k ?ops)) ?h)"
      using k(2) serial_beats by fastforce
    moreover have "sorted (map beat_time (hb_beats (take k ts) (take k ?ops)))"
      using ts(2) by (intro hb_beats_sorted sorted_wrt_take)
    ultimately show ?thesis
      using Check_after_beats hb_beats_Start [of "take k ts" "take k ?ops"]
        hb_beats_all [of "take k ts" "take k ?ops" "\<lambda>u. u + timeout < ts ! k"] k(1) len
      by (simp add: NewHeartbeat_def cong: conj_cong)
  qed
  then show ?thesis
    using len ts hb.mutual_exclusion [OF assms] hb.lock_released [OF assms] by (intro conjI exI [of _ ts]) auto
qed

text \<open>
  The runner starts monitoring while a request is blocked on the mutex; the request is served
  6 ns later, with a timeout of 5 ns, and fails.
\<close>

definition hb_schedule :: "hb_call turn list" where
  "hb_schedule = [Turn 0 CallStartMonitoring, Turn 0 CallStartMonitoring, Turn 1 CallCheck,
     Turn 0 CallStartMonitoring, Turn 0 CallStartMonitoring, Wait 6, Turn 0 CallStartMonitoring,
     Turn 0 CallStartMonitoring, Turn 1 CallCheck, Turn 1 CallCheck, Turn 1 CallCheck, Turn 1 CallCheck,
     Turn 1 CallCheck, Turn 1 CallCheck]"

theorem heartbeat_interleavings_witness:
  "\<exists>w ts. play hb_entry (hb_body (\<lambda>_. ''6ns'')) hb_schedule (shared_init (NewHeartbeat 5 0) 0) = Some w \<and>
     map fst (sh_done w) = [CallStartMonitoring, CallCheck] \<and>
     snd (sh_done w ! 1) = Some (ErrorString ''last activity more than 6ns ago'') \<and>
     ts ! 0 + 5 < (ts ! 1 :: int) \<and> ts ! 1 \<le> sh_clock w"
proof -
  obtain w where w: "play hb_entry (hb_body (\<lambda>_. ''6ns'')) hb_schedule (shared_init (NewHeartbeat 5 0) 0) = Some w"
    and d: "sh_done w = [(CallStartMonitoring, None),
      (CallCheck, Some (ErrorString ''last activity more than 6ns ago''))]"
    by (simp add: hb_schedule_def shared_init_def NewHeartbeat_def)
  have r: "shared_reachable hb_entry (hb_body (\<lambda>_. ''6ns'')) (shared_init (NewHeartbeat 5 0) 0) w"
    using shared_reachable.Init w by (rule play_reachable)
  obtain ts where "length ts = 2" "\<forall>t \<in> set ts. t \<le> sh_clock w" "ts ! 0 + 5 < ts ! 1"
    using heartbeat_interleavings [OF r] d by (auto simp: All_less_Suc2 ex_less_Suc numeral_2_eq_2)
  with w d show ?thesis by (intro exI [of _ w] exI [of _ ts]) simp
qed

end
