(* ===== verification/Fake_Concurrency.thy ===== *)
theory Fake_Concurrency
  imports Metrics_Source Go_Mutex
begin

text \<open>
  The fake source as the goroutines use it: \<open>Start\<close> runs in one goroutine and calls
  \<open>consumeItems\<close> on every tick, others call \<open>Register\<close> and \<open>Get\<close>. The bodies run
  statement by statement over the entries of the map, in its iteration order, which is that of the
  list; \<open>Consume\<close> takes four statements for each item, so a reader that did not wait for the mutex could see an item
  half consumed or with a negative amount.
\<close>

datatype fake_call = CallRegister "Item list" | CallConsumeItems | CallGet

datatype consume_point = Bytes_sub | Bytes_clamp | Inodes_sub | Inodes_clamp

datatype fake_point =
    Register_items "Item list"
  | Consume_at nat consume_point
  | Get_at nat Metrics

fun fake_entry :: "fake_call \<Rightarrow> fake_point" where
  "fake_entry (CallRegister items) = Register_items items"
| "fake_entry CallConsumeItems = Consume_at 0 Bytes_sub"
| "fake_entry CallGet = Get_at 0 Map.empty"

text \<open>The four statements of \<open>Item.Consume\<close>.\<close>

fun consume_stmt :: "consume_point \<Rightarrow> Item \<Rightarrow> Item" where
  "consume_stmt Bytes_sub i = i\<lparr>it_AvailableBytes := wrap64 (it_AvailableBytes i - it_ConsumeBytesIncrement i)\<rparr>"
| "consume_stmt Bytes_clamp i = (if it_AvailableBytes i < 0 then i\<lparr>it_AvailableBytes := 0\<rparr> else i)"
| "consume_stmt Inodes_sub i = i\<lparr>it_AvailableInodes := wrap64 (it_AvailableInodes i - it_ConsumeInodesIncrement i)\<rparr>"
| "consume_stmt Inodes_clamp i = (if it_AvailableInodes i < 0 then i\<lparr>it_AvailableInodes := 0\<rparr> else i)"

fun consume_next :: "nat \<Rightarrow> consume_point \<Rightarrow> fake_point" where
  "consume_next n Bytes_sub = Consume_at n Bytes_clamp"
| "consume_next n Bytes_clamp = Consume_at n Inodes_sub"
| "consume_next n Inodes_sub = Consume_at n Inodes_clamp"
| "consume_next n Inodes_clamp = Consume_at (Suc n) Bytes_sub"

text \<open>The value returned: nothing but for \<open>Get\<close>. The clock plays no part.\<close>

fun fake_body :: "int \<Rightarrow> fake_point \<Rightarrow> Fake \<Rightarrow> Fake \<times> (fake_point + (go_error + Metrics) option)" where
  "fake_body clk (Register_items []) f = (f, Inr None)"
| "fake_body clk (Register_items (item # items)) f =
     (f\<lparr>fk_items := AList.update (it_NamespacedName item) item (fk_items f)\<rparr>, Inl (Register_items items))"
| "fake_body clk (Consume_at n p) f =
     (if n < length (fk_items f)
      then (case fk_items f ! n of (k, i) \<Rightarrow>
              (f\<lparr>fk_items := (fk_items f)[n := (k, consume_stmt p i)]\<rparr>, Inl (consume_next n p)))
      else (f, Inr None))"
| "fake_body clk (Get_at n result) f =
     (f, if n < length (fk_items f)
         then (case fk_items f ! n of (k, i) \<Rightarrow>
                 Inl (Get_at (Suc n) (result(it_NamespacedName i \<mapsto> Item_VolumeInfo i))))
         else Inr (Some (Inr result)))"

fun fake_atomic :: "fake_call \<Rightarrow> int \<Rightarrow> Fake \<Rightarrow> Fake \<times> (go_error + Metrics) option" where
  "fake_atomic (CallRegister items) t f = (Register items f, None)"
| "fake_atomic CallConsumeItems t f = (consumeItems f, None)"
| "fake_atomic CallGet t f = (f, Some (Fake_Get f))"

section \<open>The proof outline\<close>

fun partly_consumed :: "consume_point \<Rightarrow> Item \<Rightarrow> Item" where
  "partly_consumed Bytes_sub i = i"
| "partly_consumed Bytes_clamp i = consume_stmt Bytes_sub i"
| "partly_consumed Inodes_sub i = consume_stmt Bytes_clamp (consume_stmt Bytes_sub i)"
| "partly_consumed Inodes_clamp i = consume_stmt Inodes_sub (consume_stmt Bytes_clamp (consume_stmt Bytes_sub i))"

lemma partly_consumed_all: "consume_stmt Inodes_clamp (partly_consumed Inodes_clamp i) = Consume i"
  by (simp add: Consume_def consume_def Let_def)

text \<open>The entries before the \<open>n\<close>-th are consumed, the \<open>n\<close>-th as far as its statement.\<close>

definition consumed_upto :: "nat \<Rightarrow> consume_point \<Rightarrow> registry \<Rightarrow> registry" where
  "consumed_upto n p al = map (apsnd Consume) (take n al) @
     (case drop n al of [] \<Rightarrow> [] | e # es \<Rightarrow> apsnd (partly_consumed p) e # es)"

lemma length_consumed_upto [simp]: "length (consumed_upto n p al) = length al"
  by (auto simp: consumed_upto_def split: list.split dest: arg_cong [of _ _ length])

lemma consumed_upto_0 [simp]: "consumed_upto 0 Bytes_sub al = al"
  by (cases al) (auto simp: consumed_upto_def apsnd_def map_prod_def)

lemma consumed_upto_end: "length al \<le> n \<Longrightarrow> consumed_upto n p al = map (apsnd Consume) al"
  by (simp add: consumed_upto_def)

lemma consumed_upto_nth:
  "n < length al \<Longrightarrow> consumed_upto n p al ! n = apsnd (partly_consumed p) (al ! n)"
  by (simp add: consumed_upto_def nth_append Cons_nth_drop_Suc [symmetric])

lemma consumed_upto_next:
  assumes "n < length al" "consume_next n p = Consume_at m q"
  shows "(consumed_upto n p al)[n := apsnd (consume_stmt p) (consumed_upto n p al ! n)] = consumed_upto m q al"
proof -
  obtain k i where e: "al ! n = (k, i)" by fastforce
  have d: "drop n al = (k, i) # drop (Suc n) al" using assms(1) e by (simp add: Cons_nth_drop_Suc [symmetric])
  have l: "length (map (apsnd Consume) (take n al)) = n" using assms(1) by simp
  have "(consumed_upto n p al)[n := apsnd (consume_stmt p) (consumed_upto n p al ! n)] =
      map (apsnd Consume) (take n al) @ (k, consume_stmt p (partly_consumed p i)) # drop (Suc n) al"
    using l by (simp add: consumed_upto_nth [OF assms(1)] e) (simp add: consumed_upto_def d list_update_append)
  also have "\<dots> = consumed_upto m q al"
  proof (cases p)
    case Inodes_clamp
    then have m: "m = Suc n" "q = Bytes_sub" using assms(2) by simp_all
    have "take (Suc n) al = take n al @ [(k, i)]" using assms(1) e by (simp add: take_Suc_conv_app_nth)
    then show ?thesis using m Inodes_clamp partly_consumed_all [of i]
      by (auto simp: consumed_upto_def apsnd_def map_prod_def split: list.split)
  qed (use assms(2) d in \<open>auto simp: consumed_upto_def\<close>)
  finally show ?thesis .
qed

lemma consumeItems_apsnd: "consumeItems f = f\<lparr>fk_items := map (apsnd Consume) (fk_items f)\<rparr>"
  by (simp add: consumeItems_def apsnd_def map_prod_def)

definition get_upto :: "nat \<Rightarrow> registry \<Rightarrow> Metrics" where
  "get_upto n al = fold (\<lambda>(k, i) result. result(it_NamespacedName i \<mapsto> Item_VolumeInfo i)) (take n al) Map.empty"

fun fake_outline :: "fake_call \<Rightarrow> Fake \<Rightarrow> int \<Rightarrow> int \<Rightarrow> fake_point \<Rightarrow> Fake \<Rightarrow> bool" where
  "fake_outline op f a b (Register_items items) f' \<longleftrightarrow>
     a \<le> b \<and> (\<exists>done. op = CallRegister (done @ items) \<and> f' = Register done f)"
| "fake_outline op f a b (Consume_at n p) f' \<longleftrightarrow>
     a \<le> b \<and> op = CallConsumeItems \<and> f' = f\<lparr>fk_items := consumed_upto n p (fk_items f)\<rparr>"
| "fake_outline op f a b (Get_at n result) f' \<longleftrightarrow>
     a \<le> b \<and> op = CallGet \<and> f' = f \<and> result = get_upto n (fk_items f)"

fun fake_left :: "fake_point \<Rightarrow> Fake \<Rightarrow> nat" where
  "fake_left (Register_items items) f = length items"
| "fake_left (Consume_at n p) f =
     4 * (length (fk_items f) - n) - (case p of Bytes_sub \<Rightarrow> 0 | Bytes_clamp \<Rightarrow> 1 | Inodes_sub \<Rightarrow> 2 | Inodes_clamp \<Rightarrow> 3)"
| "fake_left (Get_at n result) f = length (fk_items f) - n"

lemma Register_Nil [simp]: "Register [] f = f"
  by (simp add: Register_def)

lemma Register_snoc:
  "Register (items @ [i]) f = (Register items f)\<lparr>fk_items := AList.update (it_NamespacedName i) i (fk_items (Register items f))\<rparr>"
  by (simp add: Register_def)

lemma fake_outline_exec:
  assumes "fake_outline op f a b pc f'" "fake_body b pc f' = (f'', Inl pc')"
  shows "fake_outline op f a b pc' f''"
proof (cases pc)
  case (Register_items items)
  then obtain item rest done' where r: "items = item # rest" "op = CallRegister (done' @ items)" "f' = Register done' f"
    using assms by (cases items) auto
  then show ?thesis using assms Register_items Register_snoc [of done' item f]
    by (auto intro!: exI [of _ "done' @ [item]"])
next
  case (Consume_at n p)
  let ?al = "fk_items f"
  have n: "n < length ?al" and f': "f' = f\<lparr>fk_items := consumed_upto n p ?al\<rparr>"
    using assms Consume_at by (auto split: if_splits)
  obtain m q where m: "consume_next n p = Consume_at m q" by (cases p) auto
  have "f'' = f\<lparr>fk_items := (consumed_upto n p ?al)[n := apsnd (consume_stmt p) (consumed_upto n p ?al ! n)]\<rparr>"
    "pc' = Consume_at m q"
    using assms(2) n m Consume_at f' by (auto simp: consumed_upto_nth apsnd_def map_prod_def split: prod.splits)
  then show ?thesis using assms Consume_at consumed_upto_next [OF n m] by simp
next
  case (Get_at n result)
  then show ?thesis using assms
    by (auto simp: get_upto_def take_Suc_conv_app_nth split: if_splits prod.splits)
qed

lemma fake_outline_return:
  assumes "fake_outline op f a b pc f'" "fake_body b pc f' = (f'', Inr r)"
  shows "a \<le> b \<and> fake_atomic op b f = (f'', r)"
proof (cases pc)
  case (Register_items items)
  then show ?thesis using assms by (cases items) auto
next
  case (Consume_at n p)
  then show ?thesis using assms
    by (auto simp: consumed_upto_end consumeItems_apsnd split: if_splits prod.splits)
next
  case (Get_at n result)
  then show ?thesis using assms
    by (auto simp: get_upto_def Fake_Get_def split: if_splits prod.splits)
qed

lemma fake_left_exec: "fake_body b pc f = (f', Inl pc') \<Longrightarrow> fake_left pc' f' < fake_left pc f"
proof (cases pc)
  case (Register_items items)
  then show "fake_body b pc f = (f', Inl pc') \<Longrightarrow> ?thesis" by (cases items) auto
next
  case (Consume_at n p)
  then show "fake_body b pc f = (f', Inl pc') \<Longrightarrow> ?thesis"
    by (cases p) (auto split: if_splits prod.splits)
qed (auto split: if_splits prod.splits)

interpretation fk: lock_protected fake_entry fake_body fake_atomic fake_outline fake_left
proof unfold_locales
  fix op s a show "fake_outline op s a a (fake_entry op) s"
    by (cases op) (simp_all add: get_upto_def)
next
  fix op s a b pc s' and b' :: int
  assume "fake_outline op s a b pc s'" "b \<le> b'"
  then show "fake_outline op s a b' pc s'" by (cases pc) auto
next
  fix op s a b pc s' s'' r
  assume "fake_outline op s a b pc s'" "fake_body b pc s' = (s'', Inr r)"
  then show "\<exists>t. a \<le> t \<and> t \<le> b \<and> fake_atomic op t s = (s'', r)" using fake_outline_return by blast
qed (blast intro: fake_outline_exec fake_left_exec)+

section \<open>What the finished calls say\<close>

text \<open>The item a name should have after a call: the last one registered, consumed by every
  \<open>consumeItems\<close> since.\<close>

fun fake_expect :: "fake_call \<Rightarrow> (key \<rightharpoonup> Item) \<Rightarrow> key \<rightharpoonup> Item" where
  "fake_expect (CallRegister items) m = (\<lambda>k.
     case find (\<lambda>i. it_NamespacedName i = k) (rev items) of Some i \<Rightarrow> Some i | None \<Rightarrow> m k)"
| "fake_expect CallConsumeItems m = (\<lambda>k. map_option Consume (m k))"
| "fake_expect CallGet m = m"

lemma fake_atomic_expect:
  assumes "registry_ok (fk_items f)" "fake_atomic op t f = (f', r)"
  shows "registry_ok (fk_items f') \<and> map_of (fk_items f') = fake_expect op (map_of (fk_items f))"
proof (cases op)
  case (CallRegister items)
  then show ?thesis using assms registry_ok_updates [of "fk_items f" items]
    by (auto simp: Register_def map_of_registered fun_eq_iff)
next
  case CallConsumeItems
  then show ?thesis using assms registry_ok_consume [of f 1] map_of_consumed [of 1 "fk_items f"]
    by (auto simp: consume_ticks_def consumeItems_def fun_eq_iff)
qed (use assms in auto)

lemma serial_expect:
  "serial fake_atomic f ts ops f' \<Longrightarrow> registry_ok (fk_items f) \<Longrightarrow>
     registry_ok (fk_items f') \<and> map_of (fk_items f') = fold fake_expect (map fst ops) (map_of (fk_items f))"
proof (induction fake_atomic f ts ops f' rule: serial.induct)
  case (2 f t ts op r ops f')
  then show ?case using fake_atomic_expect [of f op t] by (cases "fake_atomic op t f") auto
qed auto

text \<open>
  C34: However the goroutines interleave inside the fake source, at most one of them is in a
  method body, and every finished \<open>Get\<close> succeeded and reported for each name exactly the
  item registered last under it, consumed once for every \<open>consumeItems\<close> that
  finished between that registration and the \<open>Get\<close>, and nothing for other names: no
  half-consumed item is ever reported. The mutex can always be released.
\<close>

theorem fake_source_interleavings:
  assumes "shared_reachable fake_entry fake_body (shared_init (Fake_New (map WithInterval is)) t0) w"
  shows "(\<forall>i j. in_section (sh_threads w i) \<longrightarrow> in_section (sh_threads w j) \<longrightarrow> i = j) \<and>
    (\<forall>n < length (sh_done w). fst (sh_done w ! n) = CallGet \<longrightarrow>
      snd (sh_done w ! n) = Some (Inr (\<lambda>k. map_option Item_VolumeInfo
        (fold fake_expect (map fst (take n (sh_done w))) Map.empty k)))) \<and>
    (\<forall>i. sh_holder w = Some i \<longrightarrow>
      (\<exists>w'. (goroutine_step fake_entry fake_body i)\<^sup>*\<^sup>* w w' \<and> sh_holder w' = None))"
proof -
  let ?ops = "sh_done w" and ?f = "Fake_New (map WithInterval is)"
  obtain ts f where ts: "serial fake_atomic ?f ts ?ops f"
    using fk.finished_linearisable [OF assms] by blast
  have "snd (?ops ! n) = Some (Inr (\<lambda>k. map_option Item_VolumeInfo
      (fold fake_expect (map fst (take n ?ops)) Map.empty k)))"
    if n: "n < length ?ops" "fst (?ops ! n) = CallGet" for n
  proof -
    obtain g where g: "serial fake_atomic ?f (take n ts) (take n ?ops) g"
        "snd (fake_atomic (fst (?ops ! n)) (ts ! n) g) = snd (?ops ! n)"
      using serial_take [OF ts, of n] n(1) by blast
    have "registry_ok (fk_items ?f)" by (simp add: Fake_New_items registry_ok_def)
    with serial_expect [OF g(1)] g(2) n(2) show ?thesis
      using Fake_Get_map_of [of g] by (simp add: Fake_New_items)
  qed
  then show ?thesis
    using fk.mutual_exclusion [OF assms] fk.lock_released [OF assms] by auto
qed

text \<open>
  An item is registered, and a \<open>Get\<close> is called while a tick is half way through it; the \<open>Get\<close>
  waits and reports the item fully consumed.
\<close>

definition fake_example_item :: Item where
  "fake_example_item = \<lparr>it_NamespacedName = (''ns'', ''a''), it_CapacityBytes = 10, it_AvailableBytes = 3,
     it_CapacityInodes = 10, it_AvailableInodes = 9, it_ConsumeBytesIncrement = 4, it_ConsumeInodesIncrement = 4\<rparr>"

definition fake_schedule :: "fake_call turn list" where
  "fake_schedule = replicate 5 (Turn 0 (CallRegister [fake_example_item])) @ replicate 3 (Turn 1 CallConsumeItems) @
     [Turn 2 CallGet] @ replicate 5 (Turn 1 CallConsumeItems) @ replicate 4 (Turn 2 CallGet)"

theorem fake_source_interleavings_witness:
  "\<exists>w r. play fake_entry fake_body fake_schedule (shared_init (Fake_New (map WithInterval [1])) 0) = Some w \<and>
     map fst (sh_done w) = [CallRegister [fake_example_item], CallConsumeItems, CallGet] \<and>
     snd (sh_done w ! 2) = Some (Inr r) \<and>
     r (''ns'', ''a'') = Some \<lparr>AvailableBytes = 0, CapacityBytes = 10, AvailableInodes = 5, CapacityInodes = 10\<rparr> \<and>
     r (''ns'', ''b'') = None"
proof -
  obtain w where w: "play fake_entry fake_body fake_schedule (shared_init (Fake_New (map WithInterval [1])) 0) = Some w"
    and d: "map fst (sh_done w) = [CallRegister [fake_example_item], CallConsumeItems, CallGet]"
    by (simp add: fake_schedule_def shared_init_def Fake_New_def WithInterval_def numeral_eq_Suc)
  have r: "shared_reachable fake_entry fake_body (shared_init (Fake_New (map WithInterval [1])) 0) w"
    using shared_reachable.Init w by (rule play_reachable)
  have len: "length (sh_done w) = 3" using arg_cong [OF d, of length] by simp
  have "fst (sh_done w ! 2) = map fst (sh_done w) ! 2" using len by simp
  then have "fst (sh_done w ! 2) = CallGet" using d by simp
  moreover have "map fst (take 2 (sh_done w)) = [CallRegister [fake_example_item], CallConsumeItems]"
    by (simp add: take_map [symmetric] d)
  ultimately have "snd (sh_done w ! 2) = Some (Inr (\<lambda>k. map_option Item_VolumeInfo
      (fold fake_expect [CallRegister [fake_example_item], CallConsumeItems] Map.empty k)))"
    using fake_source_interleavings [OF r] len by simp
  then show ?thesis using w d
    by (simp add: fake_example_item_def Consume_def consume_def wrap64_def Let_def Item_VolumeInfo_def)
qed

end
