(* ===== verification/Gate_Interleaving.thy ===== *)
theory Gate_Interleaving
  imports Gate_Lifecycle
begin

text \<open>
  Reconciliations that overlap. \<open>SetupWithManager\<close> lets five workers reconcile different claims at
  once, and between any two calls of a reconciliation other workers, the webhook and the rest of
  the cluster act. The work queue hands a claim to one worker at a time and keeps a claim that is
  added while it is being processed. A worker is verified against an arbitrary
  server under interference (locale \<open>contended_server\<close>): when it ends without
  asking to be repeated, no pod needs it any more, or the claim has been queued again, or it has become
  ready by a change that the watches need not report. On
  this rests the step relation \<open>race_step\<close> of the whole system, which a reconciliation under
  interference refines.
\<close>

section \<open>One reconciliation under interference\<close>

text \<open>
  What a worker on claim \<open>k\<close> sees of the world: the claim, the pods, and whether the worker is excused: the
  claim is queued again, or it has become releasable by a change that no watch need report.
  \<open>gated_users\<close>: the pods of the claim with a gate. \<open>releasable\<close>: the claim exists and does
  not hold its pods back. \<open>undisturbed\<close>: unless the worker is excused, no pod of the claim has
  got a gate and it has not become releasable.
\<close>

definition gated_users :: "pod set \<Rightarrow> key \<Rightarrow> key set" where
  "gated_users pods k = pod_key ` {pod \<in> pods. HasSchedulingGate pod SchedulingGateOfflineResize \<and>
     pod_namespace pod = fst k \<and> Some (snd k) \<in> set (pod_volumes pod)}"

definition releasable :: "'q pvc option \<Rightarrow> bool" where
  "releasable cl \<longleftrightarrow> (case cl of None \<Rightarrow> False | Some p \<Rightarrow> \<not> held p)"

record 'q view =
  vw_claim :: "'q pvc option"
  vw_pods :: "pod set"
  vw_excused :: bool

definition undisturbed :: "key \<Rightarrow> 'q view \<Rightarrow> 'q view \<Rightarrow> bool" where
  "undisturbed k v v' \<longleftrightarrow> (vw_excused v \<longrightarrow> vw_excused v') \<and>
     (\<not> vw_excused v' \<longrightarrow> gated_users (vw_pods v') k \<subseteq> gated_users (vw_pods v) k \<and>
        (releasable (vw_claim v') \<longrightarrow> releasable (vw_claim v)))"

definition settled :: "key \<Rightarrow> 'q view \<Rightarrow> bool" where
  "settled k v \<longleftrightarrow> vw_excused v \<or> \<not> releasable (vw_claim v) \<or> gated_users (vw_pods v) k = {}"

lemma undisturbed_refl: "undisturbed k v v"
  by (simp add: undisturbed_def)

lemma undisturbed_trans: "undisturbed k u v \<Longrightarrow> undisturbed k v w \<Longrightarrow> undisturbed k u w"
  unfolding undisturbed_def by blast

lemma undisturbed_settled:
  assumes "undisturbed k v v'" "settled k v"
  shows "settled k v'"
  using assms unfolding undisturbed_def settled_def by blast

definition keeps_view :: "('w \<Rightarrow> 'q view) \<Rightarrow> key \<Rightarrow> 'w \<Rightarrow> 'w \<Rightarrow> bool" where
  "keeps_view view k w w' \<longleftrightarrow> undisturbed k (view w) (view w')"

interpretation quiet: world_order "keeps_view view k"
  by unfold_locales (auto simp: keeps_view_def undisturbed_refl intro: undisturbed_trans)

text \<open>
  The server: each call may come after interference, but none disturbs the view; a read
  returns what is there when it returns, and a successful patch that takes the gate from a pod has taken it.
\<close>

locale contended_server =
  fixes c :: "('q, 'w) client" and view :: "'w \<Rightarrow> 'q view" and k :: key
  assumes quiet_PVCAs: "keeps_view view k w (snd (List_PVCAs c ns fs w))"
    and quiet_Patch: "\<not> HasSchedulingGate new SchedulingGateOfflineResize \<Longrightarrow> keeps_view view k w (snd (Patch_Pod c old new w))"
    and Get_claim: "Get_PVC c k w = (Inr p, w') \<Longrightarrow> vw_claim (view w') = Some p \<and> pvc_key p = k"
    and Get_none: "Get_PVC c k w = (Inl e, w') \<Longrightarrow> IsNotFound e \<Longrightarrow> vw_claim (view w') = None"
    and List_all: "List_Pods c n None w = (Inr ps, w') \<Longrightarrow> pod \<in> vw_pods (view w') \<Longrightarrow> pod_namespace pod = n \<Longrightarrow> pod \<in> set ps"
    and Patch_ungates: "Patch_Pod c old new w = (Inr pod, w') \<Longrightarrow> pod_key new = pod_key old \<Longrightarrow>
      \<not> HasSchedulingGate new SchedulingGateOfflineResize \<Longrightarrow> pod_key old \<notin> gated_users (vw_pods (view w')) k"
begin

lemma quiet_patch_pod:
  "moves (keeps_view view k) (patch_pod c old (RemoveSchedulingGate old SchedulingGateOfflineResize))"
  unfolding patch_pod_def by (intro quiet.moves quiet.moves_api quiet_Patch) (simp add: gates.has_remove)

text \<open>The loop that releases the listed pods leaves no gated one, unless the worker is excused.\<close>

lemma release_loop_settles:
  assumes "run_state (remove_gates_loop c p pods) s = (None, s')"
    and "vw_excused (view (world s)) \<or> gated_users (vw_pods (view (world s))) k \<subseteq>
      pod_key ` {pod \<in> set pods. HasSchedulingGate pod SchedulingGateOfflineResize}"
  shows "settled k (view (world s'))"
  using assms
proof (induction pods arbitrary: s)
  case Nil
  then show ?case by (auto simp: settled_def)
next
  case (Cons pod pods)
  show ?case
  proof (cases "HasSchedulingGate pod SchedulingGateOfflineResize")
    case False
    then have "{q \<in> set (pod # pods). HasSchedulingGate q SchedulingGateOfflineResize} =
        {q \<in> set pods. HasSchedulingGate q SchedulingGateOfflineResize}" by auto
    with Cons False show ?thesis by simp
  next
    case True
    let ?new = "RemoveSchedulingGate pod SchedulingGateOfflineResize"
    obtain r s1 where r: "run_state (patch_pod c pod ?new) s = (r, s1)" by fastforce
    have q: "undisturbed k (view (world s)) (view (world s1))"
      using movesD [OF quiet_patch_pod r] by (simp add: keeps_view_def)
    from Cons.prems(1) True r obtain pod' where pod': "r = Inr pod'"
      by (auto simp: run_bind State_Monad.run_state_return split: sum.splits)
    then obtain w where "Patch_Pod c pod ?new (world s) = (Inr pod', w)" "world s1 = w"
      using r by (auto simp: patch_pod_def run_bind run_emit run_api split: prod.splits)
    then have "pod_key pod \<notin> gated_users (vw_pods (view (world s1))) k"
      using Patch_ungates [of pod ?new "world s" pod' w] by (simp add: gates.has_remove)
    then have "vw_excused (view (world s1)) \<or> gated_users (vw_pods (view (world s1))) k \<subseteq>
        pod_key ` {q \<in> set pods. HasSchedulingGate q SchedulingGateOfflineResize}"
      using Cons.prems(2) q True unfolding undisturbed_def by auto
    moreover obtain e where "run_state (remove_gates_loop c p pods) (s1\<lparr>effects := effects s1 @ [e]\<rparr>) = (None, s')"
      using Cons.prems(1) True r pod' by (simp add: run_bind run_emit)
    ultimately show ?thesis using Cons.IH [of "s1\<lparr>effects := effects s1 @ [e]\<rparr>"] by simp
  qed
qed

text \<open>A worker that does not ask to be repeated has settled its claim.\<close>

lemma releases_settle:
  assumes "run_state (removeSchedulingGates c p) s = (None, s')" "pvc_key p = k"
  shows "settled k (view (world s'))"
proof -
  obtain r w where l: "List_Pods c (pvc_namespace p) None (world s) = (r, w)" by fastforce
  with assms(1) obtain ps where ps: "r = Inr ps"
    and run: "run_state (remove_gates_loop c p (filter (pod_uses p) ps)) (s\<lparr>world := w\<rparr>) = (None, s')"
    by (auto simp: removeSchedulingGates_def run_bind run_podsUsingPVC State_Monad.run_state_return split: sum.splits)
  have "gated_users (vw_pods (view w)) k \<subseteq> pod_key ` {pod \<in> set (filter (pod_uses p) ps). HasSchedulingGate pod SchedulingGateOfflineResize}"
    using List_all [OF l [unfolded ps]] assms(2)
    by (auto simp: gated_users_def pod_uses_def list_ex_iff pvc_key_def)
  then show ?thesis using release_loop_settles [OF run] by simp
qed

lemma reconcile_settles:
  assumes "run_state (Reconcile quote r k) s = (res, s')" "rc_client r = c" "fst res \<le> 0" "snd res = None"
  shows "settled k (view (world s'))"
proof -
  obtain g w where g: "Get_PVC c k (world s) = (g, w)" by fastforce
  show ?thesis
  proof (cases g)
    case (Inl e)
    with assms g have "IsNotFound e" "world s' = w"
      by (auto simp: Reconcile_def run_bind run_api State_Monad.run_state_return split: if_splits)
    then show ?thesis using Get_none [OF g [unfolded Inl]] by (simp add: settled_def releasable_def)
  next
    case (Inr p)
    note claim = Get_claim [OF g [unfolded Inr]]
    show ?thesis
    proof (cases "held p")
      case False
      have "run_state (removeSchedulingGates c p) (s\<lparr>world := w\<rparr>) = (None, s')"
        using Reconcile_release [of r k s p w quote] g Inr assms False by (auto split: prod.splits)
      then show ?thesis using releases_settle claim by simp
    next
      case True
      then have "settled k (view w)" using claim by (simp add: settled_def releasable_def)
      moreover have "keeps_view view k w (world s')"
      proof -
        obtain l w' where l: "List_PVCAs c (Some (pvc_namespace p)) (owner_fields (pvc_name p) (rc_autoscalerName r)) w = (l, w')"
          by fastforce
        have "\<not> (\<exists>pvcas. l = Inr pvcas \<and> offline_enabled quote (pvc_name p) pvcas \<and> IsOfflineResizeRequired p)"
          using Reconcile_evict [of r k s p w _ w' quote] g Inr True l assms
          by (auto simp: requeueDurationOnControllerResizeError_def split: prod.splits)
        from Reconcile_idle [of r k s p w l w' quote, OF _ True _ this] g Inr l assms(1,2)
        have "world s' = w'" by auto
        then show ?thesis using quiet_PVCAs [of w] l by (metis snd_conv)
      qed
      ultimately show ?thesis using undisturbed_settled by (simp add: keeps_view_def)
    qed
  qed
qed

end

section \<open>The system\<close>

text \<open>
  The cluster, the work queue, the claims that workers are busy with, and, for the statement only, the
  claims \<open>rs_unseen\<close> that were created or updated to be releasable other than with the annotation of the
  runner and a pending filesystem resize, and have not been taken by a worker since. The events: claims and autoscalers are created,
  updated in any way and deleted, with the requests that the watches make; a pod is created, as admitted by
  a webhook call that may have read the cluster at any other time, or deleted; a worker removes a gate
  (a merge patch replaces the list of gates) or evicts a pod; a worker takes a claim that no other
  is busy with, or ends and, unless it asks to be repeated, has settled its claim. Nobody but the webhook
  adds the gate to a pod.
\<close>

record 'q race_state =
  rs_cluster :: "'q cluster"
  rs_queue :: "key set"
  rs_busy :: "key set"
  rs_unseen :: "key set"

datatype 'q race_event =
    CreatePod pod "'q cluster"
  | DeletePod key
  | SetGates key "string list"
  | CreateClaim "'q pvc"
  | UpdateClaim "'q pvc"
  | DeleteClaim key
  | CreatePVCA "'q pvca"
  | UpdatePVCA "'q pvca"
  | DeletePVCA key
  | Take key
  | Finish key bool

definition race_view :: "key \<Rightarrow> 'q race_state \<Rightarrow> 'q view" where
  "race_view k x = \<lparr>vw_claim = claim_of (rs_cluster x) k, vw_pods = set (cl_pods (rs_cluster x)), vw_excused = k \<in> rs_queue x \<union> rs_unseen x\<rparr>"

text \<open>The pod that the webhook lets in.\<close>

definition admitted :: "(string \<Rightarrow> string) \<Rightarrow> string \<Rightarrow> 'q cluster \<Rightarrow> pod \<Rightarrow> pod" where
  "admitted quote name w pod =
     (case fst (run_state (Handle quote id Inr (NewMutator memory_client Inr name) pod) (start_state w)) of
        PatchResponseFromRaw _ pod' \<Rightarrow> pod' | Errored _ _ \<Rightarrow> pod)"

fun race_enabled :: "'q race_event \<Rightarrow> 'q race_state \<Rightarrow> bool" where
  "race_enabled (CreatePod pod w) x \<longleftrightarrow> pod_key pod \<notin> pod_key ` set (cl_pods (rs_cluster x)) \<and>
     \<not> HasSchedulingGate pod SchedulingGateOfflineResize"
| "race_enabled (SetGates k gs) x \<longleftrightarrow> SchedulingGateOfflineResize \<notin> set gs"
| "race_enabled (CreateClaim p) x \<longleftrightarrow> claim_of (rs_cluster x) (pvc_key p) = None"
| "race_enabled (UpdateClaim p) x \<longleftrightarrow> claim_of (rs_cluster x) (pvc_key p) \<noteq> None"
| "race_enabled (CreatePVCA a) x \<longleftrightarrow> pvca_key a \<notin> pvca_key ` set (cl_pvcas (rs_cluster x))"
| "race_enabled (UpdatePVCA a) x \<longleftrightarrow> pvca_key a \<in> pvca_key ` set (cl_pvcas (rs_cluster x))"
| "race_enabled (Take k) x \<longleftrightarrow> k \<in> rs_queue x \<and> k \<notin> rs_busy x"
| "race_enabled (Finish k again) x \<longleftrightarrow> k \<in> rs_busy x \<and> (again \<or> settled k (race_view k x))"
| "race_enabled _ x \<longleftrightarrow> True"

definition requested :: "('q VolumePolicy list \<Rightarrow> 'q VolumePolicy list \<Rightarrow> bool) \<Rightarrow> 'q event \<Rightarrow> 'q race_state \<Rightarrow> 'q race_state" where
  "requested deepEqual e x = x\<lparr>rs_queue := rs_queue x \<union> set (SetupWithManager deepEqual e)\<rparr>"

text \<open>
  The claim \<open>k\<close> has become releasable from \<open>x\<close> to \<open>y\<close>, but not as the watch on claims expects it: with the
  annotation of a resize by the runner and a pending filesystem resize.
\<close>

definition note_unseen :: "key \<Rightarrow> 'q race_state \<Rightarrow> 'q race_state \<Rightarrow> 'q race_state" where
  "note_unseen k x y =
     (case claim_of (rs_cluster y) k of
        None \<Rightarrow> y
      | Some p \<Rightarrow>
          if \<not> held p \<and> \<not> releasable (claim_of (rs_cluster x) k) \<and>
            \<not> (annotated p \<and> IsPersistentVolumeClaimConditionTrue p PVCFileSystemResizePending)
          then y\<lparr>rs_unseen := insert k (rs_unseen y)\<rparr> else y)"

definition set_gates :: "key \<Rightarrow> string list \<Rightarrow> pod \<Rightarrow> pod" where
  "set_gates k gs q = (if pod_key q = k then q\<lparr>pod_schedulingGates := gs\<rparr> else q)"

fun race_apply ::
  "(string \<Rightarrow> string) \<Rightarrow> ('q VolumePolicy list \<Rightarrow> 'q VolumePolicy list \<Rightarrow> bool) \<Rightarrow> string \<Rightarrow> 'q race_event \<Rightarrow>
    'q race_state \<Rightarrow> 'q race_state" where
  "race_apply quote deepEqual name (CreatePod pod w) x =
     requested deepEqual (CreateEvent (PodObject (admitted quote name w pod)))
       (x\<lparr>rs_cluster := (rs_cluster x)\<lparr>cl_pods := cl_pods (rs_cluster x) @ [admitted quote name w pod]\<rparr>\<rparr>)"
| "race_apply quote deepEqual name (DeletePod k) x =
     x\<lparr>rs_cluster := (rs_cluster x)\<lparr>cl_pods := filter (\<lambda>q. pod_key q \<noteq> k) (cl_pods (rs_cluster x))\<rparr>\<rparr>"
| "race_apply quote deepEqual name (SetGates k gs) x =
     x\<lparr>rs_cluster := (rs_cluster x)\<lparr>cl_pods := map (set_gates k gs) (cl_pods (rs_cluster x))\<rparr>\<rparr>"
| "race_apply quote deepEqual name (CreateClaim p) x =
     note_unseen (pvc_key p) x (requested deepEqual (CreateEvent (PVCObject p))
       (x\<lparr>rs_cluster := (rs_cluster x)\<lparr>cl_pvcs := cl_pvcs (rs_cluster x) @ [p]\<rparr>\<rparr>))"
| "race_apply quote deepEqual name (UpdateClaim p') x =
     (case claim_of (rs_cluster x) (pvc_key p') of
        None \<Rightarrow> x
      | Some p \<Rightarrow> note_unseen (pvc_key p') x (requested deepEqual (UpdateEvent (PVCObject p) (PVCObject p'))
          (x\<lparr>rs_cluster := (rs_cluster x)\<lparr>cl_pvcs := replace pvc_key p' (cl_pvcs (rs_cluster x))\<rparr>\<rparr>)))"
| "race_apply quote deepEqual name (DeleteClaim k) x =
     (case claim_of (rs_cluster x) k of
        None \<Rightarrow> x
      | Some p \<Rightarrow> requested deepEqual (DeleteEvent (PVCObject p))
          (x\<lparr>rs_cluster := (rs_cluster x)\<lparr>cl_pvcs := filter (\<lambda>p. pvc_key p \<noteq> k) (cl_pvcs (rs_cluster x))\<rparr>\<rparr>))"
| "race_apply quote deepEqual name (CreatePVCA a) x =
     requested deepEqual (CreateEvent (PVCAObject a))
       (x\<lparr>rs_cluster := (rs_cluster x)\<lparr>cl_pvcas := cl_pvcas (rs_cluster x) @ [a]\<rparr>\<rparr>)"
| "race_apply quote deepEqual name (UpdatePVCA a') x =
     (case find (\<lambda>a. pvca_key a = pvca_key a') (cl_pvcas (rs_cluster x)) of
        None \<Rightarrow> x
      | Some a \<Rightarrow> requested deepEqual (UpdateEvent (PVCAObject a) (PVCAObject a'))
          (x\<lparr>rs_cluster := (rs_cluster x)\<lparr>cl_pvcas := replace pvca_key a' (cl_pvcas (rs_cluster x))\<rparr>\<rparr>))"
| "race_apply quote deepEqual name (DeletePVCA k) x =
     (case find (\<lambda>a. pvca_key a = k) (cl_pvcas (rs_cluster x)) of
        None \<Rightarrow> x
      | Some a \<Rightarrow> requested deepEqual (DeleteEvent (PVCAObject a))
          (x\<lparr>rs_cluster := (rs_cluster x)\<lparr>cl_pvcas := filter (\<lambda>a. pvca_key a \<noteq> k) (cl_pvcas (rs_cluster x))\<rparr>\<rparr>))"
| "race_apply quote deepEqual name (Take k) x =
     x\<lparr>rs_queue := rs_queue x - {k}, rs_busy := insert k (rs_busy x), rs_unseen := rs_unseen x - {k}\<rparr>"
| "race_apply quote deepEqual name (Finish k again) x =
     x\<lparr>rs_queue := (if again then insert k (rs_queue x) else rs_queue x), rs_busy := rs_busy x - {k}\<rparr>"

inductive race_step ::
  "(string \<Rightarrow> string) \<Rightarrow> ('q VolumePolicy list \<Rightarrow> 'q VolumePolicy list \<Rightarrow> bool) \<Rightarrow> string \<Rightarrow>
    'q race_state \<Rightarrow> 'q race_state \<Rightarrow> bool"
  for quote deepEqual name
where
  "race_enabled e x \<Longrightarrow> race_step quote deepEqual name x (race_apply quote deepEqual name e x)"

inductive_cases race_stepE: "race_step quote deepEqual name x y"

text \<open>
  The invariant: a gated pod has a claim that is missing, holds it back, is queued, is being processed or
  has become releasable unseen.
\<close>

definition race_remembered :: "'q race_state \<Rightarrow> pod \<Rightarrow> bool" where
  "race_remembered x pod \<longleftrightarrow> (\<exists>n. Some n \<in> set (pod_volumes pod) \<and>
     (\<not> releasable (claim_of (rs_cluster x) (pod_namespace pod, n)) \<or>
      (pod_namespace pod, n) \<in> rs_queue x \<union> rs_busy x \<union> rs_unseen x))"

definition race_inv :: "'q race_state \<Rightarrow> bool" where
  "race_inv x \<longleftrightarrow> (\<forall>pod \<in> set (cl_pods (rs_cluster x)).
     HasSchedulingGate pod SchedulingGateOfflineResize \<longrightarrow> race_remembered x pod)"

lemma admitted_pod:
  assumes "\<not> HasSchedulingGate pod SchedulingGateOfflineResize"
  shows "pod_key (admitted quote name w pod) = pod_key pod"
    and "HasSchedulingGate (admitted quote name w pod) SchedulingGateOfflineResize \<Longrightarrow>
      \<exists>n. Some n \<in> set (pod_volumes (admitted quote name w pod))"
proof -
  have "fst (run_state (Handle quote id Inr (NewMutator memory_client Inr name) pod) (start_state w)) =
      PatchResponseFromRaw pod (admitted quote name w pod)"
    by (simp add: admitted_def memory_webhook)
  from created_pod [OF this assms]
  show "pod_key (admitted quote name w pod) = pod_key pod"
    and "HasSchedulingGate (admitted quote name w pod) SchedulingGateOfflineResize \<Longrightarrow>
      \<exists>n. Some n \<in> set (pod_volumes (admitted quote name w pod))"
    by auto
qed

lemma created_requests:
  "set (SetupWithManager deepEqual (CreateEvent (PodObject pod))) =
     (if HasSchedulingGate pod SchedulingGateOfflineResize
      then {(pod_namespace pod, n) | n. Some n \<in> set (pod_volumes pod)} else {})"
  using requests_of_events by blast

lemma pending_requests:
  assumes "annotated p'" "IsPersistentVolumeClaimConditionTrue p' PVCFileSystemResizePending"
  shows "pvc_key p' \<in> set (SetupWithManager deepEqual (UpdateEvent (PVCObject p) (PVCObject p')))"
proof -
  have "set (SetupWithManager deepEqual (UpdateEvent (PVCObject p) (PVCObject p'))) = {pvc_key p, pvc_key p'}"
    using requests_of_events [of deepEqual p p'] assms by simp
  then show ?thesis by simp
qed

lemma created_claim_requests:
  assumes "annotated p" "IsPersistentVolumeClaimConditionTrue p PVCFileSystemResizePending"
  shows "pvc_key p \<in> set (SetupWithManager deepEqual (CreateEvent (PVCObject p)))"
  using assms by (simp add: SetupWithManager_def PVC_filter_iff)

lemma HasSchedulingGate_set [simp]:
  "HasSchedulingGate (q\<lparr>pod_schedulingGates := gs\<rparr>) g \<longleftrightarrow> g \<in> set gs"
  by (auto simp: HasSchedulingGate_def list_ex_iff)

text \<open>No event of another actor disturbs the view of the worker that is busy with \<open>k\<close>.\<close>

fun touches :: "key \<Rightarrow> 'q race_event \<Rightarrow> bool" where
  "touches k (Take l) \<longleftrightarrow> l = k"
| "touches k (Finish l again) \<longleftrightarrow> l = k"
| "touches k _ \<longleftrightarrow> False"

lemma gated_users_ungate:
  assumes "SchedulingGateOfflineResize \<notin> set gs"
  shows "gated_users (set_gates l gs ` pods) k = gated_users pods k - {l}"
  using assms by (auto simp: gated_users_def set_gates_def image_iff split: if_splits)

lemma claim_of_pods [simp]: "claim_of (w\<lparr>cl_pods := ps\<rparr>) k = claim_of w k" "claim_of (w\<lparr>cl_pvcas := as\<rparr>) k = claim_of w k"
  by (simp_all add: claim_of_def)

lemma claim_of_create:
  assumes "claim_of w (pvc_key p) = None"
  shows "claim_of (w\<lparr>cl_pvcs := cl_pvcs w @ [p]\<rparr>) k = (if k = pvc_key p then Some p else claim_of w k)"
proof -
  have "find (\<lambda>q. pvc_key q = k) (ps @ [p]) =
      (case find (\<lambda>q. pvc_key q = k) ps of Some q \<Rightarrow> Some q | None \<Rightarrow> if k = pvc_key p then Some p else None)" for ps
    by (induction ps) auto
  with assms show ?thesis by (auto simp: claim_of_def split: option.split)
qed

lemma requested_sel [simp]:
  "rs_cluster (requested deepEqual e x) = rs_cluster x" "rs_busy (requested deepEqual e x) = rs_busy x"
  "rs_unseen (requested deepEqual e x) = rs_unseen x"
  "rs_queue (requested deepEqual e x) = rs_queue x \<union> set (SetupWithManager deepEqual e)"
  by (simp_all add: requested_def)

lemma note_unseen_sel [simp]:
  "rs_cluster (note_unseen k x y) = rs_cluster y" "rs_busy (note_unseen k x y) = rs_busy y" "rs_queue (note_unseen k x y) = rs_queue y"
  by (simp_all add: note_unseen_def split: option.split)

text \<open>A change of one claim with its requests: when the claim becomes releasable, it is queued or recorded.\<close>

lemma note_unseen_undisturbed:
  assumes "cl_pods (rs_cluster y) = cl_pods (rs_cluster x)" "rs_queue x \<subseteq> rs_queue y" "rs_unseen x \<subseteq> rs_unseen y"
    and "\<And>l. l \<noteq> j \<Longrightarrow> claim_of (rs_cluster y) l = claim_of (rs_cluster x) l"
    and "\<And>p. claim_of (rs_cluster y) j = Some p \<Longrightarrow> annotated p \<Longrightarrow>
      IsPersistentVolumeClaimConditionTrue p PVCFileSystemResizePending \<Longrightarrow> j \<in> rs_queue y"
  shows "undisturbed k (race_view k x) (race_view k (note_unseen j x y))"
proof (cases "k = j")
  case True
  then show ?thesis using assms(1-3,5)
    by (auto simp: undisturbed_def race_view_def note_unseen_def releasable_def split: option.splits)
next
  case False
  then show ?thesis using assms(1-3) assms(4) [of k]
    by (auto simp: undisturbed_def race_view_def note_unseen_def split: option.splits)
qed

lemma event_undisturbed:
  assumes "race_enabled e x" "\<not> touches k e"
  shows "undisturbed k (race_view k x) (race_view k (race_apply quote deepEqual name e x))"
proof (cases e)
  case (CreatePod pod w)
  then show ?thesis using assms
    by (auto simp: undisturbed_def race_view_def requested_def created_requests gated_users_def)
next
  case (DeletePod l)
  then show ?thesis by (auto simp: undisturbed_def race_view_def gated_users_def)
next
  case (SetGates l gs)
  then show ?thesis using assms by (auto simp: undisturbed_def race_view_def gated_users_ungate)
next
  case (CreateClaim p)
  then show ?thesis using assms(1) created_claim_requests [of p deepEqual]
    by (auto simp: claim_of_create intro!: note_unseen_undisturbed)
next
  case (UpdateClaim p)
  then show ?thesis using assms(1) pending_requests [of p deepEqual]
    by (auto simp: claim_of_update intro!: note_unseen_undisturbed)
next
  case (DeleteClaim l)
  then show ?thesis
    by (auto simp: undisturbed_def race_view_def releasable_def claim_of_delete split: if_splits option.split)
next
  case (CreatePVCA a)
  then show ?thesis by (auto simp: undisturbed_def race_view_def)
next
  case (UpdatePVCA a)
  then show ?thesis by (auto simp: undisturbed_def race_view_def split: option.split)
next
  case (DeletePVCA l)
  then show ?thesis by (auto simp: undisturbed_def race_view_def split: option.split)
qed (use assms in \<open>auto simp: undisturbed_def race_view_def\<close>)

lemma busy_event: "k \<in> rs_busy x \<Longrightarrow> \<not> touches k e \<Longrightarrow> k \<in> rs_busy (race_apply quote deepEqual name e x)"
  by (cases e) (auto simp: requested_def split: option.split)

lemma remembered_event:
  assumes "race_enabled e x" "race_remembered x pod" "pod \<in> set (cl_pods (rs_cluster x))"
    and "HasSchedulingGate pod SchedulingGateOfflineResize"
  shows "race_remembered (race_apply quote deepEqual name e x) pod"
proof -
  let ?y = "race_apply quote deepEqual name e x"
  obtain n where n: "Some n \<in> set (pod_volumes pod)"
      "\<not> releasable (claim_of (rs_cluster x) (pod_namespace pod, n)) \<or> (pod_namespace pod, n) \<in> rs_queue x \<union> rs_busy x \<union> rs_unseen x"
    using assms(2) by (auto simp: race_remembered_def)
  let ?k = "(pod_namespace pod, n)"
  have "\<not> releasable (claim_of (rs_cluster ?y) ?k) \<or> ?k \<in> rs_queue ?y \<union> rs_busy ?y \<union> rs_unseen ?y"
  proof (cases "touches ?k e")
    case True
    then show ?thesis
    proof (cases e)
      case (Finish l again)
      have "pod_key pod \<in> gated_users (set (cl_pods (rs_cluster x))) ?k"
        using assms(3,4) n(1) by (auto simp: gated_users_def)
      with Finish True assms(1) show ?thesis by (auto simp: settled_def race_view_def)
    qed (use True in auto)
  next
    case False
    then have "?k \<in> rs_busy ?y" if "?k \<in> rs_busy x"
      using that False by (simp add: busy_event)
    with event_undisturbed [OF assms(1) False, of quote deepEqual name] n(2) show ?thesis
      by (auto simp: undisturbed_def race_view_def)
  qed
  then show ?thesis using n(1) by (auto simp: race_remembered_def)
qed

lemma pods_after:
  assumes "race_enabled e x" "pod \<in> set (cl_pods (rs_cluster (race_apply quote deepEqual name e x)))"
    and "HasSchedulingGate pod SchedulingGateOfflineResize"
  shows "pod \<in> set (cl_pods (rs_cluster x)) \<or> (\<exists>q w. e = CreatePod q w \<and> pod = admitted quote name w q)"
proof (cases e)
  case (SetGates l gs)
  then show ?thesis using assms by (auto simp: set_gates_def split: if_splits)
qed (use assms(2) in \<open>auto simp: requested_def split: option.splits\<close>)

lemma race_inv_event:
  assumes "race_enabled e x" "race_inv x"
  shows "race_inv (race_apply quote deepEqual name e x)"
  unfolding race_inv_def
proof (intro ballI impI)
  fix pod
  assume pod: "pod \<in> set (cl_pods (rs_cluster (race_apply quote deepEqual name e x)))"
    "HasSchedulingGate pod SchedulingGateOfflineResize"
  from pods_after [OF assms(1) pod]
  show "race_remembered (race_apply quote deepEqual name e x) pod"
  proof (elim disjE exE conjE)
    assume "pod \<in> set (cl_pods (rs_cluster x))"
    then show ?thesis using remembered_event [OF assms(1)] assms(2) pod(2) by (simp add: race_inv_def)
  next
    fix q w assume q: "e = CreatePod q w" "pod = admitted quote name w q"
    then obtain n where "Some n \<in> set (pod_volumes pod)"
      using admitted_pod(2) [of q quote name w] assms(1) pod(2) by auto
    then show ?thesis using q pod(2) by (auto simp: race_remembered_def requested_def created_requests)
  qed
qed

lemma race_inv_reachable:
  assumes "(race_step quote deepEqual name)\<^sup>*\<^sup>* x y" "race_inv x"
  shows "race_inv y"
  using assms by (induction rule: rtranclp_induct) (auto elim!: race_stepE intro: race_inv_event)

section \<open>The code refines the system\<close>

text \<open>
  A server for the worker on claim \<open>k\<close> of this system. Before each call other actors make the
  moves that a schedule lists, those that are possible and are not about the worker itself; then the
  schedule may make the call fail (a refused eviction, a conflict, a lost connection), but
  not with a wrong \<^verbatim>\<open>NotFound\<close>; else the call acts on the cluster as it is then. Calls the
  reconciler does not make fail.
\<close>

record 'q race_world =
  rw_state :: "'q race_state"
  rw_moves :: "('q race_event list \<times> go_error option) list"

record 'q race_params =
  rp_quote :: "string \<Rightarrow> string"
  rp_deepEqual :: "'q VolumePolicy list \<Rightarrow> 'q VolumePolicy list \<Rightarrow> bool"
  rp_name :: string

definition race_try :: "'q race_params \<Rightarrow> key \<Rightarrow> 'q race_event \<Rightarrow> 'q race_state \<Rightarrow> 'q race_state" where
  "race_try P k e x =
     (if race_enabled e x \<and> \<not> touches k e then race_apply (rp_quote P) (rp_deepEqual P) (rp_name P) e x else x)"

definition interfere :: "'q race_params \<Rightarrow> key \<Rightarrow> 'q race_world \<Rightarrow> go_error option \<times> 'q race_world" where
  "interfere P k w =
     (case rw_moves w of
        [] \<Rightarrow> (None, w)
      | (es, fault) # rest \<Rightarrow>
          (case fault of Some err \<Rightarrow> if IsNotFound err then None else Some err | None \<Rightarrow> None,
           \<lparr>rw_state = fold (race_try P k) es (rw_state w), rw_moves = rest\<rparr>))"

definition contended :: "'q race_params \<Rightarrow> key \<Rightarrow> (go_error \<Rightarrow> 'a) \<Rightarrow> ('q race_world \<Rightarrow> 'a \<times> 'q race_world) \<Rightarrow>
    'q race_world \<Rightarrow> 'a \<times> 'q race_world" where
  "contended P k failed f w =
     (case interfere P k w of (Some err, w1) \<Rightarrow> (failed err, w1) | (None, w1) \<Rightarrow> f w1)"

definition race_move :: "'q race_params \<Rightarrow> 'q race_event \<Rightarrow> 'q race_world \<Rightarrow> 'q race_world" where
  "race_move P e w = w\<lparr>rw_state := race_apply (rp_quote P) (rp_deepEqual P) (rp_name P) e (rw_state w)\<rparr>"

definition racing_client :: "'q race_params \<Rightarrow> key \<Rightarrow> ('q, 'q race_world) client" where
  "racing_client P k = \<lparr>
     Get_PVC = (\<lambda>l. contended P k Inl (\<lambda>w. (fst (Get_PVC memory_client l (rs_cluster (rw_state w))), w))),
     Get_StorageClass = (\<lambda>n. contended P k Inl (\<lambda>w. (Inl not_found, w))),
     List_PVCAs = (\<lambda>ns fs. contended P k Inl (\<lambda>w. (fst (List_PVCAs memory_client ns fs (rs_cluster (rw_state w))), w))),
     List_Pods = (\<lambda>ns sel. contended P k Inl (\<lambda>w. (fst (List_Pods memory_client ns sel (rs_cluster (rw_state w))), w))),
     Patch_PVC = (\<lambda>lock old new. contended P k Inl (\<lambda>w. (Inl not_found, w))),
     Patch_PVCAStatus = (\<lambda>old new. contended P k Some (\<lambda>w. (Some not_found, w))),
     Patch_Pod = (\<lambda>old new. contended P k Inl (\<lambda>w.
       case find (\<lambda>q. pod_key q = pod_key new) (cl_pods (rs_cluster (rw_state w))) of
         None \<Rightarrow> (Inl not_found, w)
       | Some q \<Rightarrow> if HasSchedulingGate new SchedulingGateOfflineResize then (Inr q, w)
           else (Inr (q\<lparr>pod_schedulingGates := pod_schedulingGates new\<rparr>),
                 race_move P (SetGates (pod_key new) (pod_schedulingGates new)) w))),
     Create_Eviction = (\<lambda>p. contended P k Some (\<lambda>w.
       if list_ex (\<lambda>q. pod_key q = pod_key p) (cl_pods (rs_cluster (rw_state w)))
       then (None, race_move P (DeletePod (pod_key p)) w) else (Some not_found, w))),
     Now = (\<lambda>w. cl_clock (rs_cluster (rw_state w)))\<rparr>"

abbreviation system_steps :: "'q race_params \<Rightarrow> 'q race_state \<Rightarrow> 'q race_state \<Rightarrow> bool" where
  "system_steps P \<equiv> (race_step (rp_quote P) (rp_deepEqual P) (rp_name P))\<^sup>*\<^sup>*"

text \<open>Interference and calls are steps of the system, and do not disturb the worker.\<close>

definition race_keeps :: "'q race_params \<Rightarrow> key \<Rightarrow> 'q race_world \<Rightarrow> 'q race_world \<Rightarrow> bool" where
  "race_keeps P k w w' \<longleftrightarrow> system_steps P (rw_state w) (rw_state w') \<and>
     undisturbed k (race_view k (rw_state w)) (race_view k (rw_state w')) \<and>
     (k \<in> rs_busy (rw_state w) \<longrightarrow> k \<in> rs_busy (rw_state w'))"

interpretation races: world_order "race_keeps P k"
  by unfold_locales (auto simp: race_keeps_def undisturbed_refl intro: undisturbed_trans)

lemma race_keeps_event:
  assumes "race_enabled e (rw_state w)" "\<not> touches k e"
  shows "race_keeps P k w (race_move P e w)"
  using event_undisturbed [OF assms] busy_event [of k _ e, OF _ assms(2)] race_step.intros [OF assms(1)]
  by (auto simp: race_keeps_def race_move_def)

lemma interfere_keeps: "race_keeps P k w (snd (interfere P k w))"
proof -
  have "race_keeps P k w (w\<lparr>rw_state := fold (race_try P k) es (rw_state w), rw_moves := rest\<rparr>)" for es rest and w :: "'a race_world"
  proof (induction es arbitrary: w)
    case (Cons e es)
    show ?case
    proof (cases "race_enabled e (rw_state w) \<and> \<not> touches k e")
      case True
      then have "race_keeps P k w (race_move P e w)" using race_keeps_event by blast
      from races.trans [OF this Cons.IH [of "race_move P e w"]] True show ?thesis
        by (simp add: race_try_def race_move_def)
    qed (use Cons.IH [of w] in \<open>auto simp: race_try_def\<close>)
  qed (simp add: race_keeps_def undisturbed_refl)
  from this [of w] show ?thesis
    by (cases w) (auto simp: interfere_def races.refl split: list.split prod.split)
qed

lemma contended_keeps:
  assumes "\<And>w. race_keeps P k w (snd (f w))"
  shows "race_keeps P k w (snd (contended P k failed f w))"
  using interfere_keeps [of P k w] assms
  by (auto simp: contended_def split: prod.split option.split intro: races.trans)

lemma racing_keeps:
  "race_keeps P k w (snd (Get_PVC (racing_client P k) l w))"
  "race_keeps P k w (snd (List_PVCAs (racing_client P k) ns fs w))"
  "race_keeps P k w (snd (List_Pods (racing_client P k) n sel w))"
  "race_keeps P k w (snd (Patch_Pod (racing_client P k) old new w))"
  "race_keeps P k w (snd (Create_Eviction (racing_client P k) pod w))"
  unfolding racing_client_def client.simps
  by (rule contended_keeps; auto simp: races.refl HasSchedulingGate_def list_ex_iff split: option.split intro!: race_keeps_event)+

lemma contended_Inr: "contended P k Inl f w = (Inr r, w') \<Longrightarrow> \<exists>w1. f w1 = (Inr r, w')"
  by (auto simp: contended_def split: prod.splits option.splits)

interpretation worker: contended_server "racing_client P k" "\<lambda>w. race_view k (rw_state w)" k
proof unfold_locales
  let ?v = "\<lambda>w :: 'a race_world. race_view k (rw_state w)"
  have q: "race_keeps P k w w' \<Longrightarrow> keeps_view ?v k w w'" for w w'
    by (simp add: race_keeps_def keeps_view_def)
  show "keeps_view ?v k w (snd (List_PVCAs (racing_client P k) ns fs w))" for ns fs w
    by (rule q) (rule racing_keeps)
  show "keeps_view ?v k w (snd (Patch_Pod (racing_client P k) old new w))" for old new w
    by (rule q) (rule racing_keeps)
  show "vw_claim (?v w') = Some p \<and> pvc_key p = k" if "Get_PVC (racing_client P k) k w = (Inr p, w')" for w p w'
    using that
    by (auto simp: racing_client_def race_view_def claim_of_def find_Some_iff dest!: contended_Inr split: option.splits)
  show "vw_claim (?v w') = None" if "Get_PVC (racing_client P k) k w = (Inl e, w')" "IsNotFound e" for w e w'
    using that
    by (auto simp: racing_client_def race_view_def contended_def interfere_def claim_of_def
        split: option.splits prod.splits list.splits if_splits)
  show "pod \<in> set ps" if "List_Pods (racing_client P k) n None w = (Inr ps, w')"
      "pod \<in> vw_pods (?v w')" "pod_namespace pod = n" for n w ps w' pod
    using that by (auto simp: racing_client_def race_view_def dest!: contended_Inr)
  show "pod_key old \<notin> gated_users (vw_pods (?v w')) k"
    if "Patch_Pod (racing_client P k) old new w = (Inr pod, w')" "pod_key new = pod_key old"
      "\<not> HasSchedulingGate new SchedulingGateOfflineResize" for old new w pod w'
  proof -
    from that obtain w1 where "w' = race_move P (SetGates (pod_key old) (pod_schedulingGates new)) w1"
      by (auto simp: racing_client_def dest!: contended_Inr split: option.splits)
    moreover have "SchedulingGateOfflineResize \<notin> set (pod_schedulingGates new)"
      using that(3) by (auto simp: HasSchedulingGate_def list_ex_iff)
    ultimately show ?thesis by (simp add: race_view_def race_move_def gated_users_ungate)
  qed
qed

text \<open>A whole reconciliation consists of steps of the system.\<close>

lemma steps_Reconcile:
  "moves (race_keeps P k) (Reconcile quote \<lparr>rc_client = racing_client P k, rc_autoscalerName = n\<rparr> k)"
  unfolding Reconcile_def removeSchedulingGates_def evictPodsUsingPVC_def podsUsingPVC_def FindOwningPVCAAndPolicy_def
    reconciler.simps
  by (intro races.moves races.moves_api races.moves_evict_loop races.moves_gates_loop racing_keeps)

text \<open>
  C5: When reconciliations overlap, no gate is forgotten unless its claim stopped holding its pods
  back without the pending filesystem resize that the watch on claims reports. Let the system run from a cluster without gated pods, with any
  interleaving of workers, of webhook calls that read the cluster at another time, and of
  creations, arbitrary updates and deletions of claims and autoscalers, creations and deletions of
  pods; only the webhook adds the gate to a pod. A reconciliation of a queued claim, with any moves of
  the other actors and failures (but no wrong \<^verbatim>\<open>NotFound\<close>) between its calls, is a sequence of steps
  of the system, and when it has ended every gated pod has a claim that is missing, holds the pod
  back, is queued, is being processed by another worker, or was made releasable (by its creation or an
  update) other than with the annotation of the runner and a pending filesystem resize, and has not been
  taken by a worker since. That the last case is needed, since it can strand a pod, is
  \<open>gate_stranded\<close> in \<^verbatim>\<open>Gate_Lifecycle\<close>.
\<close>

theorem gates_under_interference:
  assumes "\<forall>pod \<in> set (cl_pods (rs_cluster x0)). \<not> HasSchedulingGate pod SchedulingGateOfflineResize"
    and "system_steps P x0 x" "k \<in> rs_queue x" "k \<notin> rs_busy x"
    and "run_state (Reconcile (rp_quote P) \<lparr>rc_client = racing_client P k, rc_autoscalerName = rp_name P\<rparr> k)
      (start_state \<lparr>rw_state = race_apply (rp_quote P) (rp_deepEqual P) (rp_name P) (Take k) x, rw_moves = schedule\<rparr>) = (res, s')"
    and "y = race_apply (rp_quote P) (rp_deepEqual P) (rp_name P) (Finish k (fst res > 0 \<or> snd res \<noteq> None)) (rw_state (world s'))"
  shows "system_steps P x0 y \<and>
    (\<forall>pod \<in> set (cl_pods (rs_cluster y)). HasSchedulingGate pod SchedulingGateOfflineResize \<longrightarrow>
      (\<exists>n. Some n \<in> set (pod_volumes pod) \<and>
        (case claim_of (rs_cluster y) (pod_namespace pod, n) of
           None \<Rightarrow> True
         | Some p \<Rightarrow> held p \<or> (pod_namespace pod, n) \<in> rs_queue y \<union> rs_busy y \<union> rs_unseen y)))"
proof -
  let ?apply = "race_apply (rp_quote P) (rp_deepEqual P) (rp_name P)"
  define again where "again \<longleftrightarrow> fst res > 0 \<or> snd res \<noteq> None"
  have take: "race_enabled (Take k) x" using assms(3,4) by simp
  have keeps: "race_keeps P k \<lparr>rw_state = ?apply (Take k) x, rw_moves = schedule\<rparr> (world s')"
    using movesD [OF steps_Reconcile assms(5)] by (simp add: start_state_def)
  have "settled k (race_view k (rw_state (world s')))" if "\<not> again"
    using worker.reconcile_settles [OF assms(5)] that by (simp add: again_def)
  then have fin: "race_enabled (Finish k again) (rw_state (world s'))"
    using keeps by (auto simp: race_keeps_def)
  have "system_steps P x0 (?apply (Take k) x)"
    by (rule rtranclp.rtrancl_into_rtrancl [OF assms(2) race_step.intros [OF take]])
  also have "system_steps P (?apply (Take k) x) (rw_state (world s'))" using keeps by (simp add: race_keeps_def)
  also have "system_steps P (rw_state (world s')) y"
    unfolding assms(6) again_def [symmetric] by (rule r_into_rtranclp [of "race_step _ _ _", OF race_step.intros [OF fin]])
  finally have "system_steps P x0 y" .
  moreover from this have "race_inv y"
    using race_inv_reachable assms(1) by (fastforce simp: race_inv_def)
  ultimately show ?thesis
    by (fastforce simp: race_inv_def race_remembered_def releasable_def split: option.split)
qed

text \<open>
  A claim has just become ready for its filesystem resize. The webhook still saw the error and
  gated a pod, which appears after the worker has read the claim; the worker lists the pod, but its
  patch fails. The claim stays queued.
\<close>

definition race_example :: "int race_params" where
  "race_example = \<lparr>rp_quote = id, rp_deepEqual = (=), rp_name = ''''\<rparr>"

lemma race_example_sel [simp]:
  "rp_quote race_example = id" "rp_deepEqual race_example = (=)" "rp_name race_example = ''''"
  by (simp_all add: race_example_def)

lemma not_held_pending [simp]: "\<not> held (example_claim n [resize_pending])"
  by (simp add: held_def)

theorem gates_under_interference_witness:
  "\<exists>x0 y. system_steps race_example x0 y \<and>
     (\<exists>pod. pod \<in> set (cl_pods (rs_cluster y)) \<and> HasSchedulingGate pod SchedulingGateOfflineResize) \<and>
     (\<exists>p. claim_of (rs_cluster y) (''ns'', ''data'') = Some p \<and> \<not> held p) \<and> (''ns'', ''data'') \<in> rs_queue y \<union> rs_busy y"
proof -
  let ?pend = "offline_world PreferInPlaceVolumeResizeStrategy [resize_pending]"
  let ?pod = "example_pod ''db-0'' [Some ''data'']"
  let ?gated = "AddSchedulingGate ?pod SchedulingGateOfflineResize"
  let ?apply = "race_apply (rp_quote race_example) (rp_deepEqual race_example) (rp_name race_example)"
  let ?x0 = "\<lparr>rs_cluster = offline_world PreferInPlaceVolumeResizeStrategy [offline_error] [], rs_queue = {}, rs_busy = {}, rs_unseen = {}\<rparr>"
  let ?k = "(''ns'', ''data'')"
  let ?schedule = "[([], None), ([CreatePod ?pod (offline_world PreferInPlaceVolumeResizeStrategy [offline_error] [])], None),
    ([], Some (ErrorString ''connection lost''))]"
  define x where "x = ?apply (UpdateClaim (example_claim ''data'' [resize_pending])) ?x0"
  have steps: "system_steps race_example ?x0 x"
    unfolding x_def by (intro r_into_rtranclp race_step.intros) simp
  have x: "rs_cluster x = ?pend []" "?k \<in> rs_queue x" "?k \<notin> rs_busy x" "rs_unseen x = {}"
    using pending_requests [of "example_claim ''data'' [resize_pending]" "(=)" "example_claim ''data'' [offline_error]"]
    unfolding x_def by (simp_all add: note_unseen_def annotated_def)
  have adm: "admitted id '''' (offline_world PreferInPlaceVolumeResizeStrategy [offline_error] []) ?pod = ?gated"
    by (simp add: admitted_def memory_webhook)
  obtain res s' where run: "run_state (Reconcile (rp_quote race_example)
      \<lparr>rc_client = racing_client race_example ?k, rc_autoscalerName = rp_name race_example\<rparr> ?k)
      (start_state \<lparr>rw_state = ?apply (Take ?k) x, rw_moves = ?schedule\<rparr>) = (res, s')" by fastforce
  have g: "pod_namespace ?gated = ''ns''" "\<not> IsNotFound (ErrorString e)" for e
    by (simp_all add: AddSchedulingGate_def IsNotFound_def)
  have out: "rs_cluster (rw_state (world s')) = ?pend [?gated] \<and> rs_unseen (rw_state (world s')) = {}"
    using run
    by (auto simp: Reconcile_def removeSchedulingGates_def podsUsingPVC_def run_simps racing_client_def contended_def
        interfere_def start_state_def race_try_def x adm g requested_def patch_pod_def pod_uses_def gates.has_add)
  define y where "y = ?apply (Finish ?k (fst res > 0 \<or> snd res \<noteq> None)) (rw_state (world s'))"
  have y: "rs_cluster y = ?pend [?gated]" "rs_unseen y = {}" using out by (simp_all add: y_def)
  have "system_steps race_example ?x0 y \<and> (''ns'', ''data'') \<in> rs_queue y \<union> rs_busy y"
    using gates_under_interference [OF _ steps x(2,3) run y_def] by (simp add: y g gates.has_add)
  then show ?thesis using y by (intro exI [of _ ?x0] exI [of _ y]) (simp add: gates.has_add)
qed

end
