(* ===== verification/Spec2Isabelle.thy ===== *)
theory Spec2Isabelle
  imports Command_Line Policy_Webhook Runner_Progress Deep_Copy Percentage Heartbeat_Concurrency
    Fake_Concurrency Gate_Interleaving
begin

text \<open>
  Verification of the pvc-autoscaler, a Kubernetes controller that grows persistent volume
  claims before they run full.

  \<^bold>\<open>The program.\<close> A \<^emph>\<open>PersistentVolumeClaimAutoscaler\<close> (PVCA) names a workload and, per claim
  name pattern, a policy: a threshold, a step, a maximum capacity, a cooldown and a resize
  strategy. One process runs:
  \<^item> the \<^emph>\<open>runner\<close> (\<^verbatim>\<open>internal/periodic\<close>), which at every tick lists the PVCAs, asks the metrics
    source for the use of all volumes, finds the claims of each PVCA through the target fetchers,
    and for each claim grows the storage request, or shrinks it again after a failed expansion
    (\<^verbatim>\<open>internal/expansionfailure\<close>); it writes the status of the PVCA;
  \<^item> the \<^emph>\<open>offline-resize controller\<close> (\<^verbatim>\<open>internal/controller/offlineresize\<close>), which evicts the pods
    of a claim whose expansion only works on a detached disk and later removes the scheduling
    gate of their successors;
  \<^item> the \<^emph>\<open>pod webhook\<close> (\<^verbatim>\<open>internal/webhook/pod\<close>), which puts that gate on new pods of such a claim;
  \<^item> the \<^emph>\<open>validating webhook\<close> of PVCAs (\<^verbatim>\<open>api/autoscaling/v1alpha1\<close>);
  \<^item> a heartbeat that the health probe checks (\<^verbatim>\<open>internal/healthcheck\<close>).

  \<^bold>\<open>How it is modelled.\<close> Go functions are HOL functions of the same name (with a prefix such as
  \<^verbatim>\<open>Runner_\<close> where two packages use a name twice). Handlers are programs of the state monad over a
  world and a list of effects (\<open>Kube_Client\<close>): the API server is a record of operations on the
  world, every one of which may change it, so the theorems hold whatever other controllers do in
  between; patches, evictions, events and metric updates are recorded in program order. Errors
  are values of \<open>go_error\<close>, a panic is \<open>None\<close>. \<open>int64\<close> arithmetic wraps where the code relies on it
  (\<open>wrap64\<close>), \<open>float64\<close> is rounding to 53 significant bits on rationals, exact for the normal range
  in which sizes and percentages lie. Code outside the repository is an argument: the API
  server, \<^verbatim>\<open>resource.Quantity\<close> (\<open>quantity_ops\<close> with \<open>quantity_laws\<close>), the functions on conditions
  (\<open>libs\<close> with \<open>condition_laws\<close>), the scale client, REST mapper and selectors of the fetchers,
  Prometheus, semver, the validators of the webhook, decoders and encoders, the manager, the flags
  of other packages, the deep copies of types of other packages; what is assumed of them is
  documented behaviour and every assumption is met by a concrete instance in a witness. The
  standard library is modelled where the code relies on it: \<^verbatim>\<open>path.Match\<close>, \<^verbatim>\<open>flag.Parse\<close>,
  \<^verbatim>\<open>time.ParseDuration\<close>, \<^verbatim>\<open>strconv.ParseFloat\<close>, \<^verbatim>\<open>strings.TrimSpace\<close>.

  Objects are values. What makes this sound is that the code copies an object deeply before it
  changes one of the two and compares them; the generated copies are verified on a memory of cells
  with addresses (\<^verbatim>\<open>Go_Memory\<close>, \<^verbatim>\<open>Deep_Copy\<close>), where a copy shares no cell with the original.

  \<^bold>\<open>The theories\<close>, in the order of their imports, with the sources under \<^verbatim>\<open>src\<close>:
  \<^item> \<^verbatim>\<open>Go_Prelude\<close>, \<^verbatim>\<open>Go_Float64\<close>, \<^verbatim>\<open>Go_PathMatch\<close>: strings, integers, errors, \<open>float64\<close> (a locale for
    rounding functions, interpreted for \<open>float64\<close>) and \<^verbatim>\<open>path.Match\<close> with the proof that on
    patterns without classes and escapes it is the reference matcher \<open>glob\<close>.
  \<^item> \<^verbatim>\<open>Go_Flags\<close>, \<^verbatim>\<open>Go_ParseFloat\<close>: durations and command lines, with their round trips; the decimal
    and hexadecimal numerals of \<open>float64\<close> with correct rounding, subnormals and overflow.
  \<^item> \<^verbatim>\<open>Go_Memory\<close>, \<^verbatim>\<open>Deep_Copy\<close> (\<^verbatim>\<open>zz_generated.deepcopy.go\<close>): the locale \<open>deep_copier\<close>, combinators
    for pointers, slices and structs that keep its contract, and from them that every generated
    function copies deeply.
  \<^item> \<^verbatim>\<open>Percentage\<close> (\<^verbatim>\<open>utils.ParsePercentage\<close>): which strings are accepted, and as which double.
  \<^item> \<^verbatim>\<open>Kube_Objects\<close>, \<^verbatim>\<open>Autoscaler_Types\<close>, \<^verbatim>\<open>Kube_Client\<close>: the objects of the cluster, the API types
    and field indexers (\<^verbatim>\<open>api/autoscaling/v1alpha1\<close>), the client and the contract calculus \<open>valid\<close>.
  \<^item> \<^verbatim>\<open>Utils\<close> (\<^verbatim>\<open>internal/utils\<close>, constants of \<^verbatim>\<open>internal/common\<close>): policy selection, owner lookup,
    scheduling gates (locale interpreted as \<open>gates\<close>), offline-resize tests.
  \<^item> \<^verbatim>\<open>Metrics\<close> (\<^verbatim>\<open>internal/metrics/metrics.go\<close>), \<^verbatim>\<open>Metrics_Source\<close> (\<^verbatim>\<open>source.go\<close>, \<^verbatim>\<open>fake.go\<close>) and
    \<^verbatim>\<open>Metrics_Prometheus\<close> (\<^verbatim>\<open>prometheus.go\<close>): registration cannot panic; percentages are in
    range, antitone and equivalent to the free-space comparison; the fake source is a round trip;
    the Prometheus source returns the statistics of exactly the sampled claims in any iteration
    order.
  \<^item> \<^verbatim>\<open>Sizes\<close>: rounding up to whole GiB and its error bounds.
  \<^item> \<^verbatim>\<open>Conditions\<close> (\<^verbatim>\<open>periodic/conditions.go\<close>): both aggregators implement the locale
    \<open>condition_aggregator\<close>; the order of claims cannot change a status.
  \<^item> \<^verbatim>\<open>Policy_Webhook\<close>: what the validating webhook admits, and that for admitted policies the
    selection is by glob.
  \<^item> \<^verbatim>\<open>Expansion_Failure\<close>: a recovery stays strictly between capacity and request, halves the step
    and ends after a bounded number of patches.
  \<^item> \<^verbatim>\<open>Fetchers\<close> (\<^verbatim>\<open>internal/target\<close>): the claims of a PVCA, as an instance of the locale
    \<open>pvc_fetcher\<close> on which the runner relies.
  \<^item> \<^verbatim>\<open>Recommendations\<close>, \<^verbatim>\<open>Scaling\<close>, \<^verbatim>\<open>Runner\<close>: the functions of \<^verbatim>\<open>periodic/periodic.go\<close> (the stored
    recommendations as an instance of the locale \<open>keyed_store\<close>; validation, thresholds, target
    size, cooldown, resize; one claim, one PVCA, all PVCAs, the loop).
  \<^item> \<^verbatim>\<open>Runner_Safety\<close>: over any number of ticks no panic, only allowed patches, each in a pass that found the
    claim for one autoscaler, ambiguous claims left alone, well-formed status. \<^verbatim>\<open>Runner_Progress\<close>: exactly when a claim grows or is recovered, every
    growth explained by metrics, a bound on the number of growths, cooldown, settling of the status,
    labels of the metrics.
  \<^item> \<^verbatim>\<open>Version\<close>, \<^verbatim>\<open>Heartbeat\<close>: the version gate ignores suffixes; the check detects a stall exactly.
  \<^item> \<^verbatim>\<open>Go_Mutex\<close>, \<^verbatim>\<open>Heartbeat_Concurrency\<close>, \<^verbatim>\<open>Fake_Concurrency\<close>: goroutines that share an object behind
    a \<^verbatim>\<open>sync.Mutex\<close> as the step relation \<open>goroutine_step\<close>, and the locale \<open>lock_protected\<close> of proof
    outlines, interpreted on the statements of the heartbeat and of the fake source: mutual exclusion,
    every interleaving amounts to whole operations in the order of the unlocks, the mutex is released.
  \<^item> \<^verbatim>\<open>Offline_Resize\<close>, \<^verbatim>\<open>Pod_Webhook\<close>, \<^verbatim>\<open>Gate_Lifecycle\<close>: reconciliation, predicates, mappers and
    watches; the webhook; both together as the step relation \<open>gate_step\<close> on cluster and work queue
    with the invariant that no gate is forgotten (preservation of the world by handlers is the
    locale \<open>world_order\<close>). There a reconciliation is one step; in \<^verbatim>\<open>Gate_Interleaving\<close> the calls of
    the five workers, of the webhook and of the rest of the cluster interleave and may fail: the locale
    \<open>contended_server\<close> states what a worker may rely on, and a reconciliation refines the step
    relation \<open>race_step\<close>. In \<open>gate_step\<close> the failing resize of a claim ends with a pending filesystem
    resize and no claims are created; in \<open>race_step\<close> claims and autoscalers are created, updated and
    deleted without restriction, and the claims that become ready other than with the annotation of the
    runner and a pending filesystem resize are recorded until a worker takes them: of the gates of their
    pods nothing is shown, and \<open>gate_stranded\<close> is an example of one that stays.
  \<^item> \<^verbatim>\<open>Process_Wiring\<close> (\<^verbatim>\<open>cmd/pvc-autoscaler/main.go\<close>): the options of the manager, the order of
    constructions and exits, and that the parts \<open>main\<close> builds satisfy what the theorems about them
    assume. \<^verbatim>\<open>Command_Line\<close>: the initialisation of the packages, the flags, the meaning of a command
    line and the exit status.
  \<^item> \<^verbatim>\<open>Example_Cluster\<close>: an in-memory API server for the witnesses.

  \<^bold>\<open>Bounds.\<close> Safety holds for sizes up to \<^verbatim>\<open>2^62\<close> bytes, so that \<open>int64\<close> sums do not wrap; the exact
  growth theorem for sizes up to \<^verbatim>\<open>2^52\<close> bytes (4 PiB), where \<open>float64\<close> is exact on bytes, and for a
  minimal step of at least 1 GiB. All recursions are structural or have a measure; there is no
  fuel. The loop of \<open>Start\<close> runs over an arbitrary list of ticks.

  The theorem at the end of this theory spans the program: from the command line to the effects.

  \<^bold>\<open>Not modelled.\<close> Log lines and the names of event recorders; the help texts of flags and metrics;
  constants that no code but tests uses; the fairness of mutexes; the delay of the caches
  that reads of the cluster go through (a read returns what is there when it returns); cancellation of
  contexts other than the end of the loops; the test utilities; the HTTP code of an API error, which
  \<^verbatim>\<open>IsNotFound\<close> and \<^verbatim>\<open>IsTooManyRequests\<close> read beside its reason (errors of the API server have both);
  the rounding of stored times to seconds when a status is written; the saturation of \<^verbatim>\<open>time.Time\<close>
  arithmetic beyond 292 years; writes of a caller to items of the fake source after it registered them;
  the order that an unstable sort gives to equal names (there are none). A slice in \<^verbatim>\<open>Deep_Copy\<close> is its whole array: the code takes no part of a slice.
\<close>

text \<open>
  C9: The program is safe from its command line to its effects. Whatever the arguments, if they
  are read and the process starts with a positive interval, and the server returns sane objects,
  then no number of passes makes the runner panic, and every patch, event and metric update is one
  that the flags and the policies of a listed autoscaler allow; the runner, the offline-resize
  controller and, unless webhooks are disabled, the pod webhook act with the same client for the
  autoscaler name of the flags, as their agreement requires.
\<close>

theorem program_safe:
  fixes p :: "('q, 'w, 'req) process"
  assumes "main I other z args E = Main F (Running p)" "0 < fl_interval F" "quantity_laws (lb_quantity L) amount"
    and "sane_client (lb_quantity L) amount (mgr_Client E)" "lists_namespace (mgr_Client E)"
    and "\<forall>m. mset (env_order E m) = mset m" "\<forall>xs. mset (lb_order L xs) = mset xs"
    and "run_state (Runner_Start L (pr_runner p) evs (pr_heartbeat p)) s = (x, s')"
  shows "x \<noteq> None \<and>
    (\<exists>es. effects s' = effects s @ es \<and> list_all (run_effect L amount (mgr_Client E) (fl_autoscalerName F)) es) \<and>
    rc_client (pr_reconciler p) = rn_client (pr_runner p) \<and>
    rc_autoscalerName (pr_reconciler p) = rn_autoscalerName (pr_runner p) \<and>
    (pr_mutator p = None \<longleftrightarrow> ENABLE_WEBHOOKS E = ''false'') \<and>
    (\<forall>m. pr_mutator p = Some m \<longrightarrow> mt_client m = rn_client (pr_runner p) \<and> mt_autoscalerName m = rn_autoscalerName (pr_runner p))"
  by (rule main_process_fits [OF main_Running [OF assms(1)] assms(2-8)])

theorem program_safe_witness:
  "\<exists>F p x s' m. main example_init zap_flags ''info'' (concat example_args) example_process_env = Main F (Running p) \<and>
     run_state (Runner_Start example_libs (pr_runner p) [Tick, Tick] (pr_heartbeat p)) (start_state example_world) = (x, s') \<and> x \<noteq> None \<and>
     pr_mutator p = Some m \<and> mt_client m = rc_client (pr_reconciler p)"
proof -
  obtain F p where p: "main example_init zap_flags ''info'' (concat example_args) example_process_env = Main F (Running p)" "0 < fl_interval F"
    using example_main_runs by blast
  obtain x s' where run: "run_state (Runner_Start example_libs (pr_runner p) [Tick, Tick] (pr_heartbeat p)) (start_state example_world) = (x, s')"
    by fastforce
  have "ENABLE_WEBHOOKS example_process_env \<noteq> ''false''" by (simp add: example_process_env_def)
  with program_safe [OF p _ _ _ _ _ run, of of_int] p run show ?thesis
    by (auto simp: byte_quantities_laws checking_client_sane checking_client_lists)
qed

end
